theory Spec2Isabelle
  imports Complex_Main
begin

section \<open>Python values\<close>

text \<open>
  A Python \<open>str\<close> is a sequence of Unicode code points; it is modelled as a list of
  natural numbers, one per code point. \<open>py\<close> turns an ASCII literal into such a list.
\<close>

type_synonym pystr = "nat list"

definition py :: "string \<Rightarrow> pystr" where
  "py cs = map of_char cs"

text \<open>
  The values that \<open>json.loads\<close> and \<open>resp.json()\<close> produce: \<open>None\<close>, booleans, integers,
  strings, lists and dictionaries (in insertion order, looked up by their first binding).
  Fractional numbers are outside the model.
\<close>

datatype json =
    JNull
  | JBool bool
  | JInt int
  | JStr pystr
  | JArr "json list"
  | JObj "(pystr \<times> json) list"

text \<open>
  The exceptions of the program. \<open>WyzeApiError code msg\<close> is the
  \<open>Exception("Wyze API error: code - msg")\<close> of \<open>_validate\<close>, with the two values it
  formats; \<open>ConnectionError\<close> is any exception of a \<open>requests\<close> call; \<open>SystemExit\<close> is
  \<open>sys.exit(1)\<close>.
\<close>

datatype error =
    TokenRefreshed
  | WyzeApiError json json
  | ConnectionError
  | JSONDecodeError
  | KeyError
  | TypeError
  | AttributeError
  | UnicodeEncodeError
  | SystemExit

text \<open>
  The parts of Python's library that the program calls and that are not written out here:
  the Unicode character database for the code points above U+007F (\<open>str.isalnum\<close>, the
  decimal digits of category Nd, the per-character lower-case and upper-case mappings),
  the MD5 digest (bytes to bytes) and \<open>urllib.parse.unquote\<close>. They are a parameter of
  every function that uses them; on ASCII the character functions are written out below.
\<close>

record pylib =
  isalnum :: "nat \<Rightarrow> bool"
  isdecimal :: "nat \<Rightarrow> bool"
  lowercase :: "nat \<Rightarrow> pystr"
  uppercase :: "nat \<Rightarrow> pystr"
  md5 :: "nat list \<Rightarrow> nat list"
  unquote :: "json \<Rightarrow> error + json"

text \<open>Truth value of a Python object, as \<open>not x\<close> and \<open>x or y\<close> test it.\<close>

fun truthy :: "json \<Rightarrow> bool" where
  "truthy JNull = False"
| "truthy (JBool b) = b"
| "truthy (JInt i) = (i \<noteq> 0)"
| "truthy (JStr s) = (s \<noteq> [])"
| "truthy (JArr xs) = (xs \<noteq> [])"
| "truthy (JObj d) = (d \<noteq> [])"

text \<open>\<open>x[k]\<close> for a string key: \<open>KeyError\<close> on a dictionary without it, \<open>TypeError\<close> on
  anything that is no dictionary.\<close>

fun subscript :: "json \<Rightarrow> pystr \<Rightarrow> error + json" where
  "subscript (JObj d) k = (case map_of d k of None \<Rightarrow> Inl KeyError | Some v \<Rightarrow> Inr v)"
| "subscript _ k = Inl TypeError"

text \<open>\<open>x.get(k, default)\<close>: only dictionaries have the method.\<close>

fun py_get :: "json \<Rightarrow> pystr \<Rightarrow> json \<Rightarrow> error + json" where
  "py_get (JObj d) k dflt = Inr (case map_of d k of None \<Rightarrow> dflt | Some v \<Rightarrow> v)"
| "py_get _ k dflt = Inl AttributeError"

text \<open>\<open>d[k] = v\<close> on a dictionary: an existing key keeps its place, a new key goes last.\<close>

fun dict_set :: "pystr \<Rightarrow> json \<Rightarrow> (pystr \<times> json) list \<Rightarrow> (pystr \<times> json) list" where
  "dict_set k v [] = [(k, v)]"
| "dict_set k v ((k', v') # d) = (if k' = k then (k, v) # d else (k', v') # dict_set k v d)"

text \<open>\<open>d.pop(k)\<close> for a key that is present: the binding found by lookup is removed.\<close>

fun dict_del :: "pystr \<Rightarrow> (pystr \<times> json) list \<Rightarrow> (pystr \<times> json) list" where
  "dict_del k [] = []"
| "dict_del k ((k', v') # d) = (if k' = k then d else (k', v') # dict_del k d)"

text \<open>The elements a \<open>for\<close> loop draws from a value: the items of a list, the keys of a
  dictionary, the one-character strings of a string; anything else is not iterable.\<close>

fun py_iter :: "json \<Rightarrow> error + json list" where
  "py_iter (JArr xs) = Inr xs"
| "py_iter (JObj d) = Inr (map (\<lambda>kv. JStr (fst kv)) d)"
| "py_iter (JStr s) = Inr (map (\<lambda>c. JStr [c]) s)"
| "py_iter _ = Inl TypeError"

text \<open>Decimal digits of a number, and \<open>str\<close> of the values whose text matters to the
  program. \<open>str\<close> of a list or dictionary is its \<open>repr\<close>, which starts with a bracket;
  \<open>py_str\<close> gives \<open>None\<close> for them.\<close>

fun digits10 :: "nat \<Rightarrow> pystr" where
  "digits10 n = (if n < 10 then [48 + n] else digits10 (n div 10) @ [48 + n mod 10])"

declare digits10.simps [simp del]

definition str_int :: "int \<Rightarrow> pystr" where
  "str_int i = (if i < 0 then 45 # digits10 (nat (- i)) else digits10 (nat i))"

fun py_str :: "json \<Rightarrow> pystr option" where
  "py_str (JStr s) = Some s"
| "py_str (JInt i) = Some (str_int i)"
| "py_str (JBool b) = Some (if b then py ''True'' else py ''False'')"
| "py_str JNull = Some (py ''None'')"
| "py_str _ = None"

section \<open>String functions\<close>

text \<open>The white space that \<open>str.strip()\<close> removes.\<close>

definition isspace :: "nat \<Rightarrow> bool" where
  "isspace c \<longleftrightarrow> (9 \<le> c \<and> c \<le> 13) \<or> (28 \<le> c \<and> c \<le> 32) \<or> c = 133 \<or> c = 160
     \<or> c = 5760 \<or> (8192 \<le> c \<and> c \<le> 8202) \<or> c = 8232 \<or> c = 8233 \<or> c = 8239
     \<or> c = 8287 \<or> c = 12288"

definition strip :: "pystr \<Rightarrow> pystr" where
  "strip s = rev (dropWhile isspace (rev (dropWhile isspace s)))"

text \<open>\<open>\w\<close> of a \<open>str\<close> pattern: alphanumeric or underscore.\<close>

definition word_char :: "pylib \<Rightarrow> nat \<Rightarrow> bool" where
  "word_char L c =
     (if c < 128 then (48 \<le> c \<and> c \<le> 57) \<or> (65 \<le> c \<and> c \<le> 90) \<or> (97 \<le> c \<and> c \<le> 122) \<or> c = 95
      else isalnum L c)"

text \<open>\<open>\d\<close> of a \<open>str\<close> pattern: a decimal digit of any script.\<close>

definition digit_char :: "pylib \<Rightarrow> nat \<Rightarrow> bool" where
  "digit_char L c = (if c < 128 then 48 \<le> c \<and> c \<le> 57 else isdecimal L c)"

text \<open>\<open>str.lower()\<close> and \<open>str.upper()\<close>, character by character. (For U+03A3 Python
  chooses between two non-ASCII lower-case forms by context; the table gives one.)\<close>

definition lower_char :: "pylib \<Rightarrow> nat \<Rightarrow> pystr" where
  "lower_char L c =
     (if c < 128 then [if 65 \<le> c \<and> c \<le> 90 then c + 32 else c] else lowercase L c)"

definition lower :: "pylib \<Rightarrow> pystr \<Rightarrow> pystr" where
  "lower L s = concat (map (lower_char L) s)"

definition upper_char :: "pylib \<Rightarrow> nat \<Rightarrow> pystr" where
  "upper_char L c =
     (if c < 128 then [if 97 \<le> c \<and> c \<le> 122 then c - 32 else c] else uppercase L c)"

definition upper :: "pylib \<Rightarrow> pystr \<Rightarrow> pystr" where
  "upper L s = concat (map (upper_char L) s)"

text \<open>\<open>s.encode("ascii")\<close> raises on a code point above U+007F;
  \<open>s.encode("ascii", "ignore").decode()\<close> drops those code points.\<close>

definition encode_ascii :: "pystr \<Rightarrow> error + nat list" where
  "encode_ascii s = (if list_all (\<lambda>c. c < 128) s then Inr s else Inl UnicodeEncodeError)"

definition encode_ascii_ignore :: "pystr \<Rightarrow> pystr" where
  "encode_ascii_ignore s = filter (\<lambda>c. c < 128) s"

text \<open>\<open>hashlib.md5(b).hexdigest()\<close>: two lower-case hexadecimal digits per digest byte.\<close>

definition hex_digit :: "nat \<Rightarrow> nat" where
  "hex_digit d = (if d < 10 then 48 + d else 87 + d)"

definition hexdigest :: "pylib \<Rightarrow> nat list \<Rightarrow> pystr" where
  "hexdigest L bs = concat (map (\<lambda>b. [hex_digit (b div 16 mod 16), hex_digit (b mod 16)]) (md5 L bs))"

subsection \<open>\<open>_hash_password\<close>\<close>

text \<open>The loop \<open>for _ in range(n): encoded = md5(encoded.encode("ascii")).hexdigest()\<close>.\<close>

fun md5_rounds :: "pylib \<Rightarrow> nat \<Rightarrow> pystr \<Rightarrow> error + pystr" where
  "md5_rounds L 0 encoded = Inr encoded"
| "md5_rounds L (Suc n) encoded =
     (case encode_ascii encoded of
        Inl e \<Rightarrow> Inl e
      | Inr bs \<Rightarrow> md5_rounds L n (hexdigest L bs))"

definition startswith :: "pystr \<Rightarrow> pystr \<Rightarrow> bool" where
  "startswith s prefix = (take (length prefix) s = prefix)"

definition hash_password :: "pylib \<Rightarrow> pystr \<Rightarrow> error + pystr" where
  "hash_password L password =
     (let encoded = strip password in
      if startswith (lower L encoded) (py ''hashed:'') then Inr (drop (length (py ''hashed:'')) encoded)
      else if startswith (lower L encoded) (py ''md5:'') then Inr (drop (length (py ''md5:'')) encoded)
      else md5_rounds L 3 encoded)"

subsection \<open>\<open>_name_uri\<close>\<close>

text \<open>\<open>s.replace(" ", "-")\<close> and \<open>re.sub(r"[^\-\w+]", "", s)\<close>.\<close>

definition replace_spaces :: "pystr \<Rightarrow> pystr" where
  "replace_spaces s = map (\<lambda>c. if c = 32 then 45 else c) s"

definition sub_non_word :: "pylib \<Rightarrow> pystr \<Rightarrow> pystr" where
  "sub_non_word L s = filter (\<lambda>c. c = 45 \<or> word_char L c \<or> c = 43) s"

definition name_uri_of :: "pylib \<Rightarrow> json \<Rightarrow> json \<Rightarrow> error + pystr" where
  "name_uri_of L nickname mac =
     (let name = (if truthy nickname then nickname else mac) in
      case name of
        JStr s \<Rightarrow> Inr (encode_ascii_ignore (lower L (sub_non_word L (replace_spaces (strip s)))))
      | _ \<Rightarrow> Inl AttributeError)"

section \<open>State and the vendor\<close>

text \<open>
  A normalized camera, the dictionary that \<open>fetch_cameras\<close> builds for each device.
\<close>

record camera =
  mac :: json
  nickname :: json
  name_uri :: pystr
  model :: json
  model_name :: json
  firmware_ver :: json
  ip :: json
  thumbnail :: json
  is_pan :: bool
  is_2k :: bool
  online :: bool

text \<open>
  A text with what a JSON parser makes of it: \<open>JsonText j\<close> is a text that parses to
  \<open>j\<close>, \<open>NotJson bs\<close> a text that \<open>json.loads\<close> (or \<open>resp.json()\<close>) rejects. It is the
  content of the token file and the body of an HTTP reply.
\<close>

datatype body = NotJson "nat list" | JsonText json

text \<open>
  What a \<open>requests\<close> call gives: an exception, or a response with its status code, its
  content-type header and its body.
\<close>

datatype reply = ConnFail | Resp nat "pystr option" body

datatype endpoint =
    LoginEP
  | RefreshTokenEP
  | GetObjectListEP
  | RunActionEP
  | SetPropertyEP
  | GetDeviceInfoEP
  | SignalingEP
  | ThumbnailEP

text \<open>
  A request as the trace records it: the endpoint, the access token it carries (in the
  payload, or in the authorization header of the signaling call) and the other values
  that vary (\<open>phone_id\<close>, the refresh token, the device and action). The constant fields of
  \<open>_payload\<close> and \<open>_headers\<close> and the millisecond time stamp are left out.
\<close>

record request =
  endpoint :: endpoint
  access :: json
  args :: "json list"

text \<open>
  The global variables \<open>_creds\<close>, \<open>_cameras\<close>, \<open>_cameras_ts\<close>, the token file (\<open>None\<close>: it
  does not exist), and the world outside: the replies that the next requests will get, in
  order (after the last one every request fails as \<open>ConnFail\<close>), and the requests sent so
  far.
\<close>

record world =
  creds :: json
  cameras :: "camera list"
  cameras_ts :: real
  token_file :: "body option"
  vendor :: "reply list"
  calls :: "request list"

definition CACHE_TTL :: real where
  "CACHE_TTL = 120"

text \<open>\<open>requests.post\<close> / \<open>requests.get\<close>: the request is recorded and the next reply taken.\<close>

definition send :: "world \<Rightarrow> request \<Rightarrow> world \<times> (error + nat \<times> pystr option \<times> body)" where
  "send w rq =
     (case vendor w of
        [] \<Rightarrow> (w\<lparr>calls := calls w @ [rq]\<rparr>, Inl ConnectionError)
      | ConnFail # rs \<Rightarrow> (w\<lparr>vendor := rs, calls := calls w @ [rq]\<rparr>, Inl ConnectionError)
      | Resp st ct b # rs \<Rightarrow> (w\<lparr>vendor := rs, calls := calls w @ [rq]\<rparr>, Inr (st, ct, b)))"

text \<open>\<open>_payload\<close>: the two values it reads from \<open>_creds\<close>, access token first.\<close>

definition payload :: "world \<Rightarrow> error + json \<times> json" where
  "payload w =
     (case subscript (creds w) (py ''access_token'') of
        Inl e \<Rightarrow> Inl e
      | Inr tok \<Rightarrow>
          (case subscript (creds w) (py ''phone_id'') of
             Inl e \<Rightarrow> Inl e
           | Inr pid \<Rightarrow> Inr (tok, pid)))"

text \<open>\<open>_save_tokens\<close>: the file now holds the JSON text of \<open>_creds\<close>.\<close>

definition save_tokens :: "world \<Rightarrow> world" where
  "save_tokens w = w\<lparr>token_file := Some (JsonText (creds w))\<rparr>"

text \<open>\<open>_load_tokens\<close>.\<close>

definition load_tokens :: "world \<Rightarrow> world \<times> (error + bool)" where
  "load_tokens w =
     (case token_file w of
        None \<Rightarrow> (w, Inr False)
      | Some (NotJson t) \<Rightarrow> (w, Inl JSONDecodeError)
      | Some (JsonText j) \<Rightarrow> (w\<lparr>creds := j\<rparr>, Inr True))"

text \<open>The status code that \<open>_validate\<close> reads:
  \<open>data.get("code", data.get("errorCode", 0))\<close>, and the message of its exception.\<close>

definition response_code :: "(pystr \<times> json) list \<Rightarrow> json" where
  "response_code d =
     (case map_of d (py ''code'') of
        Some v \<Rightarrow> v
      | None \<Rightarrow> (case map_of d (py ''errorCode'') of Some v \<Rightarrow> v | None \<Rightarrow> JInt 0))"

definition response_msg :: "(pystr \<times> json) list \<Rightarrow> json" where
  "response_msg d =
     (case map_of d (py ''msg'') of
        Some v \<Rightarrow> v
      | None \<Rightarrow> (case map_of d (py ''description'') of Some v \<Rightarrow> v | None \<Rightarrow> response_code d))"

text \<open>
  \<open>_validate\<close> and \<open>_refresh_token\<close> call each other: an expired code in the reply to a
  refresh request starts another refresh. Every refresh takes one reply from the vendor,
  which bounds the recursion.
\<close>

function validate :: "world \<Rightarrow> nat \<times> pystr option \<times> body \<Rightarrow> world \<times> (error + json)"
  and refresh_token :: "world \<Rightarrow> world \<times> (error + unit)"
where
  "validate w resp =
     (case snd (snd resp) of
        NotJson t \<Rightarrow> (w, Inl JSONDecodeError)
      | JsonText data \<Rightarrow>
          (case data of
             JObj d \<Rightarrow>
               if py_str (response_code d) = Some (py ''2001'') then
                 (case refresh_token w of
                    (w', Inl e) \<Rightarrow> (w', Inl e)
                  | (w', Inr u) \<Rightarrow> (w', Inl TokenRefreshed))
               else if py_str (response_code d) \<noteq> Some (py ''1'')
                     \<and> py_str (response_code d) \<noteq> Some (py ''0'') then
                 (w, Inl (WyzeApiError (response_code d) (response_msg d)))
               else (w, Inr (case map_of d (py ''data'') of None \<Rightarrow> data | Some v \<Rightarrow> v))
           | _ \<Rightarrow> (w, Inl AttributeError)))"
| "refresh_token w =
     (case payload w of
        Inl e \<Rightarrow> (w, Inl e)
      | Inr tp \<Rightarrow>
          (case subscript (creds w) (py ''refresh_token'') of
             Inl e \<Rightarrow> (w, Inl e)
           | Inr rt \<Rightarrow>
               (case send w \<lparr>endpoint = RefreshTokenEP, access = fst tp, args = [snd tp, rt]\<rparr> of
                  (w1, Inl e) \<Rightarrow> (w1, Inl e)
                | (w1, Inr resp) \<Rightarrow>
                    (case validate w1 resp of
                       (w2, Inl e) \<Rightarrow> (w2, Inl e)
                     | (w2, Inr data) \<Rightarrow>
                         (case data of
                            JObj d \<Rightarrow>
                              (case subscript (creds w2) (py ''access_token'') of
                                 Inl e \<Rightarrow> (w2, Inl e)
                               | Inr old_at \<Rightarrow>
                                   (case creds w2 of
                                      JObj c \<Rightarrow>
                                        (let c1 = dict_set (py ''access_token'')
                                                    (case map_of d (py ''access_token'') of
                                                       None \<Rightarrow> old_at | Some v \<Rightarrow> v) c
                                         in case map_of c1 (py ''refresh_token'') of
                                              None \<Rightarrow> (w2\<lparr>creds := JObj c1\<rparr>, Inl KeyError)
                                            | Some old_rt \<Rightarrow>
                                                (let c2 = dict_set (py ''refresh_token'')
                                                            (case map_of d (py ''refresh_token'') of
                                                               None \<Rightarrow> old_rt | Some v \<Rightarrow> v) c1
                                                 in (save_tokens (w2\<lparr>creds := JObj c2\<rparr>), Inr ())))
                                    | _ \<Rightarrow> (w2, Inl TypeError)))
                          | _ \<Rightarrow> (w2, Inl AttributeError))))))"
  by pat_completeness auto

termination
  by (relation "measure (\<lambda>x. case x of Inl (w, resp) \<Rightarrow> 2 * length (vendor w) + 2
                                       | Inr w \<Rightarrow> 2 * length (vendor w) + 1)")
     (auto simp: send_def split: list.splits reply.splits)

declare validate.simps [simp del] refresh_token.simps [simp del]

section \<open>Vendor calls\<close>

text \<open>
  One attempt of an authenticated call, as each call site writes it twice (in its \<open>try\<close>
  block and in its \<open>except TokenRefreshed\<close> block): the payload with the current
  access token, the request, \<open>_validate\<close>.
\<close>

definition call_api :: "world \<Rightarrow> endpoint \<Rightarrow> json list \<Rightarrow> world \<times> (error + json)" where
  "call_api w ep xs =
     (case payload w of
        Inl e \<Rightarrow> (w, Inl e)
      | Inr tp \<Rightarrow>
          (case send w \<lparr>endpoint = ep, access = fst tp, args = snd tp # xs\<rparr> of
             (w1, Inl e) \<Rightarrow> (w1, Inl e)
           | (w1, Inr resp) \<Rightarrow> validate w1 resp))"

text \<open>The signaling request carries the access token in its authorization header and
  nothing else of \<open>_creds\<close>.\<close>

definition call_signaling :: "world \<Rightarrow> json \<Rightarrow> world \<times> (error + json)" where
  "call_signaling w mac_v =
     (case subscript (creds w) (py ''access_token'') of
        Inl e \<Rightarrow> (w, Inl e)
      | Inr tok \<Rightarrow>
          (case send w \<lparr>endpoint = SignalingEP, access = tok, args = [mac_v]\<rparr> of
             (w1, Inl e) \<Rightarrow> (w1, Inl e)
           | (w1, Inr resp) \<Rightarrow> validate w1 resp))"

subsection \<open>\<open>run_action\<close>, \<open>set_property\<close>, \<open>get_device_info\<close>\<close>

definition run_action :: "world \<Rightarrow> json \<Rightarrow> json \<Rightarrow> json \<Rightarrow> world \<times> (error + json)" where
  "run_action w mac_v model_v action =
     (case call_api w RunActionEP [action, mac_v, model_v] of
        (w1, r) \<Rightarrow>
          if r = Inl TokenRefreshed then call_api w1 RunActionEP [action, mac_v, model_v]
          else (w1, r))"

definition set_property ::
  "pylib \<Rightarrow> world \<Rightarrow> json \<Rightarrow> json \<Rightarrow> pystr \<Rightarrow> pystr \<Rightarrow> world \<times> (error + json)" where
  "set_property L w mac_v model_v pid pvalue =
     (case call_api w SetPropertyEP [JStr (upper L pid), JStr pvalue, mac_v, model_v] of
        (w1, r) \<Rightarrow>
          if r = Inl TokenRefreshed
          then call_api w1 SetPropertyEP [JStr (upper L pid), JStr pvalue, mac_v, model_v]
          else (w1, r))"

definition get_device_info :: "world \<Rightarrow> json \<Rightarrow> json \<Rightarrow> world \<times> (error + json)" where
  "get_device_info w mac_v model_v =
     (case call_api w GetDeviceInfoEP [mac_v, model_v] of
        (w1, r) \<Rightarrow>
          if r = Inl TokenRefreshed then call_api w1 GetDeviceInfoEP [mac_v, model_v]
          else (w1, r))"

subsection \<open>\<open>fetch_cameras\<close>\<close>

definition MODEL_NAMES :: "(pystr \<times> pystr) list" where
  "MODEL_NAMES =
     [(py ''WYZEC1'', py ''V1''), (py ''WYZEC1-JZ'', py ''V2''),
      (py ''WYZE_CAKP2JFUS'', py ''V3''), (py ''HL_CAM4'', py ''V4''),
      (py ''HL_CAM3P'', py ''V3 Pro''), (py ''WYZECP1_JEF'', py ''Pan''),
      (py ''HL_PAN2'', py ''Pan V2''), (py ''HL_PAN3'', py ''Pan V3''),
      (py ''HL_PANP'', py ''Pan Pro''), (py ''HL_CFL2'', py ''Floodlight V2''),
      (py ''WYZEDB3'', py ''Doorbell''), (py ''HL_DB2'', py ''Doorbell V2''),
      (py ''GW_BE1'', py ''Doorbell Pro''), (py ''AN_RDB1'', py ''Doorbell Pro 2''),
      (py ''GW_GC1'', py ''OG''), (py ''GW_GC2'', py ''OG 3X''),
      (py ''WVOD1'', py ''Outdoor''), (py ''HL_WCO2'', py ''Outdoor V2''),
      (py ''AN_RSCW'', py ''Battery Cam Pro''), (py ''LD_CFP'', py ''Floodlight Pro'')]"

definition PAN_CAMS :: "pystr list" where
  "PAN_CAMS = [py ''WYZECP1_JEF'', py ''HL_PAN2'', py ''HL_PAN3'', py ''HL_PANP'']"

definition PRO_CAMS :: "pystr list" where
  "PRO_CAMS = [py ''HL_CAM3P'', py ''HL_PANP'', py ''HL_CAM4'', py ''HL_DB2'', py ''HL_CFL2'']"

text \<open>Lists and dictionaries cannot be keys of a dictionary or members of a set.\<close>

fun hashable :: "json \<Rightarrow> bool" where
  "hashable (JArr xs) = False"
| "hashable (JObj d) = False"
| "hashable _ = True"

text \<open>\<open>d.get(k)\<close> and \<open>d.get(k, dflt)\<close> on a value known to be a dictionary.\<close>

definition dget :: "(pystr \<times> json) list \<Rightarrow> pystr \<Rightarrow> json \<Rightarrow> json" where
  "dget d k dflt = (case map_of d k of None \<Rightarrow> dflt | Some v \<Rightarrow> v)"

text \<open>
  The body of the loop over \<open>device_list\<close>: \<open>None\<close> where the loop says \<open>continue\<close>. The
  entries of the dictionary literal are evaluated in the order written.
\<close>

definition camera_of_device :: "pylib \<Rightarrow> json \<Rightarrow> error + camera option" where
  "camera_of_device L dev =
     (case dev of
        JObj d \<Rightarrow>
          if dget d (py ''product_type'') JNull \<noteq> JStr (py ''Camera'') then Inr None
          else if \<not> truthy (dget d (py ''mac'') JNull)
                  \<or> \<not> truthy (dget d (py ''product_model'') JNull) then Inr None
          else
            (case py_get (dget d (py ''device_params'') (JObj [])) (py ''camera_thumbnails'') (JObj []) of
               Inl e \<Rightarrow> Inl e
             | Inr thumbs \<Rightarrow>
                 (case name_uri_of L (dget d (py ''nickname'') (dget d (py ''mac'') JNull))
                         (dget d (py ''mac'') JNull) of
                    Inl e \<Rightarrow> Inl e
                  | Inr uri \<Rightarrow>
                      if \<not> hashable (dget d (py ''product_model'') JNull) then Inl TypeError
                      else
                        (case py_get (dget d (py ''device_params'') (JObj [])) (py ''ip'') JNull of
                           Inl e \<Rightarrow> Inl e
                         | Inr ip_v \<Rightarrow>
                             (case py_get thumbs (py ''thumbnails_url'') JNull of
                                Inl e \<Rightarrow> Inl e
                              | Inr thumb \<Rightarrow>
                                  Inr (Some
                                    \<lparr>mac = dget d (py ''mac'') JNull,
                                     nickname = dget d (py ''nickname'') (dget d (py ''mac'') JNull),
                                     name_uri = uri,
                                     model = dget d (py ''product_model'') JNull,
                                     model_name =
                                       (case dget d (py ''product_model'') JNull of
                                          JStr m \<Rightarrow>
                                            (case map_of MODEL_NAMES m of
                                               None \<Rightarrow> JStr m | Some n \<Rightarrow> JStr n)
                                        | v \<Rightarrow> v),
                                     firmware_ver = dget d (py ''firmware_ver'') JNull,
                                     ip = ip_v,
                                     thumbnail = thumb,
                                     is_pan =
                                       (case dget d (py ''product_model'') JNull of
                                          JStr m \<Rightarrow> m \<in> set PAN_CAMS | _ \<Rightarrow> False),
                                     is_2k =
                                       (case dget d (py ''product_model'') JNull of
                                          JStr m \<Rightarrow> m \<in> set PRO_CAMS | _ \<Rightarrow> False),
                                     online =
                                       (dget d (py ''device_conn_state'') (JInt 0) = JInt 1
                                        \<or> dget d (py ''device_conn_state'') (JInt 0) = JBool True)\<rparr>)))))
      | _ \<Rightarrow> Inl AttributeError)"

fun camera_list :: "pylib \<Rightarrow> json list \<Rightarrow> error + camera list" where
  "camera_list L [] = Inr []"
| "camera_list L (dev # devs) =
     (case camera_of_device L dev of
        Inl e \<Rightarrow> Inl e
      | Inr None \<Rightarrow> camera_list L devs
      | Inr (Some cam) \<Rightarrow>
          (case camera_list L devs of
             Inl e \<Rightarrow> Inl e
           | Inr cams \<Rightarrow> Inr (cam # cams)))"

text \<open>\<open>now\<close> is the value of \<open>time.time()\<close> at the call.\<close>

definition fetch_cameras :: "pylib \<Rightarrow> world \<Rightarrow> real \<Rightarrow> world \<times> (error + camera list)" where
  "fetch_cameras L w now =
     (if \<not> truthy (creds w) then (w, Inr [])
      else if cameras w \<noteq> [] \<and> now - cameras_ts w < CACHE_TTL then (w, Inr (cameras w))
      else
        (case (case call_api w GetObjectListEP [] of
                 (w1, r) \<Rightarrow>
                   if r = Inl TokenRefreshed then call_api w1 GetObjectListEP [] else (w1, r)) of
           (w2, Inl e) \<Rightarrow> (w2, Inl e)
         | (w2, Inr data) \<Rightarrow>
             (case py_get data (py ''device_list'') (JArr []) of
                Inl e \<Rightarrow> (w2, Inl e)
              | Inr dl \<Rightarrow>
                  (case py_iter dl of
                     Inl e \<Rightarrow> (w2, Inl e)
                   | Inr devs \<Rightarrow>
                       (case camera_list L devs of
                          Inl e \<Rightarrow> (w2, Inl e)
                        | Inr cams \<Rightarrow> (w2\<lparr>cameras := cams, cameras_ts := now\<rparr>, Inr cams))))))"

subsection \<open>\<open>get_webrtc_signaling\<close>\<close>

text \<open>
  \<open>re.match(r'^(turns?:)(\d+)-(\d+)-(\d+)-(\d+)\.t-[^:]+(:.*)', urls)\<close>. Every part of the
  pattern can match in one way only: a run of digits ends where the separator stands,
  \<open>[^:]+\<close> ends at the first colon, and \<open>.*\<close> runs to the end of the line.
  \<open>digits_then\<close> is \<open>(\d+)\<close> followed by one literal character.
\<close>

definition digits_then :: "pylib \<Rightarrow> nat \<Rightarrow> pystr \<Rightarrow> (pystr \<times> pystr) option" where
  "digits_then L sep s =
     (case dropWhile (digit_char L) s of
        [] \<Rightarrow> None
      | c # r \<Rightarrow>
          if takeWhile (digit_char L) s \<noteq> [] \<and> c = sep
          then Some (takeWhile (digit_char L) s, r) else None)"

definition turn_scheme :: "pystr \<Rightarrow> (pystr \<times> pystr) option" where
  "turn_scheme s =
     (if startswith s (py ''turn:'') then Some (py ''turn:'', drop 5 s)
      else if startswith s (py ''turns:'') then Some (py ''turns:'', drop 6 s)
      else None)"

text \<open>The groups 1 to 6 of the match.\<close>

definition match_turn ::
  "pylib \<Rightarrow> pystr \<Rightarrow> (pystr \<times> pystr \<times> pystr \<times> pystr \<times> pystr \<times> pystr) option" where
  "match_turn L s =
     (case turn_scheme s of
        None \<Rightarrow> None
      | Some (g1, r0) \<Rightarrow>
     (case digits_then L 45 r0 of
        None \<Rightarrow> None
      | Some (g2, r1) \<Rightarrow>
     (case digits_then L 45 r1 of
        None \<Rightarrow> None
      | Some (g3, r2) \<Rightarrow>
     (case digits_then L 45 r2 of
        None \<Rightarrow> None
      | Some (g4, r3) \<Rightarrow>
     (case digits_then L 46 r3 of
        None \<Rightarrow> None
      | Some (g5, r4) \<Rightarrow>
          if startswith r4 (py ''t-'')
             \<and> takeWhile (\<lambda>c. c \<noteq> 58) (drop 2 r4) \<noteq> []
             \<and> dropWhile (\<lambda>c. c \<noteq> 58) (drop 2 r4) \<noteq> []
          then Some (g1, g2, g3, g4, g5,
                     takeWhile (\<lambda>c. c \<noteq> 10) (dropWhile (\<lambda>c. c \<noteq> 58) (drop 2 r4)))
          else None)))))"

text \<open>The rewritten URL of a match, and the loop body for one server.\<close>

definition rewrite_url :: "pylib \<Rightarrow> pystr \<Rightarrow> pystr" where
  "rewrite_url L u =
     (case match_turn L u of
        None \<Rightarrow> u
      | Some (g1, g2, g3, g4, g5, g6) \<Rightarrow> g1 @ g2 @ [46] @ g3 @ [46] @ g4 @ [46] @ g5 @ g6)"

definition normalize_server :: "pylib \<Rightarrow> json \<Rightarrow> error + json" where
  "normalize_server L s =
     (case s of
        JObj d \<Rightarrow>
          (let d1 = (case map_of d (py ''url'') of
                       Some u \<Rightarrow> dict_set (py ''urls'') u (dict_del (py ''url'') d)
                     | None \<Rightarrow> d)
           in case dget d1 (py ''urls'') (JStr []) of
                JStr u \<Rightarrow>
                  (case match_turn L u of
                     None \<Rightarrow> Inr (JObj d1)
                   | Some m \<Rightarrow> Inr (JObj (dict_set (py ''urls'') (JStr (rewrite_url L u)) d1)))
              | _ \<Rightarrow> Inl TypeError)
      | JStr t \<Rightarrow> Inl AttributeError
      | JArr xs \<Rightarrow> if JStr (py ''url'') \<in> set xs then Inl TypeError else Inl AttributeError
      | _ \<Rightarrow> Inl TypeError)"

fun normalize_servers :: "pylib \<Rightarrow> json list \<Rightarrow> error + json list" where
  "normalize_servers L [] = Inr []"
| "normalize_servers L (s # ss) =
     (case normalize_server L s of
        Inl e \<Rightarrow> Inl e
      | Inr s' \<Rightarrow>
          (case normalize_servers L ss of
             Inl e \<Rightarrow> Inl e
           | Inr ss' \<Rightarrow> Inr (s' # ss')))"

text \<open>What \<open>get_webrtc_signaling\<close> does with the validated data: the loop over the
  servers, which changes them in place, and the dictionary it returns.\<close>

definition signaling_result :: "pylib \<Rightarrow> json \<Rightarrow> json \<Rightarrow> error + json" where
  "signaling_result L cr data =
     (case py_get data (py ''results'') (JObj []) of
        Inl e \<Rightarrow> Inl e
      | Inr results \<Rightarrow>
     (case py_get results (py ''servers'') (JArr []) of
        Inl e \<Rightarrow> Inl e
      | Inr servers \<Rightarrow>
     (case py_iter servers of
        Inl e \<Rightarrow> Inl e
      | Inr ss \<Rightarrow>
     (case normalize_servers L ss of
        Inl e \<Rightarrow> Inl e
      | Inr ss' \<Rightarrow>
     (case subscript cr (py ''phone_id'') of
        Inl e \<Rightarrow> Inl e
      | Inr pid \<Rightarrow>
     (case subscript data (py ''results'') of
        Inl e \<Rightarrow> Inl e
      | Inr res \<Rightarrow>
     (case subscript res (py ''signalingUrl'') of
        Inl e \<Rightarrow> Inl e
      | Inr u \<Rightarrow>
     (case unquote L u of
        Inl e \<Rightarrow> Inl e
      | Inr u' \<Rightarrow>
     (case subscript res (py ''servers'') of
        Inl e \<Rightarrow> Inl e
      | Inr sv \<Rightarrow>
          Inr (JObj [(py ''ClientId'', pid), (py ''signalingUrl'', u'),
                     (py ''servers'', (case sv of JArr xs \<Rightarrow> JArr ss' | _ \<Rightarrow> sv))]))))))))))"

definition get_webrtc_signaling :: "pylib \<Rightarrow> world \<Rightarrow> json \<Rightarrow> world \<times> (error + json)" where
  "get_webrtc_signaling L w mac_v =
     (case (case call_signaling w mac_v of
              (w1, r) \<Rightarrow> if r = Inl TokenRefreshed then call_signaling w1 mac_v else (w1, r)) of
        (w2, Inl e) \<Rightarrow> (w2, Inl e)
      | (w2, Inr data) \<Rightarrow> (w2, signaling_result L (creds w2) data))"

section \<open>Routes\<close>

text \<open>
  What a view gives back: \<open>Jsonify v st\<close> is \<open>jsonify(v)\<close> with status \<open>st\<close>;
  \<open>Failure e extra\<close> is the status 500 answer of an \<open>except Exception as e\<close> block, the
  dictionary with \<open>"error": str(e)\<close> and the \<open>extra\<close> entries; \<open>Content b ct\<close> is
  \<open>Response(resp.content, content_type=ct)\<close>; \<open>Unhandled e\<close> is an exception that leaves
  the view.
\<close>

datatype response =
    Jsonify json nat
  | Failure error "(pystr \<times> json) list"
  | Content body pystr
  | Unhandled error

definition camera_json :: "camera \<Rightarrow> json" where
  "camera_json cam =
     JObj [(py ''mac'', mac cam), (py ''nickname'', nickname cam),
           (py ''name_uri'', JStr (name_uri cam)), (py ''model'', model cam),
           (py ''model_name'', model_name cam), (py ''firmware_ver'', firmware_ver cam),
           (py ''ip'', ip cam), (py ''thumbnail'', thumbnail cam),
           (py ''is_pan'', JBool (is_pan cam)), (py ''is_2k'', JBool (is_2k cam)),
           (py ''online'', JBool (online cam))]"

definition find_camera ::
  "pylib \<Rightarrow> world \<Rightarrow> real \<Rightarrow> pystr \<Rightarrow> world \<times> (error + camera option)" where
  "find_camera L w now uri =
     (case fetch_cameras L w now of
        (w1, Inl e) \<Rightarrow> (w1, Inl e)
      | (w1, Inr cams) \<Rightarrow> (w1, Inr (find (\<lambda>cam. name_uri cam = uri) cams)))"

definition api_cameras :: "pylib \<Rightarrow> world \<Rightarrow> real \<Rightarrow> world \<times> response" where
  "api_cameras L w now =
     (case fetch_cameras L w now of
        (w1, Inl e) \<Rightarrow> (w1, Unhandled e)
      | (w1, Inr cams) \<Rightarrow> (w1, Jsonify (JArr (map camera_json cams)) 200))"

definition api_camera_detail :: "pylib \<Rightarrow> world \<Rightarrow> real \<Rightarrow> pystr \<Rightarrow> world \<times> response" where
  "api_camera_detail L w now uri =
     (case find_camera L w now uri of
        (w1, Inl e) \<Rightarrow> (w1, Unhandled e)
      | (w1, Inr None) \<Rightarrow> (w1, Jsonify (JObj [(py ''error'', JStr (py ''Camera not found''))]) 404)
      | (w1, Inr (Some cam)) \<Rightarrow> (w1, Jsonify (camera_json cam) 200))"

definition api_camera_info :: "pylib \<Rightarrow> world \<Rightarrow> real \<Rightarrow> pystr \<Rightarrow> world \<times> response" where
  "api_camera_info L w now uri =
     (case find_camera L w now uri of
        (w1, Inl e) \<Rightarrow> (w1, Unhandled e)
      | (w1, Inr None) \<Rightarrow> (w1, Jsonify (JObj [(py ''error'', JStr (py ''Camera not found''))]) 404)
      | (w1, Inr (Some cam)) \<Rightarrow>
          (case get_device_info w1 (mac cam) (model cam) of
             (w2, Inl e) \<Rightarrow> (w2, Failure e [])
           | (w2, Inr info) \<Rightarrow> (w2, Jsonify info 200)))"

definition PROP_MAP :: "(pystr \<times> pystr) list" where
  "PROP_MAP =
     [(py ''status_light'', py ''P1''), (py ''night_vision'', py ''P2''),
      (py ''motion_detection'', py ''P13''), (py ''motion_tracking'', py ''P27'')]"

definition ACTIONS :: "(pystr \<times> pystr) list" where
  "ACTIONS =
     [(py ''power_on'', py ''power_on''), (py ''power_off'', py ''power_off''),
      (py ''turn_on'', py ''power_on''), (py ''turn_off'', py ''power_off''),
      (py ''restart'', py ''restart'')]"

text \<open>\<open>qvalue\<close> is the query parameter \<open>value\<close>, if the request has one.\<close>

definition api_camera_action ::
  "pylib \<Rightarrow> world \<Rightarrow> real \<Rightarrow> pystr \<Rightarrow> pystr \<Rightarrow> pystr option \<Rightarrow> world \<times> response" where
  "api_camera_action L w now uri action qvalue =
     (case find_camera L w now uri of
        (w1, Inl e) \<Rightarrow> (w1, Unhandled e)
      | (w1, Inr None) \<Rightarrow> (w1, Jsonify (JObj [(py ''error'', JStr (py ''Camera not found''))]) 404)
      | (w1, Inr (Some cam)) \<Rightarrow>
          (case map_of PROP_MAP action of
             Some pid \<Rightarrow>
               (case set_property L w1 (mac cam) (model cam) pid
                       (case qvalue of None \<Rightarrow> py ''1'' | Some v \<Rightarrow> v) of
                  (w2, Inl e) \<Rightarrow> (w2, Failure e [])
                | (w2, Inr result) \<Rightarrow>
                    (w2, Jsonify (JObj [(py ''status'', JStr (py ''success'')),
                                        (py ''result'', result)]) 200))
           | None \<Rightarrow>
               (case run_action w1 (mac cam) (model cam)
                       (JStr (case map_of ACTIONS action of None \<Rightarrow> action | Some a \<Rightarrow> a)) of
                  (w2, Inl e) \<Rightarrow> (w2, Failure e [])
                | (w2, Inr result) \<Rightarrow>
                    (w2, Jsonify (JObj [(py ''status'', JStr (py ''success'')),
                                        (py ''result'', result)]) 200))))"

definition api_refresh :: "pylib \<Rightarrow> world \<Rightarrow> real \<Rightarrow> world \<times> response" where
  "api_refresh L w now =
     (case fetch_cameras L (w\<lparr>cameras_ts := 0\<rparr>) now of
        (w1, Inl e) \<Rightarrow> (w1, Unhandled e)
      | (w1, Inr cams) \<Rightarrow> (w1, Jsonify (JArr (map camera_json cams)) 200))"

definition api_signaling :: "pylib \<Rightarrow> world \<Rightarrow> real \<Rightarrow> pystr \<Rightarrow> world \<times> response" where
  "api_signaling L w now uri =
     (case find_camera L w now uri of
        (w1, Inl e) \<Rightarrow> (w1, Unhandled e)
      | (w1, Inr None) \<Rightarrow>
          (w1, Jsonify (JObj [(py ''error'', JStr (py ''Camera not found'')),
                              (py ''result'', JStr (py ''error''))]) 404)
      | (w1, Inr (Some cam)) \<Rightarrow>
          (case get_webrtc_signaling L w1 (mac cam) of
             (w2, Inl e) \<Rightarrow>
               (w2, Failure e [(py ''result'', JStr (py ''error'')), (py ''cam'', JStr uri)])
           | (w2, Inr signal) \<Rightarrow>
               (case signal of
                  JObj d \<Rightarrow>
                    (w2, Jsonify (JObj (dict_set (py ''cam'') (JStr uri)
                                         (dict_set (py ''result'') (JStr (py ''ok'')) d))) 200)
                | _ \<Rightarrow> (w2, Failure TypeError
                               [(py ''result'', JStr (py ''error'')), (py ''cam'', JStr uri)]))))"

text \<open>
  One \<open>try\<close> block of \<open>api_thumbnail\<close>: the image if the signed URL answers with status
  200, nothing after any other status or any exception (which \<open>requests.get\<close> also
  raises, sending nothing, for a value that is no string).
\<close>

definition get_thumbnail :: "world \<Rightarrow> json \<Rightarrow> world \<times> response option" where
  "get_thumbnail w url =
     (case url of
        JStr u \<Rightarrow>
          (case send w \<lparr>endpoint = ThumbnailEP, access = JNull, args = [url]\<rparr> of
             (w1, Inl e) \<Rightarrow> (w1, None)
           | (w1, Inr (st, ct, b)) \<Rightarrow>
               if st = 200
               then (w1, Some (Content b (case ct of None \<Rightarrow> py ''image/jpeg'' | Some t \<Rightarrow> t)))
               else (w1, None))
      | _ \<Rightarrow> (w, None))"

text \<open>\<open>now\<close> and \<open>now'\<close> are the clock readings of the two calls of \<open>fetch_cameras\<close>.\<close>

definition api_thumbnail ::
  "pylib \<Rightarrow> world \<Rightarrow> real \<Rightarrow> real \<Rightarrow> pystr \<Rightarrow> world \<times> response" where
  "api_thumbnail L w now now' uri =
     (case find_camera L w now uri of
        (w1, Inl e) \<Rightarrow> (w1, Unhandled e)
      | (w1, Inr None) \<Rightarrow> (w1, Jsonify (JObj [(py ''error'', JStr (py ''No thumbnail''))]) 404)
      | (w1, Inr (Some cam)) \<Rightarrow>
          if \<not> truthy (thumbnail cam)
          then (w1, Jsonify (JObj [(py ''error'', JStr (py ''No thumbnail''))]) 404)
          else
            (case get_thumbnail w1 (thumbnail cam) of
               (w2, Some img) \<Rightarrow> (w2, img)
             | (w2, None) \<Rightarrow>
                 (case fetch_cameras L (w2\<lparr>cameras_ts := 0\<rparr>) now' of
                    (w3, Inl e) \<Rightarrow> (w3, Unhandled e)
                  | (w3, Inr cams) \<Rightarrow>
                      (case find (\<lambda>c. name_uri c = uri) cams of
                         None \<Rightarrow>
                           (w3, Jsonify (JObj [(py ''error'', JStr (py ''Thumbnail unavailable''))]) 404)
                       | Some cam' \<Rightarrow>
                           if \<not> truthy (thumbnail cam')
                           then (w3, Jsonify (JObj [(py ''error'',
                                                     JStr (py ''Thumbnail unavailable''))]) 404)
                           else
                             (case get_thumbnail w3 (thumbnail cam') of
                                (w4, Some img) \<Rightarrow> (w4, img)
                              | (w4, None) \<Rightarrow>
                                  (w4, Jsonify (JObj [(py ''error'',
                                                       JStr (py ''Thumbnail unavailable''))]) 404))))))"

section \<open>Start-up\<close>

text \<open>\<open>wyze_login\<close>; \<open>phone_id\<close> is the text of the fresh \<open>uuid.uuid4()\<close>.\<close>

definition wyze_login ::
  "pylib \<Rightarrow> world \<Rightarrow> pystr \<Rightarrow> pystr \<Rightarrow> pystr \<Rightarrow> pystr \<Rightarrow> pystr \<Rightarrow> world \<times> (error + json)" where
  "wyze_login L w email password api_key key_id phone_id =
     (case hash_password L password of
        Inl e \<Rightarrow> (w, Inl e)
      | Inr hashed \<Rightarrow>
          (case send w \<lparr>endpoint = LoginEP, access = JNull,
                        args = [JStr phone_id, JStr key_id, JStr api_key,
                                JStr (strip email), JStr hashed]\<rparr> of
             (w1, Inl e) \<Rightarrow> (w1, Inl e)
           | (w1, Inr resp) \<Rightarrow>
               (case validate w1 resp of
                  (w2, Inl e) \<Rightarrow> (w2, Inl e)
                | (w2, Inr data) \<Rightarrow>
                    (case data of
                       JObj d \<Rightarrow>
                         (save_tokens (w2\<lparr>creds := JObj (dict_set (py ''phone_id'') (JStr phone_id) d)\<rparr>),
                          Inr (JObj (dict_set (py ''phone_id'') (JStr phone_id) d)))
                     | _ \<Rightarrow> (w2, Inl TypeError)))))"

text \<open>
  The environment variables, and the main block from \<open>_load_tokens()\<close> to \<open>app.run\<close>:
  \<open>None\<close> when the server starts, the exception that ends the process otherwise.
\<close>

record environ =
  WYZE_EMAIL :: "pystr option"
  WYZE_PASSWORD :: "pystr option"
  API_KEY :: "pystr option"
  API_ID :: "pystr option"

definition env_set :: "pystr option \<Rightarrow> bool" where
  "env_set v = (case v of None \<Rightarrow> False | Some s \<Rightarrow> s \<noteq> [])"

definition env_val :: "pystr option \<Rightarrow> pystr" where
  "env_val v = (case v of None \<Rightarrow> [] | Some s \<Rightarrow> s)"

definition main ::
  "pylib \<Rightarrow> environ \<Rightarrow> pystr \<Rightarrow> real \<Rightarrow> real \<Rightarrow> world \<Rightarrow> world \<times> error option" where
  "main L env phone_id now now' w =
     (case load_tokens w of
        (w1, Inl e) \<Rightarrow> (w1, Some e)
      | (w1, Inr loaded) \<Rightarrow>
          (case (if loaded
                 then (case fetch_cameras L w1 now of
                         (w', Inl e) \<Rightarrow> w'\<lparr>creds := JNull\<rparr>
                       | (w', Inr cams) \<Rightarrow> w')
                 else w1) of
             w2 \<Rightarrow>
               if \<not> truthy (creds w2) then
                 if \<not> (env_set (WYZE_EMAIL env) \<and> env_set (WYZE_PASSWORD env)
                        \<and> env_set (API_KEY env) \<and> env_set (API_ID env))
                 then (w2, Some SystemExit)
                 else
                   (case wyze_login L w2 (env_val (WYZE_EMAIL env)) (env_val (WYZE_PASSWORD env))
                           (env_val (API_KEY env)) (env_val (API_ID env)) phone_id of
                      (w3, Inl e) \<Rightarrow> (w3, Some e)
                    | (w3, Inr d) \<Rightarrow>
                        (case fetch_cameras L w3 now' of
                           (w4, Inl e) \<Rightarrow> (w4, Some e)
                         | (w4, Inr cams) \<Rightarrow> (w4, None)))
               else (w2, None)))"

text \<open>
  The process at its start: the globals have their initial values, the token file is \<open>f\<close>
  and the vendor will give the replies \<open>rs\<close>.
\<close>

definition fresh_world :: "body option \<Rightarrow> reply list \<Rightarrow> world" where
  "fresh_world f rs =
     \<lparr>creds = JNull, cameras = [], cameras_ts = 0, token_file = f, vendor = rs, calls = []\<rparr>"

text \<open>
  The states of a running server: the state in which the main block reaches \<open>app.run\<close>,
  and the state after any request to a route that changes the state (\<open>/health\<close> changes
  nothing).
\<close>

inductive reachable :: "pylib \<Rightarrow> world \<Rightarrow> bool" for L :: pylib where
  started: "main L env phone_id now now' (fresh_world f rs) = (w, None) \<Longrightarrow> reachable L w"
| served_cameras: "reachable L w \<Longrightarrow> reachable L (fst (api_cameras L w now))"
| served_detail: "reachable L w \<Longrightarrow> reachable L (fst (api_camera_detail L w now uri))"
| served_info: "reachable L w \<Longrightarrow> reachable L (fst (api_camera_info L w now uri))"
| served_action: "reachable L w \<Longrightarrow> reachable L (fst (api_camera_action L w now uri action qvalue))"
| served_refresh: "reachable L w \<Longrightarrow> reachable L (fst (api_refresh L w now))"
| served_signaling: "reachable L w \<Longrightarrow> reachable L (fst (api_signaling L w now uri))"
| served_thumbnail: "reachable L w \<Longrightarrow> reachable L (fst (api_thumbnail L w now now' uri))"

section \<open>Vocabulary of the properties\<close>

text \<open>
  The reply codes as \<open>_validate\<close> classifies them: the token-expired sentinel, and the two
  success sentinels.
\<close>

definition expired :: "(pystr \<times> json) list \<Rightarrow> bool" where
  "expired b \<longleftrightarrow> py_str (response_code b) = Some (py ''2001'')"

definition success :: "(pystr \<times> json) list \<Rightarrow> bool" where
  "success b \<longleftrightarrow>
     py_str (response_code b) = Some (py ''1'') \<or> py_str (response_code b) = Some (py ''0'')"

text \<open>The next reply of the vendor is a dictionary with the token-expired code.\<close>

fun expired_next :: "reply list \<Rightarrow> bool" where
  "expired_next (Resp st ct (JsonText (JObj b)) # rs) = expired b"
| "expired_next _ = False"

text \<open>From \<open>w\<close> to \<open>w'\<close> nothing but refresh requests was sent, and the cache is the same.\<close>

definition refreshes_only :: "world \<Rightarrow> world \<Rightarrow> bool" where
  "refreshes_only w w' \<longleftrightarrow>
     (\<exists>rs. calls w' = calls w @ rs \<and> list_all (\<lambda>q. endpoint q = RefreshTokenEP) rs)
     \<and> cameras w' = cameras w \<and> cameras_ts w' = cameras_ts w"

text \<open>From \<open>w\<close> to \<open>w'\<close> the credential is the same, or it is a dictionary with the same keys
  in the same order whose values changed at most under \<open>access_token\<close> and
  \<open>refresh_token\<close>.\<close>

definition tokens_only :: "world \<Rightarrow> world \<Rightarrow> bool" where
  "tokens_only w w' \<longleftrightarrow>
     creds w' = creds w
     \<or> (\<exists>c c'. creds w = JObj c \<and> creds w' = JObj c' \<and> map fst c' = map fst c
            \<and> (\<forall>k. k \<noteq> py ''access_token'' \<and> k \<noteq> py ''refresh_token'' \<longrightarrow> map_of c' k = map_of c k))"

text \<open>A cache with entries belongs to a process that holds credentials.\<close>

definition cache_has_owner :: "world \<Rightarrow> bool" where
  "cache_has_owner w \<longleftrightarrow> cameras w = [] \<or> truthy (creds w)"

text \<open>The refresh request for an access token, a phone id and a refresh token.\<close>

definition refresh_request :: "json \<Rightarrow> json \<Rightarrow> json \<Rightarrow> request" where
  "refresh_request a p r = \<lparr>endpoint = RefreshTokenEP, access = a, args = [p, r]\<rparr>"

text \<open>
  The five authenticated vendor calls with their arguments, the request each one sends
  for an access token and a phone id, and the call itself, with the exception it raises
  if it raises one. The device listing is the call that \<open>fetch_cameras\<close> makes when it
  does not answer from the cache.
\<close>

datatype vendor_call =
    ListDevices real
  | RunAction json json json
  | SetProperty json json pystr pystr
  | GetDeviceInfo json json
  | Signaling json

fun request_for :: "pylib \<Rightarrow> vendor_call \<Rightarrow> json \<Rightarrow> json \<Rightarrow> request" where
  "request_for L (ListDevices now) tok p = \<lparr>endpoint = GetObjectListEP, access = tok, args = [p]\<rparr>"
| "request_for L (RunAction m mo act) tok p =
     \<lparr>endpoint = RunActionEP, access = tok, args = [p, act, m, mo]\<rparr>"
| "request_for L (SetProperty m mo pid pvalue) tok p =
     \<lparr>endpoint = SetPropertyEP, access = tok, args = [p, JStr (upper L pid), JStr pvalue, m, mo]\<rparr>"
| "request_for L (GetDeviceInfo m mo) tok p =
     \<lparr>endpoint = GetDeviceInfoEP, access = tok, args = [p, m, mo]\<rparr>"
| "request_for L (Signaling m) tok p = \<lparr>endpoint = SignalingEP, access = tok, args = [m]\<rparr>"

fun endpoint_of :: "vendor_call \<Rightarrow> endpoint" where
  "endpoint_of (ListDevices now) = GetObjectListEP"
| "endpoint_of (RunAction m mo act) = RunActionEP"
| "endpoint_of (SetProperty m mo pid pvalue) = SetPropertyEP"
| "endpoint_of (GetDeviceInfo m mo) = GetDeviceInfoEP"
| "endpoint_of (Signaling m) = SignalingEP"

definition raised :: "error + 'a \<Rightarrow> error option" where
  "raised r = (case r of Inl e \<Rightarrow> Some e | Inr v \<Rightarrow> None)"

fun perform :: "pylib \<Rightarrow> world \<Rightarrow> vendor_call \<Rightarrow> world \<times> error option" where
  "perform L w (ListDevices now) = (case fetch_cameras L w now of (w', r) \<Rightarrow> (w', raised r))"
| "perform L w (RunAction m mo act) = (case run_action w m mo act of (w', r) \<Rightarrow> (w', raised r))"
| "perform L w (SetProperty m mo pid pvalue) =
     (case set_property L w m mo pid pvalue of (w', r) \<Rightarrow> (w', raised r))"
| "perform L w (GetDeviceInfo m mo) = (case get_device_info w m mo of (w', r) \<Rightarrow> (w', raised r))"
| "perform L w (Signaling m) = (case get_webrtc_signaling L w m of (w', r) \<Rightarrow> (w', raised r))"

text \<open>What \<open>call_api\<close> and \<open>call_signaling\<close> have in common: a request, or the exception
  of building it, then the sending and \<open>_validate\<close>.\<close>

definition attempt :: "world \<Rightarrow> error + request \<Rightarrow> world \<times> (error + json)" where
  "attempt w q =
     (case q of
        Inl e \<Rightarrow> (w, Inl e)
      | Inr rq \<Rightarrow>
          (case send w rq of
             (w1, Inl e) \<Rightarrow> (w1, Inl e)
           | (w1, Inr resp) \<Rightarrow> validate w1 resp))"

text \<open>The request that a vendor call builds from the credentials of \<open>w\<close>.\<close>

fun build_request :: "pylib \<Rightarrow> world \<Rightarrow> vendor_call \<Rightarrow> error + request" where
  "build_request L w (Signaling m) =
     (case subscript (creds w) (py ''access_token'') of
        Inl e \<Rightarrow> Inl e
      | Inr tok \<Rightarrow> Inr (request_for L (Signaling m) tok JNull))"
| "build_request L w vc =
     (case payload w of
        Inl e \<Rightarrow> Inl e
      | Inr tp \<Rightarrow> Inr (request_for L vc (fst tp) (snd tp)))"

text \<open>The \<open>try\<close> block and its \<open>except TokenRefreshed\<close> block.\<close>

definition try_twice :: "pylib \<Rightarrow> world \<Rightarrow> vendor_call \<Rightarrow> world \<times> (error + json)" where
  "try_twice L w vc =
     (case attempt w (build_request L w vc) of
        (w1, r) \<Rightarrow>
          if r = Inl TokenRefreshed then attempt w1 (build_request L w1 vc) else (w1, r))"

text \<open>The cache of \<open>w\<close> cannot answer a listing at the time of the call.\<close>

fun cache_stale :: "world \<Rightarrow> vendor_call \<Rightarrow> bool" where
  "cache_stale w (ListDevices now) = (cameras w = [] \<or> CACHE_TTL \<le> now - cameras_ts w)"
| "cache_stale w _ = True"

text \<open>How often an endpoint occurs in a trace.\<close>

definition count_calls :: "endpoint \<Rightarrow> request list \<Rightarrow> nat" where
  "count_calls ep rs = length (filter (\<lambda>q. endpoint q = ep) rs)"

text \<open>The login request of \<open>wyze_login\<close>, and an environment that has the four variables
  the login needs.\<close>

definition login_request :: "pystr \<Rightarrow> pystr \<Rightarrow> pystr \<Rightarrow> pystr \<Rightarrow> pystr \<Rightarrow> request" where
  "login_request phone_id key_id api_key email hashed =
     \<lparr>endpoint = LoginEP, access = JNull,
      args = [JStr phone_id, JStr key_id, JStr api_key, JStr (strip email), JStr hashed]\<rparr>"

definition env_complete :: "environ \<Rightarrow> bool" where
  "env_complete env \<longleftrightarrow>
     env_set (WYZE_EMAIL env) \<and> env_set (WYZE_PASSWORD env) \<and> env_set (API_KEY env) \<and> env_set (API_ID env)"

section \<open>The slug as the specification words it\<close>

text \<open>
  The specification's account of the slug, step by step in its order: the name stripped of
  surrounding white space, spaces turned into hyphens, characters other than
  alphanumerics, hyphen, underscore and plus removed, non-ASCII characters removed, the
  result lower-cased.
\<close>

definition slug_spec :: "pylib \<Rightarrow> pystr \<Rightarrow> pystr" where
  "slug_spec L name =
     lower L (filter (\<lambda>c. c < 128)
       (filter (\<lambda>c. word_char L c \<or> c = 45 \<or> c = 43) (replace_spaces (strip name))))"

section \<open>Sample data\<close>

text \<open>
  A fragment of Python's library for concrete inputs. The character tables hold the
  entries of U+00E9, U+0130 and U+212A (both letters; the lower-case forms of the last
  two are \<open>i\<close> followed by U+0307, and \<open>k\<close>); \<open>unquote\<close> is the identity, as it is on strings
  without a percent sign; the digest is a stand-in that no example evaluates.
\<close>

definition sample_lib :: pylib where
  "sample_lib =
     \<lparr>isalnum = (\<lambda>c. c = 233 \<or> c = 304 \<or> c = 8490),
      isdecimal = (\<lambda>c. False),
      lowercase = (\<lambda>c. if c = 8490 then [107] else if c = 304 then [105, 775] else [c]),
      uppercase = (\<lambda>c. [c]),
      md5 = (\<lambda>bs. replicate 16 0),
      unquote = (\<lambda>v. case v of JStr u \<Rightarrow> Inr (JStr u) | _ \<Rightarrow> Inl TypeError)\<rparr>"

definition sample_creds :: json where
  "sample_creds =
     JObj [(py ''access_token'', JStr (py ''at0'')), (py ''refresh_token'', JStr (py ''rt0'')),
           (py ''phone_id'', JStr (py ''ph0''))]"

text \<open>A process that holds \<open>sample_creds\<close>, has an empty cache and will get the replies
  \<open>rs\<close>.\<close>

definition sample_world :: "reply list \<Rightarrow> world" where
  "sample_world rs =
     \<lparr>creds = sample_creds, cameras = [], cameras_ts = 0,
      token_file = Some (JsonText sample_creds), vendor = rs, calls = []\<rparr>"

text \<open>Replies of the vendor: success with a payload, the expired-token code, an error.\<close>

definition ok_reply :: "json \<Rightarrow> reply" where
  "ok_reply d = Resp 200 None (JsonText (JObj [(py ''code'', JStr (py ''1'')), (py ''data'', d)]))"

definition expired_reply :: reply where
  "expired_reply = Resp 200 None (JsonText (JObj [(py ''code'', JStr (py ''2001''))]))"

definition error_reply :: reply where
  "error_reply =
     Resp 200 None (JsonText (JObj [(py ''code'', JStr (py ''1001'')), (py ''msg'', JStr (py ''error''))]))"

text \<open>A device of the listing and the camera it is normalized to.\<close>

definition sample_device :: json where
  "sample_device =
     JObj [(py ''product_type'', JStr (py ''Camera'')), (py ''mac'', JStr (py ''AB:12'')),
           (py ''product_model'', JStr (py ''WYZEC1'')), (py ''nickname'', JStr (py ''Front Door!'')),
           (py ''device_conn_state'', JInt 1)]"

definition sample_camera :: camera where
  "sample_camera =
     \<lparr>mac = JStr (py ''AB:12''), nickname = JStr (py ''Front Door!''),
      name_uri = py ''front-door'', model = JStr (py ''WYZEC1''), model_name = JStr (py ''V1''),
      firmware_ver = JNull, ip = JNull, thumbnail = JNull,
      is_pan = False, is_2k = False, online = True\<rparr>"

text \<open>An environment with a pre-hashed password.\<close>

definition sample_env :: environ where
  "sample_env = \<lparr>WYZE_EMAIL = Some (py ''a@b.c''), WYZE_PASSWORD = Some (py ''hashed:abc''),
                 API_KEY = Some (py ''key''), API_ID = Some (py ''id'')\<rparr>"

text \<open>The data of a successful refresh reply.\<close>

definition new_tokens :: "string \<Rightarrow> string \<Rightarrow> json" where
  "new_tokens tok rtok =
     JObj [(py ''access_token'', JStr (py tok)), (py ''refresh_token'', JStr (py rtok))]"

text \<open>The state of a server that has logged in and listed the one sample camera.\<close>

definition served_world :: world where
  "served_world =
     \<lparr>creds = sample_creds, cameras = [sample_camera], cameras_ts = 1001,
      token_file = Some (JsonText sample_creds), vendor = [],
      calls = [login_request (py ''ph0'') (py ''id'') (py ''key'') (py ''a@b.c'') (py ''abc''),
               \<lparr>endpoint = GetObjectListEP, access = JStr (py ''at0''), args = [JStr (py ''ph0'')]\<rparr>]\<rparr>"

section \<open>Properties\<close>

subsection \<open>The library fragment\<close>

lemma sample_lib_simps:
  "isalnum sample_lib c = (c = 233 \<or> c = 304 \<or> c = 8490)"
  "isdecimal sample_lib c = False"
  "lowercase sample_lib c = (if c = 8490 then [107] else if c = 304 then [105, 775] else [c])"
  "uppercase sample_lib c = [c]"
  "unquote sample_lib (JStr u) = Inr (JStr u)"
  by (simp_all add: sample_lib_def)

subsection \<open>Password hashing\<close>

lemma hex_digit_ascii: "hex_digit d < 128" if "d < 16"
  using that by (simp add: hex_digit_def)

lemma hexdigest_ascii: "list_all (\<lambda>c. c < 128) (hexdigest L bs)"
  by (simp add: hexdigest_def list_all_iff hex_digit_ascii)

lemma md5_rounds_3:
  "md5_rounds L 3 s =
     (if list_all (\<lambda>c. c < 128) s then Inr (hexdigest L (hexdigest L (hexdigest L s)))
      else Inl UnicodeEncodeError)"
  by (simp add: numeral_3_eq_3 encode_ascii_def hexdigest_ascii)

lemma length_markers: "length (py ''hashed:'') = 7" "length (py ''md5:'') = 4"
  by (simp_all add: py_def)

lemma hashed_abc: "hash_password L (py ''hashed:abc'') = Inr (py ''abc'')"
  by (simp add: hash_password_def py_def strip_def isspace_def startswith_def lower_def
      lower_char_def)

text \<open>
  C8 (as amended). \<open>_hash_password\<close> is a function of its input. The input is stripped of
  surrounding white space; if its lower-cased form starts with the marker \<open>hashed:\<close> or
  \<open>md5:\<close>, what follows the marker is returned verbatim (\<open>"hashed:abc"\<close> gives \<open>"abc"\<close>);
  otherwise, if the stripped input is ASCII, the result is the hexadecimal digest of the
  digest of the digest of it, exactly three rounds; a stripped raw input with a non-ASCII
  character raises the encoding error and no digest is computed.
\<close>

theorem hash_password_rounds:
  "hash_password L p =
     (if startswith (lower L (strip p)) (py ''hashed:'') then Inr (drop 7 (strip p))
      else if startswith (lower L (strip p)) (py ''md5:'') then Inr (drop 4 (strip p))
      else if list_all (\<lambda>c. c < 128) (strip p)
        then Inr (hexdigest L (hexdigest L (hexdigest L (strip p))))
      else Inl UnicodeEncodeError)
   \<and> hash_password L (py ''hashed:abc'') = Inr (py ''abc'')"
proof
  show "hash_password L p =
     (if startswith (lower L (strip p)) (py ''hashed:'') then Inr (drop 7 (strip p))
      else if startswith (lower L (strip p)) (py ''md5:'') then Inr (drop 4 (strip p))
      else if list_all (\<lambda>c. c < 128) (strip p)
        then Inr (hexdigest L (hexdigest L (hexdigest L (strip p))))
      else Inl UnicodeEncodeError)"
    by (simp add: hash_password_def Let_def md5_rounds_3 length_markers)
  show "hash_password L (py ''hashed:abc'') = Inr (py ''abc'')"
    by (rule hashed_abc)
qed

text \<open>A raw ASCII password, \<open>" pw "\<close>: three rounds over the stripped text.\<close>

theorem hash_password_rounds_witness:
  "hash_password sample_lib (py '' pw '')
     = Inr (hexdigest sample_lib (hexdigest sample_lib (hexdigest sample_lib (py ''pw''))))"
proof -
  have s: "strip (py '' pw '') = py ''pw''"
    by (simp add: py_def strip_def isspace_def)
  have "\<not> startswith (lower sample_lib (py ''pw'')) (py ''hashed:'')"
       "\<not> startswith (lower sample_lib (py ''pw'')) (py ''md5:'')"
       "list_all (\<lambda>c. c < 128) (py ''pw'')"
    by (simp_all add: py_def startswith_def lower_def lower_char_def)
  with s show ?thesis
    using hash_password_rounds [of sample_lib "py '' pw ''"] by simp
qed

text \<open>The raw one-letter password U+00E9: no digest round is applied, the call raises.\<close>

theorem hash_password_non_ascii_counterexample:
  "hash_password sample_lib [233] = Inl UnicodeEncodeError
   \<and> hash_password sample_lib [233]
       \<noteq> Inr (hexdigest sample_lib (hexdigest sample_lib (hexdigest sample_lib [233])))"
  by (simp add: hash_password_def py_def strip_def isspace_def startswith_def lower_def
      lower_char_def sample_lib_simps md5_rounds_3)

subsection \<open>Slugs\<close>

lemma lower_char_ascii: "c < 128 \<Longrightarrow> \<exists>c'. lower_char L c = [c'] \<and> c' < 128"
  by (simp add: lower_char_def)

lemma ascii_of_lower:
  "list_all (\<lambda>c. c < 128 \<or> list_all (\<lambda>x. 128 \<le> x) (lowercase L c)) t \<Longrightarrow>
   encode_ascii_ignore (lower L t) = lower L (filter (\<lambda>c. c < 128) t)"
proof (induction t)
  case Nil
  then show ?case by (simp add: encode_ascii_ignore_def lower_def)
next
  case (Cons c t)
  then have IH: "encode_ascii_ignore (lower L t) = lower L (filter (\<lambda>c. c < 128) t)"
    by simp
  show ?case
  proof (cases "c < 128")
    case True
    then obtain c' where "lower_char L c = [c']" "c' < 128"
      using lower_char_ascii by blast
    with True IH show ?thesis
      by (simp add: encode_ascii_ignore_def lower_def)
  next
    case False
    with Cons.prems have "list_all (\<lambda>x. 128 \<le> x) (lowercase L c)" by simp
    then have "filter (\<lambda>x. x < 128) (lowercase L c) = []"
      by (auto simp: list_all_iff filter_empty_conv)
    with False IH show ?thesis
      by (simp add: encode_ascii_ignore_def lower_def lower_char_def)
  qed
qed

lemma set_strip: "set (strip s) \<subseteq> set s"
proof -
  have "set (strip s) \<subseteq> set (dropWhile isspace s)"
    unfolding strip_def using set_dropWhileD[of _ isspace "rev (dropWhile isspace s)"] by auto
  also have "\<dots> \<subseteq> set s" using set_dropWhileD by fastforce
  finally show ?thesis .
qed

lemma kept_chars:
  assumes "list_all (\<lambda>c. c < 128 \<or> \<not> isalnum L c \<or> list_all (\<lambda>x. 128 \<le> x) (lowercase L c)) s"
  shows "list_all (\<lambda>c. c < 128 \<or> list_all (\<lambda>x. 128 \<le> x) (lowercase L c))
           (sub_non_word L (replace_spaces (strip s)))"
proof -
  have "c < 128 \<or> list_all (\<lambda>x. 128 \<le> x) (lowercase L c)"
    if "c \<in> set (sub_non_word L (replace_spaces (strip s)))" for c
  proof (cases "c < 128")
    case True then show ?thesis by simp
  next
    case False
    from that have w: "word_char L c" and m: "c \<in> set (replace_spaces (strip s))"
      using False by (auto simp: sub_non_word_def)
    from m False have "c \<in> set (strip s)" by (auto simp: replace_spaces_def split: if_splits)
    then have "c \<in> set s" using set_strip by blast
    moreover from w False have "isalnum L c" by (simp add: word_char_def)
    ultimately show ?thesis using assms False by (auto simp: list_all_iff)
  qed
  then show ?thesis by (simp add: list_all_iff)
qed

lemma name_uri_of_slug:
  assumes "(if truthy nick then nick else m) = JStr s"
    and "list_all (\<lambda>c. c < 128 \<or> \<not> isalnum L c \<or> list_all (\<lambda>x. 128 \<le> x) (lowercase L c)) s"
  shows "name_uri_of L nick m = Inr (slug_spec L s)"
proof -
  have "name_uri_of L nick m
          = Inr (encode_ascii_ignore (lower L (sub_non_word L (replace_spaces (strip s)))))"
    using assms(1) by (simp add: name_uri_of_def Let_def)
  also have "encode_ascii_ignore (lower L (sub_non_word L (replace_spaces (strip s))))
          = lower L (filter (\<lambda>c. c < 128) (sub_non_word L (replace_spaces (strip s))))"
    using kept_chars[OF assms(2)] by (rule ascii_of_lower)
  also have "sub_non_word L (replace_spaces (strip s))
          = filter (\<lambda>c. word_char L c \<or> c = 45 \<or> c = 43) (replace_spaces (strip s))"
    by (auto simp: sub_non_word_def intro: filter_cong)
  finally show ?thesis by (simp add: slug_spec_def)
qed

lemma front_door:
  "name_uri_of L (JStr (py ''Front Door!'')) (JStr (py ''AB:12'')) = Inr (py ''front-door'')"
  by (simp add: name_uri_of_def py_def strip_def isspace_def replace_spaces_def
      sub_non_word_def word_char_def lower_def lower_char_def encode_ascii_ignore_def)

text \<open>
  C7 (as amended). \<open>_name_uri\<close> is a function of the display name, or of the MAC address
  when the name is absent or empty. For every name in which no alphanumeric non-ASCII
  character has a lower-case form with ASCII characters in it (every ASCII name, for one),
  the result is the specification's slug: the name stripped of surrounding white space,
  spaces turned into hyphens, characters other than alphanumerics, hyphen, underscore and
  plus removed, non-ASCII characters removed, the result lower-cased. The slug of
  \<open>"Front Door!"\<close> is \<open>"front-door"\<close>. (The code lower-cases before it drops the non-ASCII
  characters, so the ASCII part of a lower-case form stays.)
\<close>

theorem name_uri_is_slug:
  "((if truthy nick then nick else m) = JStr s
      \<and> list_all (\<lambda>c. c < 128 \<or> \<not> isalnum L c \<or> list_all (\<lambda>x. 128 \<le> x) (lowercase L c)) s
     \<longrightarrow> name_uri_of L nick m = Inr (slug_spec L s))
   \<and> name_uri_of L (JStr (py ''Front Door!'')) (JStr (py ''AB:12'')) = Inr (py ''front-door'')"
  using name_uri_of_slug [of nick m s L] front_door [of L] by blast

text \<open>A device with no display name and the MAC address \<open>"AB:12"\<close>, and the name
  \<open>Caf\<close>, U+00E9, space, \<open>2\<close> with its non-ASCII letter.\<close>

theorem name_uri_is_slug_witness:
  "name_uri_of sample_lib JNull (JStr (py ''AB:12'')) = Inr (slug_spec sample_lib (py ''AB:12''))
   \<and> slug_spec sample_lib (py ''AB:12'') = py ''ab12''
   \<and> name_uri_of sample_lib (JStr [67, 97, 102, 233, 32, 50]) JNull
       = Inr (slug_spec sample_lib [67, 97, 102, 233, 32, 50])
   \<and> slug_spec sample_lib [67, 97, 102, 233, 32, 50] = py ''caf-2''"
proof -
  have "name_uri_of sample_lib JNull (JStr (py ''AB:12'')) = Inr (slug_spec sample_lib (py ''AB:12''))"
    using name_uri_is_slug [of JNull "JStr (py ''AB:12'')" "py ''AB:12''" sample_lib]
    by (simp add: py_def)
  moreover have "slug_spec sample_lib (py ''AB:12'') = py ''ab12''"
    by (simp add: slug_spec_def py_def strip_def isspace_def replace_spaces_def word_char_def
        lower_def lower_char_def)
  moreover have "name_uri_of sample_lib (JStr [67, 97, 102, 233, 32, 50]) JNull
       = Inr (slug_spec sample_lib [67, 97, 102, 233, 32, 50])"
    using name_uri_is_slug [of "JStr [67, 97, 102, 233, 32, 50]" JNull "[67, 97, 102, 233, 32, 50]"
        sample_lib]
    by (simp add: sample_lib_simps)
  moreover have "slug_spec sample_lib [67, 97, 102, 233, 32, 50] = py ''caf-2''"
    by (simp add: slug_spec_def py_def strip_def isspace_def replace_spaces_def word_char_def
        lower_def lower_char_def sample_lib_simps)
  ultimately show ?thesis by blast
qed

text \<open>The name U+212A (the Kelvin sign, a non-ASCII letter whose lower-case form is
  \<open>k\<close>): it is not removed, the slug is \<open>"k"\<close>, where the specification's steps give the
  empty slug.\<close>

theorem name_uri_kelvin_counterexample:
  "name_uri_of sample_lib (JStr [8490]) (JStr (py ''AB:12'')) = Inr (py ''k'')
   \<and> slug_spec sample_lib [8490] = []"
  by (simp add: name_uri_of_def slug_spec_def py_def strip_def isspace_def replace_spaces_def
      sub_non_word_def word_char_def lower_def lower_char_def encode_ascii_ignore_def
      sample_lib_simps)

subsection \<open>Replies, refresh and the cache\<close>

lemma py_eq [simp]: "(py a = py b) = (a = b)"
  by (simp add: py_def inj_of_char)

lemma py_eq_Nil [simp]: "(py a = []) = (a = [])" "([] = py a) = (a = [])"
  by (auto simp: py_def)

lemma expired_not_success: "expired b \<Longrightarrow> \<not> success b"
  by (auto simp: expired_def success_def)

lemma refreshes_only_refl [simp]: "refreshes_only w w"
  by (simp add: refreshes_only_def)

lemma refreshes_only_trans: "refreshes_only w w1 \<Longrightarrow> refreshes_only w1 w2 \<Longrightarrow> refreshes_only w w2"
  by (auto simp: refreshes_only_def)

lemma send_cases:
  assumes "send w rq = (w1, r)"
  shows "calls w1 = calls w @ [rq] \<and> cameras w1 = cameras w \<and> cameras_ts w1 = cameras_ts w
         \<and> creds w1 = creds w \<and> token_file w1 = token_file w \<and> vendor w1 = tl (vendor w)"
  using assms by (auto simp: send_def split: list.splits reply.splits)

lemma send_refresh_only:
  "send w rq = (w1, r) \<Longrightarrow> endpoint rq = RefreshTokenEP \<Longrightarrow> refreshes_only w w1"
  by (drule send_cases) (simp add: refreshes_only_def)

lemma validate_notjson: "validate w (s, t, NotJson x) = (w, Inl JSONDecodeError)"
  by (simp add: validate.simps)

lemma validate_expired:
  "expired b \<Longrightarrow> validate w (s, t, JsonText (JObj b)) =
     (case refresh_token w of (w', Inl e) \<Rightarrow> (w', Inl e) | (w', Inr u) \<Rightarrow> (w', Inl TokenRefreshed))"
  by (subst validate.simps) (simp add: expired_def)

lemma validate_not_expired:
  "\<not> expired b \<Longrightarrow> validate w (s, t, JsonText (JObj b)) =
     (w, if success b then Inr (dget b (py ''data'') (JObj b))
         else Inl (WyzeApiError (response_code b) (response_msg b)))"
  by (subst validate.simps) (auto simp: expired_def success_def dget_def)

lemma validate_non_dict:
  "(\<And>b. data \<noteq> JObj b) \<Longrightarrow> validate w (s, t, JsonText data) = (w, Inl AttributeError)"
  by (subst validate.simps) (cases data; fastforce)

lemma validate_refresh_frame:
  "(\<forall>w' r. validate w resp = (w', r) \<longrightarrow> refreshes_only w w')"
  "(\<forall>w' r. refresh_token w = (w', r) \<longrightarrow> refreshes_only w w')"
proof (induction w resp and w rule: validate_refresh_token.induct)
  case (1 w resp)
  show ?case
  proof (intro allI impI)
    fix w' r assume v: "validate w resp = (w', r)"
    obtain s t bd where resp: "resp = (s, t, bd)" by (cases resp)
    show "refreshes_only w w'"
    proof (cases bd)
      case (NotJson x)
      with v resp show ?thesis by (simp add: validate_notjson)
    next
      case (JsonText data)
      show ?thesis
      proof (cases "\<exists>b. data = JObj b")
        case False
        then have "validate w (s, t, JsonText data) = (w, Inl AttributeError)"
          by (intro validate_non_dict) blast
        with v resp JsonText show ?thesis by simp
      next
        case True
        then obtain b where b: "data = JObj b" by blast
        show ?thesis
        proof (cases "expired b")
          case False
          with v resp JsonText b show ?thesis by (simp add: validate_not_expired)
        next
          case True
          have "\<forall>w' r. refresh_token w = (w', r) \<longrightarrow> refreshes_only w w'"
            using "1.IH"[of data b] resp JsonText b True by (simp add: expired_def)
          moreover obtain w'' r'' where rt: "refresh_token w = (w'', r'')" by (cases "refresh_token w")
          ultimately have "refreshes_only w w''" by blast
          moreover have "w' = w''"
            using v resp JsonText b True rt by (auto simp: validate_expired split: sum.splits)
          ultimately show ?thesis by simp
        qed
      qed
    qed
  qed
next
  case (2 w)
  show ?case
  proof (intro allI impI)
    fix w' r assume rt: "refresh_token w = (w', r)"
    show "refreshes_only w w'"
    proof (cases "payload w")
      case (Inl e)
      with rt show ?thesis by (subst (asm) refresh_token.simps) simp
    next
      case (Inr tp)
      show ?thesis
      proof (cases "subscript (creds w) (py ''refresh_token'')")
        case (Inl e)
        with rt Inr show ?thesis by (subst (asm) refresh_token.simps) simp
      next
        case rtk: (Inr rtv)
        obtain w1 y where snd: "send w \<lparr>endpoint = RefreshTokenEP, access = fst tp, args = [snd tp, rtv]\<rparr> = (w1, y)"
          by (cases "send w \<lparr>endpoint = RefreshTokenEP, access = fst tp, args = [snd tp, rtv]\<rparr>")
        then have f1: "refreshes_only w w1" by (rule send_refresh_only) simp
        show ?thesis
        proof (cases y)
          case (Inl e)
          with rt Inr rtk snd f1 show ?thesis by (subst (asm) refresh_token.simps) simp
        next
          case yr: (Inr resp)
          obtain w2 r2 where v: "validate w1 resp = (w2, r2)" by (cases "validate w1 resp")
          have "\<forall>w' r. validate w1 resp = (w', r) \<longrightarrow> refreshes_only w1 w'"
            using "2.IH"[OF Inr rtk snd[symmetric] yr] .
          with v have f2: "refreshes_only w1 w2" by blast
          have f3: "refreshes_only w2 w'"
            using rt Inr rtk snd yr v
            by (subst (asm) refresh_token.simps)
               (auto simp: refreshes_only_def save_tokens_def Let_def
                     split: sum.splits json.splits option.splits)
          from f1 f2 f3 show ?thesis by (blast intro: refreshes_only_trans)
        qed
      qed
    qed
  qed
qed


lemma validate_frame: "validate w resp = (w', r) \<Longrightarrow> refreshes_only w w'"
  using validate_refresh_frame(1) by blast

lemma refresh_token_frame: "refresh_token w = (w', r) \<Longrightarrow> refreshes_only w w'"
  using validate_refresh_frame(2) by blast

lemma validate_Inr:
  assumes "validate w resp = (w', Inr data)"
  shows "w' = w \<and> (\<exists>b. snd (snd resp) = JsonText (JObj b) \<and> success b
                        \<and> data = dget b (py ''data'') (JObj b))"
proof -
  obtain s t bd where resp: "resp = (s, t, bd)" by (cases resp)
  show ?thesis
  proof (cases bd)
    case (NotJson x)
    with assms resp show ?thesis by (simp add: validate_notjson)
  next
    case (JsonText d)
    show ?thesis
    proof (cases "\<exists>b. d = JObj b")
      case False
      then have "validate w (s, t, JsonText d) = (w, Inl AttributeError)"
        by (intro validate_non_dict) blast
      with assms resp JsonText show ?thesis by simp
    next
      case True
      then obtain b where b: "d = JObj b" by blast
      show ?thesis
      proof (cases "expired b")
        case True
        with assms resp JsonText b show ?thesis
          by (auto simp: validate_expired split: prod.splits sum.splits)
      next
        case False
        with assms resp JsonText b show ?thesis
          by (auto simp: validate_not_expired split: if_splits)
      qed
    qed
  qed
qed

lemma map_of_dict_set:
  "map_of (dict_set k v d) k' = (if k' = k then Some v else map_of d k')"
  by (induction d) auto

lemma keys_dict_set:
  "map_of d k = Some v0 \<Longrightarrow> map fst (dict_set k v d) = map fst d"
  by (induction d) (auto split: if_splits)

lemma refresh_token_Inr:
  assumes "refresh_token w = (w', Inr u)"
  shows "\<exists>c a r p st ct b rest d.
           creds w = JObj c
         \<and> map_of c (py ''access_token'') = Some a
         \<and> map_of c (py ''refresh_token'') = Some r
         \<and> map_of c (py ''phone_id'') = Some p
         \<and> vendor w = Resp st ct (JsonText (JObj b)) # rest \<and> success b
         \<and> dget b (py ''data'') (JObj b) = JObj d
         \<and> w' = w\<lparr>creds := JObj (dict_set (py ''refresh_token'') (dget d (py ''refresh_token'') r)
                               (dict_set (py ''access_token'') (dget d (py ''access_token'') a) c)),
                  token_file := Some (JsonText (JObj (dict_set (py ''refresh_token'') (dget d (py ''refresh_token'') r)
                               (dict_set (py ''access_token'') (dget d (py ''access_token'') a) c)))),
                  vendor := rest,
                  calls := calls w @ [refresh_request a p r]\<rparr>"
proof -
  from assms obtain tp where tp: "payload w = Inr tp"
    by (subst (asm) refresh_token.simps) (auto split: sum.splits)
  from assms tp obtain rt where rt: "subscript (creds w) (py ''refresh_token'') = Inr rt"
    by (subst (asm) refresh_token.simps) (auto split: sum.splits)
  from rt obtain c where c: "creds w = JObj c" and cr: "map_of c (py ''refresh_token'') = Some rt"
    by (cases "creds w") (auto split: option.splits)
  from tp c obtain a p where ca: "map_of c (py ''access_token'') = Some a"
      and cp: "map_of c (py ''phone_id'') = Some p" and tpe: "tp = (a, p)"
    by (auto simp: payload_def split: option.splits sum.splits)
  obtain w1 y where sn: "send w (refresh_request a p rt) = (w1, y)"
    by (cases "send w (refresh_request a p rt)")
  from assms tp rt tpe sn obtain resp where y: "y = Inr resp"
    by (subst (asm) refresh_token.simps) (auto simp: refresh_request_def split: sum.splits)
  obtain w2 r2 where v: "validate w1 resp = (w2, r2)" by (cases "validate w1 resp")
  from assms tp rt tpe sn y v obtain data where r2: "r2 = Inr data"
    by (subst (asm) refresh_token.simps) (auto simp: refresh_request_def split: sum.splits)
  from validate_Inr[OF v[unfolded r2]] obtain b where w2: "w2 = w1"
      and rb: "snd (snd resp) = JsonText (JObj b)" and sb: "success b"
      and data: "data = dget b (py ''data'') (JObj b)" by blast
  from sn y rb obtain st ct rest where vw: "vendor w = Resp st ct (JsonText (JObj b)) # rest"
      and w1: "w1 = w\<lparr>vendor := rest, calls := calls w @ [refresh_request a p rt]\<rparr>"
    by (auto simp: send_def split: list.splits reply.splits)
  from assms tp rt tpe sn y v r2 obtain d where d: "data = JObj d"
    by (subst (asm) refresh_token.simps)
       (auto simp: refresh_request_def split: sum.splits json.splits)
  have "w' = w\<lparr>creds := JObj (dict_set (py ''refresh_token'') (dget d (py ''refresh_token'') rt)
                               (dict_set (py ''access_token'') (dget d (py ''access_token'') a) c)),
                  token_file := Some (JsonText (JObj (dict_set (py ''refresh_token'') (dget d (py ''refresh_token'') rt)
                               (dict_set (py ''access_token'') (dget d (py ''access_token'') a) c)))),
                  vendor := rest,
                  calls := calls w @ [refresh_request a p rt]\<rparr>"
    using assms tp rt tpe sn y v r2 d w2 w1 c ca cr
    by (subst (asm) refresh_token.simps)
       (auto simp: refresh_request_def Let_def map_of_dict_set save_tokens_def dget_def)
  with c ca cr cp vw sb data d show ?thesis by (metis (no_types))
qed


lemma success_not_expired: "success b \<Longrightarrow> \<not> expired b"
  by (auto simp: expired_def success_def)

lemma refresh_token_ok:
  assumes "creds w = JObj c"
    and "map_of c (py ''access_token'') = Some a"
    and "map_of c (py ''refresh_token'') = Some r"
    and "map_of c (py ''phone_id'') = Some p"
    and "vendor w = Resp st ct (JsonText (JObj b)) # rest"
    and "success b"
    and "dget b (py ''data'') (JObj b) = JObj d"
  shows "refresh_token w =
           (w\<lparr>creds := JObj (dict_set (py ''refresh_token'') (dget d (py ''refresh_token'') r)
                               (dict_set (py ''access_token'') (dget d (py ''access_token'') a) c)),
              token_file := Some (JsonText (JObj (dict_set (py ''refresh_token'') (dget d (py ''refresh_token'') r)
                               (dict_set (py ''access_token'') (dget d (py ''access_token'') a) c)))),
              vendor := rest,
              calls := calls w @ [refresh_request a p r]\<rparr>, Inr ())"
  using assms
  by (subst refresh_token.simps)
     (simp add: payload_def send_def validate_not_expired success_not_expired Let_def
        map_of_dict_set save_tokens_def refresh_request_def dget_def)

lemma refresh_token_success_fields:
  assumes "refresh_token w = (w', Inr u)"
  shows "\<exists>c c' a r st ct b rest d.
           creds w = JObj c \<and> creds w' = JObj c'
         \<and> vendor w = Resp st ct (JsonText (JObj b)) # rest
         \<and> dget b (py ''data'') (JObj b) = JObj d
         \<and> map_of c (py ''access_token'') = Some a
         \<and> map_of c (py ''refresh_token'') = Some r
         \<and> map_of c' (py ''access_token'')
              = Some (case map_of d (py ''access_token'') of None \<Rightarrow> a | Some v \<Rightarrow> v)
         \<and> map_of c' (py ''refresh_token'')
              = Some (case map_of d (py ''refresh_token'') of None \<Rightarrow> r | Some v \<Rightarrow> v)
         \<and> (\<forall>k. k \<noteq> py ''access_token'' \<and> k \<noteq> py ''refresh_token'' \<longrightarrow> map_of c' k = map_of c k)
         \<and> map fst c' = map fst c
         \<and> token_file w' = Some (JsonText (creds w'))
         \<and> cameras w' = cameras w \<and> cameras_ts w' = cameras_ts w"
proof -
  from refresh_token_Inr[OF assms] obtain c a r p st ct b rest d where
    c: "creds w = JObj c" and a: "map_of c (py ''access_token'') = Some a"
    and r: "map_of c (py ''refresh_token'') = Some r"
    and v: "vendor w = Resp st ct (JsonText (JObj b)) # rest"
    and d: "dget b (py ''data'') (JObj b) = JObj d"
    and w': "w' = w\<lparr>creds := JObj (dict_set (py ''refresh_token'') (dget d (py ''refresh_token'') r)
                               (dict_set (py ''access_token'') (dget d (py ''access_token'') a) c)),
                  token_file := Some (JsonText (JObj (dict_set (py ''refresh_token'') (dget d (py ''refresh_token'') r)
                               (dict_set (py ''access_token'') (dget d (py ''access_token'') a) c)))),
                  vendor := rest,
                  calls := calls w @ [refresh_request a p r]\<rparr>"
    by blast
  define c' where "c' = dict_set (py ''refresh_token'') (dget d (py ''refresh_token'') r)
                               (dict_set (py ''access_token'') (dget d (py ''access_token'') a) c)"
  have k: "map fst c' = map fst c"
    using a r by (simp add: c'_def keys_dict_set map_of_dict_set)
  have "creds w' = JObj c'" "token_file w' = Some (JsonText (creds w'))"
       "cameras w' = cameras w" "cameras_ts w' = cameras_ts w"
    by (simp_all add: w' c'_def)
  moreover have "map_of c' (py ''access_token'')
              = Some (case map_of d (py ''access_token'') of None \<Rightarrow> a | Some v \<Rightarrow> v)"
       "map_of c' (py ''refresh_token'')
              = Some (case map_of d (py ''refresh_token'') of None \<Rightarrow> r | Some v \<Rightarrow> v)"
       "\<forall>k. k \<noteq> py ''access_token'' \<and> k \<noteq> py ''refresh_token'' \<longrightarrow> map_of c' k = map_of c k"
    by (simp_all add: c'_def map_of_dict_set dget_def)
  ultimately show ?thesis using c a r v d k by blast
qed

lemma call_api_shape:
  assumes "call_api w ep xs = (w', r)"
  shows "cameras w' = cameras w \<and> cameras_ts w' = cameras_ts w \<and>
     (case payload w of
        Inl e \<Rightarrow> w' = w \<and> r = Inl e
      | Inr tp \<Rightarrow>
          (\<exists>rs. calls w' = calls w @ \<lparr>endpoint = ep, access = fst tp, args = snd tp # xs\<rparr> # rs
              \<and> list_all (\<lambda>q. endpoint q = RefreshTokenEP) rs))"
proof (cases "payload w")
  case (Inl e)
  with assms show ?thesis by (simp add: call_api_def)
next
  case (Inr tp)
  obtain w1 y where sn: "send w \<lparr>endpoint = ep, access = fst tp, args = snd tp # xs\<rparr> = (w1, y)"
    by (cases "send w \<lparr>endpoint = ep, access = fst tp, args = snd tp # xs\<rparr>")
  note s1 = send_cases[OF sn]
  show ?thesis
  proof (cases y)
    case (Inl e)
    with assms Inr sn s1 show ?thesis by (auto simp: call_api_def)
  next
    case yr: (Inr resp)
    with assms Inr sn have "validate w1 resp = (w', r)" by (simp add: call_api_def)
    then have "refreshes_only w1 w'" by (rule validate_frame)
    with s1 Inr show ?thesis by (auto simp: refreshes_only_def)
  qed
qed

lemma call_api_cache:
  "call_api w ep xs = (w', r) \<Longrightarrow> cameras w' = cameras w \<and> cameras_ts w' = cameras_ts w"
  using call_api_shape by blast

lemma fetch_cameras_failure:
  assumes "fetch_cameras L w now = (w', Inl e)"
  shows "cameras w' = cameras w \<and> cameras_ts w' = cameras_ts w"
proof -
  obtain w1 r1 where a1: "call_api w GetObjectListEP [] = (w1, r1)"
    by (cases "call_api w GetObjectListEP []")
  obtain w2 r2 where a2: "call_api w1 GetObjectListEP [] = (w2, r2)"
    by (cases "call_api w1 GetObjectListEP []")
  note c1 = call_api_cache[OF a1] and c2 = call_api_cache[OF a2]
  from assms a1 a2 c1 c2 show ?thesis
    by (auto simp: fetch_cameras_def split: if_splits sum.splits)
qed

text \<open>
  C9. Without credentials (\<open>_creds\<close> is \<open>None\<close>, or empty) \<open>fetch_cameras\<close> returns the empty
  list; it raises nothing and the state is the one before the call: no request was
  sent.
\<close>

theorem unauthenticated_list_empty:
  assumes "\<not> truthy (creds w)"
  shows "fetch_cameras L w now = (w, Inr [])"
  using assms by (simp add: fetch_cameras_def)


lemma validate_no_refresh:
  assumes "validate w resp = (w', r)" and "\<not> expired_next [Resp (fst resp) (fst (snd resp)) (snd (snd resp))]"
  shows "w' = w"
proof -
  obtain s t bd where resp: "resp = (s, t, bd)" by (cases resp)
  show ?thesis
  proof (cases bd)
    case (NotJson x)
    with assms resp show ?thesis by (simp add: validate_notjson)
  next
    case (JsonText d)
    show ?thesis
    proof (cases "\<exists>b. d = JObj b")
      case False
      then have "validate w (s, t, JsonText d) = (w, Inl AttributeError)"
        by (intro validate_non_dict) blast
      with assms resp JsonText show ?thesis by simp
    next
      case True
      then obtain b where b: "d = JObj b" by blast
      with assms resp JsonText show ?thesis
        by (auto simp: validate_not_expired)
    qed
  qed
qed

lemma call_api_no_refresh:
  assumes "call_api w ep xs = (w', r)" and "payload w = Inr tp" and "\<not> expired_next (vendor w)"
  shows "calls w' = calls w @ [\<lparr>endpoint = ep, access = fst tp, args = snd tp # xs\<rparr>]
         \<and> r \<noteq> Inl TokenRefreshed"
proof (cases "vendor w")
  case Nil
  with assms show ?thesis by (auto simp: call_api_def send_def)
next
  case (Cons rp rest)
  show ?thesis
  proof (cases rp)
    case ConnFail
    with assms Cons show ?thesis by (auto simp: call_api_def send_def)
  next
    case (Resp s t bd)
    let ?w1 = "w\<lparr>vendor := rest, calls := calls w @ [\<lparr>endpoint = ep, access = fst tp, args = snd tp # xs\<rparr>]\<rparr>"
    from assms Cons Resp have v: "validate ?w1 (s, t, bd) = (w', r)"
      by (simp add: call_api_def send_def)
    from assms(3) Cons Resp have ne: "\<not> expired_next [Resp s t bd]"
      by (cases bd; simp) (rename_tac j, case_tac j; simp)
    from validate_no_refresh[OF v] ne have w': "w' = ?w1" by simp
    have "r \<noteq> Inl TokenRefreshed"
    proof (cases bd)
      case (NotJson x)
      with v show ?thesis by (auto simp: validate_notjson)
    next
      case (JsonText d)
      show ?thesis
      proof (cases "\<exists>b. d = JObj b")
        case False
        then have "validate ?w1 (s, t, JsonText d) = (?w1, Inl AttributeError)"
          by (intro validate_non_dict) blast
        with v JsonText show ?thesis by auto
      next
        case True
        then obtain b where b: "d = JObj b" by blast
        with v JsonText ne show ?thesis
          by (auto simp: validate_not_expired split: if_splits)
      qed
    qed
    with w' show ?thesis by simp
  qed
qed

lemma count_calls_refresh:
  "list_all (\<lambda>q. endpoint q = RefreshTokenEP) rs \<Longrightarrow> ep \<noteq> RefreshTokenEP \<Longrightarrow> count_calls ep rs = 0"
  by (induction rs) (auto simp: count_calls_def)

lemma count_calls_append [simp]: "count_calls ep (xs @ ys) = count_calls ep xs + count_calls ep ys"
  by (simp add: count_calls_def)

lemma count_calls_Cons [simp]:
  "count_calls ep (q # ys) = (if endpoint q = ep then 1 else 0) + count_calls ep ys"
  by (simp add: count_calls_def)

lemma count_calls_Nil [simp]: "count_calls ep [] = 0"
  by (simp add: count_calls_def)

text \<open>The \<open>try\<close>/\<open>except TokenRefreshed\<close> pattern over \<open>call_api\<close>.\<close>

lemma retry_shape:
  assumes "(case call_api w ep xs of
              (w1, r) \<Rightarrow> if r = Inl TokenRefreshed then call_api w1 ep xs else (w1, r)) = (w', r')"
    and "payload w = Inr tp" and "ep \<noteq> RefreshTokenEP"
  shows "cameras w' = cameras w \<and> cameras_ts w' = cameras_ts w \<and>
         (\<exists>rs. calls w' = calls w @ \<lparr>endpoint = ep, access = fst tp, args = snd tp # xs\<rparr> # rs
              \<and> count_calls ep rs \<le> 1
              \<and> list_all (\<lambda>q. endpoint q = ep \<or> endpoint q = RefreshTokenEP) rs
              \<and> (\<not> expired_next (vendor w) \<longrightarrow> rs = []))"
proof -
  obtain w1 r1 where a1: "call_api w ep xs = (w1, r1)" by (cases "call_api w ep xs")
  from call_api_shape[OF a1] assms(2) obtain rs1 where
    c1: "cameras w1 = cameras w" "cameras_ts w1 = cameras_ts w"
    and t1: "calls w1 = calls w @ \<lparr>endpoint = ep, access = fst tp, args = snd tp # xs\<rparr> # rs1"
    and l1: "list_all (\<lambda>q. endpoint q = RefreshTokenEP) rs1"
    by auto
  have n1: "rs1 = [] \<and> r1 \<noteq> Inl TokenRefreshed" if "\<not> expired_next (vendor w)"
    using call_api_no_refresh[OF a1 assms(2) that] t1 by simp
  show ?thesis
  proof (cases "r1 = Inl TokenRefreshed")
    case False
    with assms(1) a1 have "w' = w1" by simp
    with c1 t1 l1 n1 assms(3) show ?thesis
      by (auto simp: count_calls_refresh list_all_iff)
  next
    case True
    with assms(1) a1 have a2: "call_api w1 ep xs = (w', r')" by simp
    from True n1 have ex: "expired_next (vendor w)" by blast
    note s2 = call_api_shape[OF a2]
    show ?thesis
    proof (cases "payload w1")
      case (Inl e)
      with s2 have "w' = w1" by simp
      with c1 t1 l1 ex assms(3) show ?thesis
        by (auto simp: count_calls_refresh list_all_iff)
    next
      case (Inr tp2)
      with s2 obtain rs2 where
        c2: "cameras w' = cameras w1" "cameras_ts w' = cameras_ts w1"
        and t2: "calls w' = calls w1 @ \<lparr>endpoint = ep, access = fst tp2, args = snd tp2 # xs\<rparr> # rs2"
        and l2: "list_all (\<lambda>q. endpoint q = RefreshTokenEP) rs2"
        by auto
      let ?rs = "rs1 @ \<lparr>endpoint = ep, access = fst tp2, args = snd tp2 # xs\<rparr> # rs2"
      have "calls w' = calls w @ \<lparr>endpoint = ep, access = fst tp, args = snd tp # xs\<rparr> # ?rs"
        using t1 t2 by simp
      moreover have "count_calls ep ?rs \<le> 1"
        using l1 l2 assms(3) by (simp add: count_calls_refresh)
      moreover have "list_all (\<lambda>q. endpoint q = ep \<or> endpoint q = RefreshTokenEP) ?rs"
        using l1 l2 by (auto simp: list_all_iff)
      ultimately show ?thesis using c1 c2 ex by auto
    qed
  qed
qed

subsection \<open>Routes\<close>

lemma fetch_cameras_calls:
  assumes "fetch_cameras L w now = (w', r)"
  shows "\<exists>rs. calls w' = calls w @ rs
            \<and> list_all (\<lambda>q. endpoint q = GetObjectListEP \<or> endpoint q = RefreshTokenEP) rs"
proof (cases "\<not> truthy (creds w) \<or> (cameras w \<noteq> [] \<and> now - cameras_ts w < CACHE_TTL)")
  case True
  with assms have "w' = w" by (auto simp: fetch_cameras_def split: if_splits)
  then show ?thesis by simp
next
  case False
  obtain w2 r2 where rt: "(case call_api w GetObjectListEP [] of
              (w1, r) \<Rightarrow> if r = Inl TokenRefreshed then call_api w1 GetObjectListEP [] else (w1, r)) = (w2, r2)"
    by (cases "(case call_api w GetObjectListEP [] of
              (w1, r) \<Rightarrow> if r = Inl TokenRefreshed then call_api w1 GetObjectListEP [] else (w1, r))")
  have c: "calls w' = calls w2"
    using assms False rt by (auto simp: fetch_cameras_def split: sum.splits)
  show ?thesis
  proof (cases "payload w")
    case (Inl e)
    then have "call_api w GetObjectListEP [] = (w, Inl e)" by (simp add: call_api_def)
    then have "w2 = w" using rt by (auto split: if_splits)
    with c show ?thesis by simp
  next
    case (Inr tp)
    from retry_shape[OF rt Inr] c show ?thesis by auto
  qed
qed

text \<open>
  C5 (as amended). When the slug matches no camera of the list that \<open>fetch_cameras\<close>
  returns, each device-scoped route answers with status 404 and an error body, in the
  state that \<open>fetch_cameras\<close> left. The only requests sent are those of that lookup: device
  listings and token refreshes, and none at all when the process has no credentials or
  the cache has entries younger than 120 seconds. No request for device information, an
  action, a property, signaling or a thumbnail is sent.
\<close>

theorem unknown_slug_not_found:
  assumes "fetch_cameras L w now = (w1, Inr cams)"
    and "list_all (\<lambda>cam. name_uri cam \<noteq> uri) cams"
  shows "api_camera_detail L w now uri
           = (w1, Jsonify (JObj [(py ''error'', JStr (py ''Camera not found''))]) 404)
       \<and> api_camera_info L w now uri
           = (w1, Jsonify (JObj [(py ''error'', JStr (py ''Camera not found''))]) 404)
       \<and> api_camera_action L w now uri action qvalue
           = (w1, Jsonify (JObj [(py ''error'', JStr (py ''Camera not found''))]) 404)
       \<and> api_signaling L w now uri
           = (w1, Jsonify (JObj [(py ''error'', JStr (py ''Camera not found'')),
                                 (py ''result'', JStr (py ''error''))]) 404)
       \<and> api_thumbnail L w now now' uri
           = (w1, Jsonify (JObj [(py ''error'', JStr (py ''No thumbnail''))]) 404)
       \<and> (\<exists>rs. calls w1 = calls w @ rs
              \<and> list_all (\<lambda>q. endpoint q = GetObjectListEP \<or> endpoint q = RefreshTokenEP) rs)
       \<and> (\<not> truthy (creds w) \<or> (cameras w \<noteq> [] \<and> now - cameras_ts w < 120) \<longrightarrow> w1 = w)"
proof -
  from assms(2) have "find (\<lambda>cam. name_uri cam = uri) cams = None"
    by (simp add: find_None_iff list_all_iff)
  with assms(1) have f: "find_camera L w now uri = (w1, Inr None)"
    by (simp add: find_camera_def)
  have "\<not> truthy (creds w) \<or> (cameras w \<noteq> [] \<and> now - cameras_ts w < 120) \<longrightarrow> w1 = w"
    using assms(1) by (auto simp: fetch_cameras_def CACHE_TTL_def split: if_splits)
  with f fetch_cameras_calls[OF assms(1)] show ?thesis
    by (simp add: api_camera_detail_def api_camera_info_def api_camera_action_def
        api_signaling_def api_thumbnail_def)
qed


subsection \<open>Relay server URLs\<close>

lemma digits_then_app:
  assumes "ds \<noteq> []" and "list_all (digit_char L) ds" and "\<not> digit_char L sep"
  shows "digits_then L sep (ds @ sep # r) = Some (ds, r)"
proof -
  from assms(2) have "takeWhile (digit_char L) (ds @ sep # r) = ds @ takeWhile (digit_char L) (sep # r)"
    by (intro takeWhile_append2) (simp add: list_all_iff)
  with assms(3) have t: "takeWhile (digit_char L) (ds @ sep # r) = ds" by simp
  from assms(2) have "dropWhile (digit_char L) (ds @ sep # r) = dropWhile (digit_char L) (sep # r)"
    by (intro dropWhile_append2) (simp add: list_all_iff)
  with assms(3) have d: "dropWhile (digit_char L) (ds @ sep # r) = sep # r" by simp
  from t d assms(1) show ?thesis by (simp add: digits_then_def)
qed

lemma separators_no_digits: "\<not> digit_char L 45" "\<not> digit_char L 46"
  by (simp_all add: digit_char_def)

lemma turn_scheme_app:
  "turn_scheme (py ''turn:'' @ r) = Some (py ''turn:'', r)"
  "turn_scheme (py ''turns:'' @ r) = Some (py ''turns:'', r)"
  by (simp_all add: turn_scheme_def startswith_def py_def)

lemma host_then_port:
  assumes "host \<noteq> []" and "list_all (\<lambda>x. x \<noteq> 58) host"
  shows "takeWhile (\<lambda>c. c \<noteq> 58) (host @ 58 # rest) = host"
    and "dropWhile (\<lambda>c. c \<noteq> 58) (host @ 58 # rest) = 58 # rest"
proof -
  from assms(2) have "takeWhile (\<lambda>c. c \<noteq> 58) (host @ 58 # rest) = host @ takeWhile (\<lambda>c. c \<noteq> 58) (58 # rest)"
    by (intro takeWhile_append2) (simp add: list_all_iff)
  then show "takeWhile (\<lambda>c. c \<noteq> 58) (host @ 58 # rest) = host" by simp
  from assms(2) have "dropWhile (\<lambda>c. c \<noteq> 58) (host @ 58 # rest) = dropWhile (\<lambda>c. c \<noteq> 58) (58 # rest)"
    by (intro dropWhile_append2) (simp add: list_all_iff)
  then show "dropWhile (\<lambda>c. c \<noteq> 58) (host @ 58 # rest) = 58 # rest" by simp
qed

lemma match_turn_shape:
  assumes "scheme = py ''turn:'' \<or> scheme = py ''turns:''"
    and "a \<noteq> []" "list_all (digit_char L) a"
    and "b \<noteq> []" "list_all (digit_char L) b"
    and "c \<noteq> []" "list_all (digit_char L) c"
    and "d \<noteq> []" "list_all (digit_char L) d"
    and "host \<noteq> []" "list_all (\<lambda>x. x \<noteq> 58) host"
  shows "match_turn L (scheme @ a @ [45] @ b @ [45] @ c @ [45] @ d @ py ''.t-'' @ host @ [58] @ rest)
           = Some (scheme, a, b, c, d, 58 # takeWhile (\<lambda>x. x \<noteq> 10) rest)"
proof -
  have s: "turn_scheme (scheme @ a @ [45] @ b @ [45] @ c @ [45] @ d @ py ''.t-'' @ host @ [58] @ rest)
             = Some (scheme, a @ [45] @ b @ [45] @ c @ [45] @ d @ py ''.t-'' @ host @ [58] @ rest)"
    using assms(1) turn_scheme_app by blast
  have d1: "digits_then L 45 (a @ [45] @ b @ [45] @ c @ [45] @ d @ py ''.t-'' @ host @ [58] @ rest)
             = Some (a, b @ [45] @ c @ [45] @ d @ py ''.t-'' @ host @ [58] @ rest)"
    using digits_then_app[OF assms(2,3) separators_no_digits(1)] by simp
  have d2: "digits_then L 45 (b @ [45] @ c @ [45] @ d @ py ''.t-'' @ host @ [58] @ rest)
             = Some (b, c @ [45] @ d @ py ''.t-'' @ host @ [58] @ rest)"
    using digits_then_app[OF assms(4,5) separators_no_digits(1)] by simp
  have d3: "digits_then L 45 (c @ [45] @ d @ py ''.t-'' @ host @ [58] @ rest)
             = Some (c, d @ py ''.t-'' @ host @ [58] @ rest)"
    using digits_then_app[OF assms(6,7) separators_no_digits(1)] by simp
  have p: "py ''.t-'' = 46 # py ''t-''" by (simp add: py_def)
  have d4: "digits_then L 46 (d @ py ''.t-'' @ host @ [58] @ rest)
             = Some (d, py ''t-'' @ host @ [58] @ rest)"
    using digits_then_app[OF assms(8,9) separators_no_digits(2)] by (simp add: p)
  have sw: "startswith (py ''t-'' @ host @ [58] @ rest) (py ''t-'')"
       "drop 2 (py ''t-'' @ host @ [58] @ rest) = host @ 58 # rest"
    by (simp_all add: startswith_def py_def)
  show ?thesis
    using assms(10) s d1 d2 d3 d4 sw host_then_port[OF assms(10,11), of rest]
    by (simp add: match_turn_def)
qed

lemma digits_then_Some:
  assumes "digits_then L sep s = Some (ds, r)"
  shows "s = ds @ sep # r \<and> ds \<noteq> [] \<and> list_all (digit_char L) ds"
proof -
  from assms obtain c r' where d: "dropWhile (digit_char L) s = c # r'"
    by (auto simp: digits_then_def split: list.splits)
  with assms have e: "takeWhile (digit_char L) s \<noteq> []" "c = sep" "ds = takeWhile (digit_char L) s" "r = r'"
    by (auto simp: digits_then_def split: if_splits)
  have "s = takeWhile (digit_char L) s @ dropWhile (digit_char L) s" by simp
  with d e have "s = ds @ sep # r" by simp
  moreover have "list_all (digit_char L) ds"
    using e(3) by (auto simp: list_all_iff dest: set_takeWhileD)
  ultimately show ?thesis using e by simp
qed

lemma startswith_split: "startswith s p \<Longrightarrow> s = p @ drop (length p) s"
  by (metis append_take_drop_id startswith_def)

lemma turn_scheme_Some:
  assumes "turn_scheme s = Some (g, r)"
  shows "s = g @ r \<and> (g = py ''turn:'' \<or> g = py ''turns:'')"
proof (cases "startswith s (py ''turn:'')")
  case True
  with assms have "g = py ''turn:''" "r = drop 5 s" by (simp_all add: turn_scheme_def)
  moreover have "length (py ''turn:'') = 5" by (simp add: py_def)
  ultimately show ?thesis using startswith_split[OF True] by simp
next
  case False
  with assms have sw: "startswith s (py ''turns:'')" and "g = py ''turns:''" "r = drop 6 s"
    by (auto simp: turn_scheme_def split: if_splits)
  moreover have "length (py ''turns:'') = 6" by (simp add: py_def)
  ultimately show ?thesis using startswith_split[OF sw] by simp
qed

lemma match_turn_Some:
  assumes "match_turn L u = Some (g1, g2, g3, g4, g5, g6)"
  shows "\<exists>host port tail.
           u = g1 @ g2 @ [45] @ g3 @ [45] @ g4 @ [45] @ g5 @ py ''.t-'' @ host @ [58] @ port @ tail
         \<and> g6 = 58 # port
         \<and> (g1 = py ''turn:'' \<or> g1 = py ''turns:'')
         \<and> g2 \<noteq> [] \<and> list_all (digit_char L) g2
         \<and> g3 \<noteq> [] \<and> list_all (digit_char L) g3
         \<and> g4 \<noteq> [] \<and> list_all (digit_char L) g4
         \<and> g5 \<noteq> [] \<and> list_all (digit_char L) g5
         \<and> host \<noteq> [] \<and> list_all (\<lambda>x. x \<noteq> 58) host
         \<and> list_all (\<lambda>x. x \<noteq> 10) port"
proof -
  from assms obtain r0 r1 r2 r3 r4 where s: "turn_scheme u = Some (g1, r0)"
    and d1: "digits_then L 45 r0 = Some (g2, r1)"
    and d2: "digits_then L 45 r1 = Some (g3, r2)"
    and d3: "digits_then L 45 r2 = Some (g4, r3)"
    and d4: "digits_then L 46 r3 = Some (g5, r4)"
    and c: "startswith r4 (py ''t-'')"
      "takeWhile (\<lambda>c. c \<noteq> 58) (drop 2 r4) \<noteq> []"
      "dropWhile (\<lambda>c. c \<noteq> 58) (drop 2 r4) \<noteq> []"
      "g6 = takeWhile (\<lambda>c. c \<noteq> 10) (dropWhile (\<lambda>c. c \<noteq> 58) (drop 2 r4))"
    unfolding match_turn_def
    by (auto split: option.splits prod.splits if_splits)
  define host where "host = takeWhile (\<lambda>c. c \<noteq> 58) (drop 2 r4)"
  define rr where "rr = dropWhile (\<lambda>c. c \<noteq> 58) (drop 2 r4)"
  from c have m: "startswith r4 (py ''t-'')" "host \<noteq> []" "rr \<noteq> []"
      "g6 = takeWhile (\<lambda>c. c \<noteq> 10) rr"
    by (simp_all add: host_def rr_def)
  from m(3) obtain x rest where rr: "rr = x # rest" by (cases rr) auto
  have "x = 58" using rr hd_dropWhile[of "\<lambda>c. c \<noteq> 58" "drop 2 r4"] by (simp add: rr_def)
  with rr have rr58: "rr = 58 # rest" by simp
  define port where "port = takeWhile (\<lambda>c. c \<noteq> 10) rest"
  define tail where "tail = dropWhile (\<lambda>c. c \<noteq> 10) rest"
  have g6: "g6 = 58 # port" using m(4) rr58 by (simp add: port_def)
  have rest: "rest = port @ tail" by (simp add: port_def tail_def)
  have "drop 2 r4 = host @ rr" by (simp add: host_def rr_def)
  moreover have "length (py ''t-'') = 2" by (simp add: py_def)
  with startswith_split[OF m(1)] have "r4 = py ''t-'' @ drop 2 r4" by simp
  ultimately have r4: "r4 = py ''t-'' @ host @ [58] @ port @ tail" using rr58 rest by simp
  have hostc: "list_all (\<lambda>x. x \<noteq> 58) host"
    by (auto simp: host_def list_all_iff dest: set_takeWhileD)
  have portc: "list_all (\<lambda>x. x \<noteq> 10) port"
    by (auto simp: port_def list_all_iff dest: set_takeWhileD)
  note e0 = turn_scheme_Some[OF s] and e1 = digits_then_Some[OF d1] and e2 = digits_then_Some[OF d2]
    and e3 = digits_then_Some[OF d3] and e4 = digits_then_Some[OF d4]
  have p: "py ''.t-'' = 46 # py ''t-''" by (simp add: py_def)
  have "u = g1 @ g2 @ [45] @ g3 @ [45] @ g4 @ [45] @ g5 @ py ''.t-'' @ host @ [58] @ port @ tail"
    using e0 e1 e2 e3 e4 r4 by (simp add: p)
  with g6 e0 e1 e2 e3 e4 m(2) hostc portc show ?thesis by blast
qed

lemma map_of_dict_del:
  "distinct (map fst d) \<Longrightarrow> map_of (dict_del k d) k' = (if k' = k then None else map_of d k')"
proof (induction d)
  case Nil
  then show ?case by simp
next
  case (Cons kv d)
  then show ?case
    by (cases kv) (auto simp: map_of_eq_None_iff rev_image_eqI)
qed

lemma dict_set_same: "map_of d k = Some v \<Longrightarrow> dict_set k v d = d"
  by (induction d) (auto split: if_splits)

lemma rewrite_url_no_match: "match_turn L u = None \<Longrightarrow> rewrite_url L u = u"
  by (simp add: rewrite_url_def)

lemma normalize_server_urls:
  assumes "map_of d (py ''url'') = None" and "map_of d (py ''urls'') = Some (JStr u)"
  shows "normalize_server L (JObj d) = Inr (JObj (dict_set (py ''urls'') (JStr (rewrite_url L u)) d))"
proof (cases "match_turn L u")
  case None
  with assms show ?thesis
    by (simp add: normalize_server_def dget_def rewrite_url_no_match dict_set_same)
next
  case (Some m)
  with assms show ?thesis
    by (simp add: normalize_server_def dget_def)
qed

lemma normalize_server_url:
  assumes "map_of d (py ''url'') = Some (JStr u)"
  shows "normalize_server L (JObj d)
           = Inr (JObj (dict_set (py ''urls'') (JStr (rewrite_url L u)) (dict_del (py ''url'') d)))"
proof -
  have m: "map_of (dict_set (py ''urls'') (JStr u) (dict_del (py ''url'') d)) (py ''urls'') = Some (JStr u)"
    by (simp add: map_of_dict_set)
  have twice: "dict_set k v' (dict_set k v e) = dict_set k v' e" for k v v' and e :: "(pystr \<times> json) list"
    by (induction e) auto
  show ?thesis
  proof (cases "match_turn L u")
    case None
    with assms m show ?thesis
      by (simp add: normalize_server_def dget_def rewrite_url_no_match)
  next
    case (Some g)
    with assms m show ?thesis
      by (simp add: normalize_server_def dget_def twice)
  qed
qed

lemma rewrite_url_example:
  "rewrite_url L (py ''turn:54-201-33-198.t-xyz.kinesisvideo.example:443'') = py ''turn:54.201.33.198:443''"
  by (simp add: rewrite_url_def match_turn_def turn_scheme_def startswith_def digits_then_def
      digit_char_def py_def)

text \<open>
  C6 (as amended). The signaling normalizer rewrites the URLs that its pattern matches:
  the scheme \<open>turn:\<close> or \<open>turns:\<close>, four non-empty runs of digits joined by hyphens, then
  \<open>.t-\<close>, one or more characters other than a colon, a colon and the rest of the line. Such
  a URL becomes the scheme, the four runs joined by dots, the colon and the rest: the
  port and path are kept (\<open>turn:54-201-33-198.t-xyz.kinesisvideo.example:443\<close> becomes
  \<open>turn:54.201.33.198:443\<close>). A URL that the rewriting changes has that form, so every other
  URL is returned unchanged. A descriptor with the legacy \<open>url\<close> field gets its value,
  rewritten, in the \<open>urls\<close> field, and loses the \<open>url\<close> field; the other fields stay.
\<close>

theorem relay_url_rewrite:
  "((scheme = py ''turn:'' \<or> scheme = py ''turns:'')
      \<and> a \<noteq> [] \<and> list_all (digit_char L) a \<and> b \<noteq> [] \<and> list_all (digit_char L) b
      \<and> c \<noteq> [] \<and> list_all (digit_char L) c \<and> d \<noteq> [] \<and> list_all (digit_char L) d
      \<and> host \<noteq> [] \<and> list_all (\<lambda>x. x \<noteq> 58) host \<and> list_all (\<lambda>x. x \<noteq> 10) port
     \<longrightarrow> rewrite_url L (scheme @ a @ [45] @ b @ [45] @ c @ [45] @ d @ py ''.t-'' @ host @ [58] @ port)
           = scheme @ a @ [46] @ b @ [46] @ c @ [46] @ d @ [58] @ port)
   \<and> (rewrite_url L u \<noteq> u \<longrightarrow>
        (\<exists>sch a' b' c' d' host' port' tail.
            u = sch @ a' @ [45] @ b' @ [45] @ c' @ [45] @ d' @ py ''.t-'' @ host' @ [58] @ port' @ tail
          \<and> (sch = py ''turn:'' \<or> sch = py ''turns:'')
          \<and> a' \<noteq> [] \<and> list_all (digit_char L) a' \<and> b' \<noteq> [] \<and> list_all (digit_char L) b'
          \<and> c' \<noteq> [] \<and> list_all (digit_char L) c' \<and> d' \<noteq> [] \<and> list_all (digit_char L) d'
          \<and> host' \<noteq> [] \<and> list_all (\<lambda>x. x \<noteq> 58) host'))
   \<and> (distinct (map fst s) \<and> map_of s (py ''url'') = Some (JStr u) \<longrightarrow>
        (\<exists>s'. normalize_server L (JObj s) = Inr (JObj s')
            \<and> map_of s' (py ''urls'') = Some (JStr (rewrite_url L u))
            \<and> map_of s' (py ''url'') = None
            \<and> (\<forall>k. k \<noteq> py ''url'' \<and> k \<noteq> py ''urls'' \<longrightarrow> map_of s' k = map_of s k)))
   \<and> (map_of s (py ''url'') = None \<and> map_of s (py ''urls'') = Some (JStr u) \<longrightarrow>
        (\<exists>s'. normalize_server L (JObj s) = Inr (JObj s')
            \<and> map_of s' (py ''urls'') = Some (JStr (rewrite_url L u))
            \<and> (\<forall>k. k \<noteq> py ''urls'' \<longrightarrow> map_of s' k = map_of s k)))
   \<and> rewrite_url L (py ''turn:54-201-33-198.t-xyz.kinesisvideo.example:443'')
       = py ''turn:54.201.33.198:443''"
proof (intro conjI impI)
  assume h: "(scheme = py ''turn:'' \<or> scheme = py ''turns:'')
      \<and> a \<noteq> [] \<and> list_all (digit_char L) a \<and> b \<noteq> [] \<and> list_all (digit_char L) b
      \<and> c \<noteq> [] \<and> list_all (digit_char L) c \<and> d \<noteq> [] \<and> list_all (digit_char L) d
      \<and> host \<noteq> [] \<and> list_all (\<lambda>x. x \<noteq> 58) host \<and> list_all (\<lambda>x. x \<noteq> 10) port"
  then have "match_turn L (scheme @ a @ [45] @ b @ [45] @ c @ [45] @ d @ py ''.t-'' @ host @ [58] @ port)
           = Some (scheme, a, b, c, d, 58 # takeWhile (\<lambda>x. x \<noteq> 10) port)"
    by (intro match_turn_shape) simp_all
  moreover from h have "takeWhile (\<lambda>x. x \<noteq> 10) port = port"
    by (simp add: list_all_iff)
  ultimately show "rewrite_url L (scheme @ a @ [45] @ b @ [45] @ c @ [45] @ d @ py ''.t-'' @ host @ [58] @ port)
           = scheme @ a @ [46] @ b @ [46] @ c @ [46] @ d @ [58] @ port"
    by (simp add: rewrite_url_def)
next
  assume "rewrite_url L u \<noteq> u"
  then obtain g1 g2 g3 g4 g5 g6 where "match_turn L u = Some (g1, g2, g3, g4, g5, g6)"
    by (cases "match_turn L u") (auto simp: rewrite_url_def)
  from match_turn_Some[OF this]
  show "\<exists>sch a' b' c' d' host' port' tail.
            u = sch @ a' @ [45] @ b' @ [45] @ c' @ [45] @ d' @ py ''.t-'' @ host' @ [58] @ port' @ tail
          \<and> (sch = py ''turn:'' \<or> sch = py ''turns:'')
          \<and> a' \<noteq> [] \<and> list_all (digit_char L) a' \<and> b' \<noteq> [] \<and> list_all (digit_char L) b'
          \<and> c' \<noteq> [] \<and> list_all (digit_char L) c' \<and> d' \<noteq> [] \<and> list_all (digit_char L) d'
          \<and> host' \<noteq> [] \<and> list_all (\<lambda>x. x \<noteq> 58) host'"
    by blast
next
  assume h: "distinct (map fst s) \<and> map_of s (py ''url'') = Some (JStr u)"
  let ?s' = "dict_set (py ''urls'') (JStr (rewrite_url L u)) (dict_del (py ''url'') s)"
  from h have "normalize_server L (JObj s) = Inr (JObj ?s')" by (simp add: normalize_server_url)
  moreover from h have "map_of ?s' (py ''urls'') = Some (JStr (rewrite_url L u))"
      "map_of ?s' (py ''url'') = None"
      "\<forall>k. k \<noteq> py ''url'' \<and> k \<noteq> py ''urls'' \<longrightarrow> map_of ?s' k = map_of s k"
    by (simp_all add: map_of_dict_set map_of_dict_del)
  ultimately show "\<exists>s'. normalize_server L (JObj s) = Inr (JObj s')
            \<and> map_of s' (py ''urls'') = Some (JStr (rewrite_url L u))
            \<and> map_of s' (py ''url'') = None
            \<and> (\<forall>k. k \<noteq> py ''url'' \<and> k \<noteq> py ''urls'' \<longrightarrow> map_of s' k = map_of s k)"
    by blast
next
  assume h: "map_of s (py ''url'') = None \<and> map_of s (py ''urls'') = Some (JStr u)"
  let ?s' = "dict_set (py ''urls'') (JStr (rewrite_url L u)) s"
  from h have "normalize_server L (JObj s) = Inr (JObj ?s')" by (simp add: normalize_server_urls)
  moreover have "map_of ?s' (py ''urls'') = Some (JStr (rewrite_url L u))"
      "\<forall>k. k \<noteq> py ''urls'' \<longrightarrow> map_of ?s' k = map_of s k"
    by (simp_all add: map_of_dict_set)
  ultimately show "\<exists>s'. normalize_server L (JObj s) = Inr (JObj s')
            \<and> map_of s' (py ''urls'') = Some (JStr (rewrite_url L u))
            \<and> (\<forall>k. k \<noteq> py ''urls'' \<longrightarrow> map_of s' k = map_of s k)"
    by blast
next
  show "rewrite_url L (py ''turn:54-201-33-198.t-xyz.kinesisvideo.example:443'')
       = py ''turn:54.201.33.198:443''"
    by (rule rewrite_url_example)
qed

subsection \<open>Start-up\<close>

lemma refreshes_only_calls: "refreshes_only w w' \<Longrightarrow> \<exists>rs. calls w' = calls w @ rs"
  by (auto simp: refreshes_only_def)

lemma wyze_login_calls:
  assumes "hash_password L pw = Inr h"
    and "wyze_login L w email pw ak kid pid = (w', r)"
  shows "\<exists>rs. calls w' = calls w @ login_request pid kid ak email h # rs"
proof -
  obtain w1 y where sn: "send w (login_request pid kid ak email h) = (w1, y)"
    by (cases "send w (login_request pid kid ak email h)")
  note s1 = send_cases[OF sn]
  show ?thesis
  proof (cases y)
    case (Inl e)
    with assms sn s1 show ?thesis by (auto simp: wyze_login_def login_request_def)
  next
    case (Inr resp)
    obtain w2 r2 where v: "validate w1 resp = (w2, r2)" by (cases "validate w1 resp")
    from validate_frame[OF v] obtain rs where "calls w2 = calls w1 @ rs"
      using refreshes_only_calls by blast
    moreover have "calls w' = calls w2"
      using assms sn Inr v
      by (auto simp: wyze_login_def login_request_def save_tokens_def split: sum.splits json.splits)
    ultimately show ?thesis using s1 by simp
  qed
qed

text \<open>
  C2 (as amended). \<open>_load_tokens\<close> returns \<open>False\<close> and changes nothing when the token file
  does not exist, and makes the parsed content the credential, returning \<open>True\<close>, when the
  file holds JSON. When the content of the file is not JSON, \<open>_load_tokens\<close> raises the
  decoding error and the process ends with it. A process that starts without a token
  file goes on to log in: its first request is the login request, or it exits when one of
  the four environment variables is missing.
\<close>

theorem load_tokens_outcomes:
  "(token_file w = None \<longrightarrow> load_tokens w = (w, Inr False))
   \<and> (\<forall>j. token_file w = Some (JsonText j) \<longrightarrow> load_tokens w = (w\<lparr>creds := j\<rparr>, Inr True))
   \<and> (\<forall>t. token_file w = Some (NotJson t) \<longrightarrow>
          load_tokens w = (w, Inl JSONDecodeError)
        \<and> main L env phone_id now now' w = (w, Some JSONDecodeError))
   \<and> (token_file w = None \<and> creds w = JNull \<and> \<not> env_complete env \<longrightarrow>
          main L env phone_id now now' w = (w, Some SystemExit))
   \<and> (\<forall>h. token_file w = None \<and> creds w = JNull \<and> env_complete env
            \<and> hash_password L (env_val (WYZE_PASSWORD env)) = Inr h \<longrightarrow>
          (\<exists>rs. calls (fst (main L env phone_id now now' w))
                  = calls w @ login_request phone_id (env_val (API_ID env)) (env_val (API_KEY env))
                                (env_val (WYZE_EMAIL env)) h # rs))"
proof (intro conjI allI impI)
  show "load_tokens w = (w, Inr False)" if "token_file w = None"
    using that by (simp add: load_tokens_def)
  show "load_tokens w = (w\<lparr>creds := j\<rparr>, Inr True)" if "token_file w = Some (JsonText j)" for j
    using that by (simp add: load_tokens_def)
  show "load_tokens w = (w, Inl JSONDecodeError)" if "token_file w = Some (NotJson t)" for t
    using that by (simp add: load_tokens_def)
  show "main L env phone_id now now' w = (w, Some JSONDecodeError)"
    if "token_file w = Some (NotJson t)" for t
    using that by (simp add: main_def load_tokens_def)
  show "main L env phone_id now now' w = (w, Some SystemExit)"
    if "token_file w = None \<and> creds w = JNull \<and> \<not> env_complete env"
    using that by (simp add: main_def load_tokens_def env_complete_def)
next
  fix h
  assume a: "token_file w = None \<and> creds w = JNull \<and> env_complete env
            \<and> hash_password L (env_val (WYZE_PASSWORD env)) = Inr h"
  obtain w3 r3 where lg: "wyze_login L w (env_val (WYZE_EMAIL env)) (env_val (WYZE_PASSWORD env))
                           (env_val (API_KEY env)) (env_val (API_ID env)) phone_id = (w3, r3)"
    by (cases "wyze_login L w (env_val (WYZE_EMAIL env)) (env_val (WYZE_PASSWORD env))
                           (env_val (API_KEY env)) (env_val (API_ID env)) phone_id")
  from a have hp: "hash_password L (env_val (WYZE_PASSWORD env)) = Inr h" by simp
  from wyze_login_calls[OF hp lg] obtain rs where
    c3: "calls w3 = calls w @ login_request phone_id (env_val (API_ID env)) (env_val (API_KEY env))
                                (env_val (WYZE_EMAIL env)) h # rs"
    by blast
  obtain w4 r4 where fc: "fetch_cameras L w3 now' = (w4, r4)" by (cases "fetch_cameras L w3 now'")
  from fetch_cameras_calls[OF fc] obtain rs' where c4: "calls w4 = calls w3 @ rs'" by blast
  have "fst (main L env phone_id now now' w) = w3 \<or> fst (main L env phone_id now now' w) = w4"
    using a lg fc by (auto simp: main_def load_tokens_def env_complete_def split: sum.splits)
  with c3 c4 show "\<exists>rs. calls (fst (main L env phone_id now now' w))
                  = calls w @ login_request phone_id (env_val (API_ID env)) (env_val (API_KEY env))
                                (env_val (WYZE_EMAIL env)) h # rs"
    by auto
qed

subsection \<open>The retry after a refresh\<close>

lemma attempt_shape:
  assumes "attempt w (Inr rq) = (w', res)"
  shows "\<exists>rs. calls w' = calls w @ rq # rs \<and> list_all (\<lambda>q. endpoint q = RefreshTokenEP) rs"
proof -
  obtain w1 y where sn: "send w rq = (w1, y)" by (cases "send w rq")
  note s1 = send_cases[OF sn]
  show ?thesis
  proof (cases y)
    case (Inl e)
    with assms sn s1 show ?thesis by (auto simp: attempt_def)
  next
    case (Inr resp)
    with assms sn have "validate w1 resp = (w', res)" by (simp add: attempt_def)
    then have "refreshes_only w1 w'" by (rule validate_frame)
    with s1 show ?thesis by (auto simp: refreshes_only_def)
  qed
qed

lemma validate_expired_Inl:
  "expired b \<Longrightarrow> validate w (s, t, JsonText (JObj b)) = (w', res) \<Longrightarrow> \<exists>e. res = Inl e"
  by (auto simp: validate_expired split: prod.splits sum.splits)

lemma expired_next_cases:
  assumes "expired_next rs"
  obtains s t b rest where "rs = Resp s t (JsonText (JObj b)) # rest" "expired b"
  using assms by (cases rs rule: expired_next.cases) auto

lemma attempt_no_refresh:
  assumes "attempt w (Inr rq) = (w', res)" and "\<not> expired_next (vendor w)"
  shows "calls w' = calls w @ [rq] \<and> res \<noteq> Inl TokenRefreshed"
proof (cases "vendor w")
  case Nil
  with assms show ?thesis by (auto simp: attempt_def send_def)
next
  case (Cons rp rest)
  show ?thesis
  proof (cases rp)
    case ConnFail
    with assms Cons show ?thesis by (auto simp: attempt_def send_def)
  next
    case (Resp s t bd)
    let ?w1 = "w\<lparr>vendor := rest, calls := calls w @ [rq]\<rparr>"
    from assms Cons Resp have v: "validate ?w1 (s, t, bd) = (w', res)"
      by (simp add: attempt_def send_def)
    from assms(2) Cons Resp have ne: "\<not> expired_next [Resp s t bd]"
      by (cases bd; simp) (rename_tac j, case_tac j; simp)
    from validate_no_refresh[OF v] ne have w': "w' = ?w1" by simp
    have "res \<noteq> Inl TokenRefreshed"
    proof (cases bd)
      case (NotJson x)
      with v show ?thesis by (auto simp: validate_notjson)
    next
      case (JsonText d)
      show ?thesis
      proof (cases "\<exists>b. d = JObj b")
        case False
        then have "validate ?w1 (s, t, JsonText d) = (?w1, Inl AttributeError)"
          by (intro validate_non_dict) blast
        with v JsonText show ?thesis by auto
      next
        case True
        then obtain b where b: "d = JObj b" by blast
        with v JsonText ne show ?thesis
          by (auto simp: validate_not_expired split: if_splits)
      qed
    qed
    with w' show ?thesis by simp
  qed
qed

lemma refresh_token_first_call:
  assumes "creds w = JObj c"
    and "map_of c (py ''access_token'') = Some a"
    and "map_of c (py ''refresh_token'') = Some r"
    and "map_of c (py ''phone_id'') = Some p"
    and "refresh_token w = (w', res)"
  shows "\<exists>more. calls w' = calls w @ refresh_request a p r # more
            \<and> list_all (\<lambda>q. endpoint q = RefreshTokenEP) more"
proof -
  have pl: "payload w = Inr (a, p)" using assms(1,2,4) by (simp add: payload_def)
  have sb: "subscript (creds w) (py ''refresh_token'') = Inr r" using assms(1,3) by simp
  obtain w1 y where sn: "send w (refresh_request a p r) = (w1, y)"
    by (cases "send w (refresh_request a p r)")
  note s1 = send_cases[OF sn]
  show ?thesis
  proof (cases y)
    case (Inl e)
    with assms(5) pl sb sn have "w' = w1"
      by (subst (asm) refresh_token.simps) (simp add: refresh_request_def)
    with s1 show ?thesis by simp
  next
    case (Inr resp)
    obtain w2 r2 where v: "validate w1 resp = (w2, r2)" by (cases "validate w1 resp")
    from validate_frame[OF v] obtain rs where
      rs: "calls w2 = calls w1 @ rs" "list_all (\<lambda>q. endpoint q = RefreshTokenEP) rs"
      by (auto simp: refreshes_only_def)
    have "calls w' = calls w2"
      using assms(5) pl sb sn Inr v
      by (subst (asm) refresh_token.simps)
         (auto simp: refresh_request_def save_tokens_def Let_def
               split: sum.splits json.splits option.splits)
    with rs s1 show ?thesis by simp
  qed
qed

lemma attempt_expired:
  assumes "creds w = JObj c"
    and "map_of c (py ''access_token'') = Some a"
    and "map_of c (py ''refresh_token'') = Some r"
    and "map_of c (py ''phone_id'') = Some p"
    and "expired_next (vendor w)"
    and "attempt w (Inr rq) = (w', res)"
  shows "\<exists>more e. calls w' = calls w @ [rq, refresh_request a p r] @ more
            \<and> list_all (\<lambda>q. endpoint q = RefreshTokenEP) more \<and> res = Inl e"
proof -
  from assms(5) obtain s t b rest where v: "vendor w = Resp s t (JsonText (JObj b)) # rest"
    and e: "expired b" by (rule expired_next_cases)
  let ?w1 = "w\<lparr>vendor := rest, calls := calls w @ [rq]\<rparr>"
  from assms(6) v have va: "validate ?w1 (s, t, JsonText (JObj b)) = (w', res)"
    by (simp add: attempt_def send_def)
  obtain w2 r2 where rt: "refresh_token ?w1 = (w2, r2)" by (cases "refresh_token ?w1")
  have "creds ?w1 = JObj c" using assms(1) by simp
  from refresh_token_first_call[OF this assms(2,3,4) rt] obtain more where
    m: "calls w2 = calls ?w1 @ refresh_request a p r # more"
       "list_all (\<lambda>q. endpoint q = RefreshTokenEP) more"
    by blast
  from va e rt have "w' = w2" by (auto simp: validate_expired split: sum.splits)
  moreover from validate_expired_Inl[OF e va] obtain x where "res = Inl x" by blast
  ultimately show ?thesis using m by simp
qed

lemma attempt_expired_refreshed:
  assumes "creds w = JObj c"
    and "map_of c (py ''access_token'') = Some a"
    and "map_of c (py ''refresh_token'') = Some r"
    and "map_of c (py ''phone_id'') = Some p"
    and "vendor w = Resp s1 t1 (JsonText (JObj b1)) # Resp s2 t2 (JsonText (JObj b2)) # rest"
    and "expired b1" and "success b2" and "dget b2 (py ''data'') (JObj b2) = JObj d"
  shows "attempt w (Inr rq) =
           (w\<lparr>creds := JObj (dict_set (py ''refresh_token'') (dget d (py ''refresh_token'') r)
                               (dict_set (py ''access_token'') (dget d (py ''access_token'') a) c)),
              token_file := Some (JsonText (JObj (dict_set (py ''refresh_token'') (dget d (py ''refresh_token'') r)
                               (dict_set (py ''access_token'') (dget d (py ''access_token'') a) c)))),
              vendor := rest,
              calls := calls w @ [rq, refresh_request a p r]\<rparr>, Inl TokenRefreshed)"
proof -
  let ?w1 = "w\<lparr>vendor := Resp s2 t2 (JsonText (JObj b2)) # rest, calls := calls w @ [rq]\<rparr>"
  have "creds ?w1 = JObj c" "vendor ?w1 = Resp s2 t2 (JsonText (JObj b2)) # rest"
    using assms(1) by simp_all
  from refresh_token_ok[OF this(1) assms(2,3,4) this(2) assms(7,8)]
  show ?thesis
    using assms(5,6) by (simp add: attempt_def send_def validate_expired)
qed


lemma call_api_attempt:
  "call_api w ep xs =
     attempt w (case payload w of Inl e \<Rightarrow> Inl e
                | Inr tp \<Rightarrow> Inr \<lparr>endpoint = ep, access = fst tp, args = snd tp # xs\<rparr>)"
  by (simp add: call_api_def attempt_def split: sum.splits)

lemma call_signaling_attempt:
  "call_signaling w m =
     attempt w (case subscript (creds w) (py ''access_token'') of Inl e \<Rightarrow> Inl e
                | Inr tok \<Rightarrow> Inr \<lparr>endpoint = SignalingEP, access = tok, args = [m]\<rparr>)"
  by (simp add: call_signaling_def attempt_def split: sum.splits)

lemma run_action_try_twice: "run_action w m mo act = try_twice L w (RunAction m mo act)"
  by (auto simp: run_action_def try_twice_def call_api_attempt split: prod.splits sum.splits)

lemma set_property_try_twice:
  "set_property L w m mo pid pv = try_twice L w (SetProperty m mo pid pv)"
  by (auto simp: set_property_def try_twice_def call_api_attempt split: prod.splits sum.splits)

lemma get_device_info_try_twice: "get_device_info w m mo = try_twice L w (GetDeviceInfo m mo)"
  by (auto simp: get_device_info_def try_twice_def call_api_attempt split: prod.splits sum.splits)

lemma fetch_cameras_try_twice:
  assumes "truthy (creds w)" and "cache_stale w (ListDevices now)"
  shows "fetch_cameras L w now =
           (case try_twice L w (ListDevices now) of
              (w2, Inl e) \<Rightarrow> (w2, Inl e)
            | (w2, Inr data) \<Rightarrow>
                (case py_get data (py ''device_list'') (JArr []) of
                   Inl e \<Rightarrow> (w2, Inl e)
                 | Inr dl \<Rightarrow>
                     (case py_iter dl of
                        Inl e \<Rightarrow> (w2, Inl e)
                      | Inr devs \<Rightarrow>
                          (case camera_list L devs of
                             Inl e \<Rightarrow> (w2, Inl e)
                           | Inr cams \<Rightarrow> (w2\<lparr>cameras := cams, cameras_ts := now\<rparr>, Inr cams)))))"
  using assms
  by (auto simp: fetch_cameras_def try_twice_def call_api_attempt split: prod.splits sum.splits)

lemma get_webrtc_signaling_try_twice:
  "get_webrtc_signaling L w m =
     (case try_twice L w (Signaling m) of
        (w2, Inl e) \<Rightarrow> (w2, Inl e)
      | (w2, Inr data) \<Rightarrow> (w2, signaling_result L (creds w2) data))"
  by (auto simp: get_webrtc_signaling_def try_twice_def call_signaling_attempt
      split: prod.splits sum.splits)

lemma perform_try_twice:
  assumes "truthy (creds w)" and "cache_stale w vc"
  shows "calls (fst (perform L w vc)) = calls (fst (try_twice L w vc))
       \<and> (\<forall>e. snd (try_twice L w vc) = Inl e \<longrightarrow> snd (perform L w vc) = Some e)"
proof (cases vc)
  case (ListDevices now)
  with assms show ?thesis
    by (auto simp: fetch_cameras_try_twice raised_def split: prod.splits sum.splits)
next
  case (RunAction m mo act)
  then show ?thesis
    by (auto simp: run_action_try_twice[of _ _ _ _ L] raised_def split: prod.splits sum.splits)
next
  case (SetProperty m mo pid pv)
  then show ?thesis
    by (auto simp: set_property_try_twice raised_def split: prod.splits sum.splits)
next
  case (GetDeviceInfo m mo)
  then show ?thesis
    by (auto simp: get_device_info_try_twice[of _ _ _ L] raised_def split: prod.splits sum.splits)
next
  case (Signaling m)
  then show ?thesis
    by (auto simp: get_webrtc_signaling_try_twice raised_def split: prod.splits sum.splits)
qed

lemma perform_calls:
  "calls (fst (perform L w vc)) = calls w
   \<or> calls (fst (perform L w vc)) = calls (fst (try_twice L w vc))"
proof (cases vc)
  case (ListDevices now)
  show ?thesis
  proof (cases "truthy (creds w) \<and> cache_stale w vc")
    case True
    then show ?thesis using perform_try_twice by blast
  next
    case False
    with ListDevices have "fst (fetch_cameras L w now) = w"
      by (auto simp: fetch_cameras_def)
    with ListDevices show ?thesis by (auto split: prod.splits)
  qed
next
  case (RunAction m mo act)
  then show ?thesis
    by (auto simp: run_action_try_twice[of _ _ _ _ L] split: prod.splits)
next
  case (SetProperty m mo pid pv)
  then show ?thesis
    by (auto simp: set_property_try_twice split: prod.splits)
next
  case (GetDeviceInfo m mo)
  then show ?thesis
    by (auto simp: get_device_info_try_twice[of _ _ _ L] split: prod.splits)
next
  case (Signaling m)
  then show ?thesis
    by (auto simp: get_webrtc_signaling_try_twice split: prod.splits sum.splits)
qed

lemma build_request_endpoint: "build_request L w vc = Inr rq \<Longrightarrow> endpoint rq = endpoint_of vc"
  by (cases vc) (auto split: sum.splits)

lemma endpoint_of_not_refresh: "endpoint_of vc \<noteq> RefreshTokenEP"
  by (cases vc) simp_all

lemma attempt_count:
  assumes "attempt w (build_request L w0 vc) = (w', res)"
  shows "count_calls (endpoint_of vc) (calls w') \<le> count_calls (endpoint_of vc) (calls w) + 1"
proof (cases "build_request L w0 vc")
  case (Inl e)
  with assms show ?thesis by (simp add: attempt_def)
next
  case (Inr rq)
  with assms attempt_shape obtain rs where
    "calls w' = calls w @ rq # rs" "list_all (\<lambda>q. endpoint q = RefreshTokenEP) rs"
    by metis
  then show ?thesis
    by (simp add: count_calls_refresh endpoint_of_not_refresh)
qed

lemma try_twice_count:
  "count_calls (endpoint_of vc) (calls (fst (try_twice L w vc)))
     \<le> count_calls (endpoint_of vc) (calls w) + 2"
proof -
  obtain w1 r1 where a1: "attempt w (build_request L w vc) = (w1, r1)"
    by (cases "attempt w (build_request L w vc)")
  obtain w2 r2 where a2: "attempt w1 (build_request L w1 vc) = (w2, r2)"
    by (cases "attempt w1 (build_request L w1 vc)")
  from attempt_count[OF a1] attempt_count[OF a2] a1 a2 show ?thesis
    by (auto simp: try_twice_def)
qed

lemma try_twice_scenario:
  assumes c: "creds w = JObj c"
    and a: "map_of c (py ''access_token'') = Some a"
    and r: "map_of c (py ''refresh_token'') = Some r"
    and p: "map_of c (py ''phone_id'') = Some p"
    and v: "vendor w = Resp s1 t1 (JsonText (JObj b1)) # Resp s2 t2 (JsonText (JObj b2)) # rest"
    and e1: "expired b1" and s2: "success b2" and d: "dget b2 (py ''data'') (JObj b2) = JObj d"
  shows "\<exists>more. calls (fst (try_twice L w vc))
             = calls w @ [request_for L vc a p, refresh_request a p r,
                          request_for L vc (dget d (py ''access_token'') a) p] @ more
          \<and> list_all (\<lambda>q. endpoint q = RefreshTokenEP) more
          \<and> (\<not> expired_next rest \<longrightarrow> more = [])
          \<and> (expired_next rest \<longrightarrow>
               (\<exists>more'. more = refresh_request (dget d (py ''access_token'') a) p
                                  (dget d (py ''refresh_token'') r) # more')
               \<and> (\<exists>e. snd (try_twice L w vc) = Inl e))
          \<and> (\<forall>s3 t3 b3 s4 t4 b4 d4 rest'.
                 rest = Resp s3 t3 (JsonText (JObj b3)) # Resp s4 t4 (JsonText (JObj b4)) # rest'
                 \<and> expired b3 \<and> success b4 \<and> dget b4 (py ''data'') (JObj b4) = JObj d4 \<longrightarrow>
                 more = [refresh_request (dget d (py ''access_token'') a) p (dget d (py ''refresh_token'') r)]
               \<and> snd (try_twice L w vc) = Inl TokenRefreshed)"
proof -
  define a' where "a' = dget d (py ''access_token'') a"
  define r' where "r' = dget d (py ''refresh_token'') r"
  define c2 where "c2 = dict_set (py ''refresh_token'') r' (dict_set (py ''access_token'') a' c)"
  define w1 where "w1 = w\<lparr>creds := JObj c2, token_file := Some (JsonText (JObj c2)), vendor := rest,
                         calls := calls w @ [request_for L vc a p, refresh_request a p r]\<rparr>"
  have b0: "build_request L w vc = Inr (request_for L vc a p)"
    using c a p by (cases vc) (simp_all add: payload_def)
  have at1: "attempt w (Inr (request_for L vc a p)) = (w1, Inl TokenRefreshed)"
    unfolding w1_def c2_def a'_def r'_def
    by (rule attempt_expired_refreshed[OF c a r p v e1 s2 d])
  have c1: "creds w1 = JObj c2" and v1: "vendor w1 = rest"
    and k1: "calls w1 = calls w @ [request_for L vc a p, refresh_request a p r]"
    by (simp_all add: w1_def)
  have m1: "map_of c2 (py ''access_token'') = Some a'" "map_of c2 (py ''refresh_token'') = Some r'"
           "map_of c2 (py ''phone_id'') = Some p"
    using p by (simp_all add: c2_def map_of_dict_set)
  have b1: "build_request L w1 vc = Inr (request_for L vc a' p)"
    using c1 m1 by (cases vc) (simp_all add: payload_def)
  obtain w2 r2 where at2: "attempt w1 (Inr (request_for L vc a' p)) = (w2, r2)"
    by (cases "attempt w1 (Inr (request_for L vc a' p))")
  have tt: "try_twice L w vc = (w2, r2)"
    by (simp add: try_twice_def b0 at1 b1 at2)
  from attempt_shape[OF at2] obtain more where
    k2: "calls w2 = calls w1 @ request_for L vc a' p # more"
    and l2: "list_all (\<lambda>q. endpoint q = RefreshTokenEP) more"
    by blast
  have n: "more = []" if "\<not> expired_next rest"
    using attempt_no_refresh[OF at2] that v1 k2 by simp
  have x: "(\<exists>more'. more = refresh_request a' p r' # more') \<and> (\<exists>e. r2 = Inl e)" if "expired_next rest"
  proof -
    from that v1 have "expired_next (vendor w1)" by simp
    from attempt_expired[OF c1 m1 this at2] k2 show ?thesis by auto
  qed
  have y: "more = [refresh_request a' p r'] \<and> r2 = Inl TokenRefreshed"
    if "rest = Resp s3 t3 (JsonText (JObj b3)) # Resp s4 t4 (JsonText (JObj b4)) # rest'
        \<and> expired b3 \<and> success b4 \<and> dget b4 (py ''data'') (JObj b4) = JObj d4"
    for s3 t3 b3 s4 t4 b4 d4 rest'
  proof -
    from that v1 have vv: "vendor w1 = Resp s3 t3 (JsonText (JObj b3)) # Resp s4 t4 (JsonText (JObj b4)) # rest'"
      and ee: "expired b3" and ss: "success b4" and dd: "dget b4 (py ''data'') (JObj b4) = JObj d4"
      by simp_all
    from attempt_expired_refreshed[OF c1 m1 vv ee ss dd, of "request_for L vc a' p"] at2 k2
    show ?thesis by auto
  qed
  from k1 k2 have "calls (fst (try_twice L w vc))
             = calls w @ [request_for L vc a p, refresh_request a p r, request_for L vc a' p] @ more"
    by (simp add: tt)
  with l2 n x y show ?thesis
    unfolding a'_def r'_def by (simp add: tt) blast
qed


text \<open>
  C1 (as amended). Each of the five authenticated vendor calls (device listing,
  \<open>run_action\<close>, \<open>set_property\<close>, \<open>get_device_info\<close>, signaling) sends its own request at
  most twice, whatever the vendor replies. When the first reply carries the token-expired
  code and the refresh that follows succeeds, the trace is: the request with the old
  access token, one refresh request, the request once more with the refreshed access
  token, and after these only refresh requests. There are none of those unless the
  reply to the retry carries the token-expired code too; if it does, the client sends a
  second refresh request with the refreshed tokens and the call ends with an exception,
  without a third issue of its request. When that second refresh succeeds as well, it
  is the last request, so there are two refresh requests in the trace, and the exception
  is \<open>TokenRefreshed\<close>.
\<close>

theorem refresh_retry_once:
  "count_calls (endpoint_of vc) (calls (fst (perform L w vc)))
     \<le> count_calls (endpoint_of vc) (calls w) + 2
   \<and> (creds w = JObj c
        \<and> map_of c (py ''access_token'') = Some a
        \<and> map_of c (py ''refresh_token'') = Some r
        \<and> map_of c (py ''phone_id'') = Some p
        \<and> cache_stale w vc
        \<and> vendor w = Resp s1 t1 (JsonText (JObj b1)) # Resp s2 t2 (JsonText (JObj b2)) # rest
        \<and> expired b1 \<and> success b2 \<and> dget b2 (py ''data'') (JObj b2) = JObj d
      \<longrightarrow>
        (\<exists>more. calls (fst (perform L w vc))
             = calls w @ [request_for L vc a p, refresh_request a p r,
                          request_for L vc (dget d (py ''access_token'') a) p] @ more
          \<and> list_all (\<lambda>q. endpoint q = RefreshTokenEP) more
          \<and> (\<not> expired_next rest \<longrightarrow> more = [])
          \<and> (expired_next rest \<longrightarrow>
               (\<exists>more'. more = refresh_request (dget d (py ''access_token'') a) p
                                  (dget d (py ''refresh_token'') r) # more')
               \<and> snd (perform L w vc) \<noteq> None)
          \<and> (\<forall>s3 t3 b3 s4 t4 b4 d4 rest'.
                 rest = Resp s3 t3 (JsonText (JObj b3)) # Resp s4 t4 (JsonText (JObj b4)) # rest'
                 \<and> expired b3 \<and> success b4 \<and> dget b4 (py ''data'') (JObj b4) = JObj d4 \<longrightarrow>
                 more = [refresh_request (dget d (py ''access_token'') a) p (dget d (py ''refresh_token'') r)]
               \<and> snd (perform L w vc) = Some TokenRefreshed)))"
proof (intro conjI impI)
  show "count_calls (endpoint_of vc) (calls (fst (perform L w vc)))
     \<le> count_calls (endpoint_of vc) (calls w) + 2"
    using perform_calls[of L w vc] try_twice_count[of vc L w] by auto
next
  assume h: "creds w = JObj c
        \<and> map_of c (py ''access_token'') = Some a
        \<and> map_of c (py ''refresh_token'') = Some r
        \<and> map_of c (py ''phone_id'') = Some p
        \<and> cache_stale w vc
        \<and> vendor w = Resp s1 t1 (JsonText (JObj b1)) # Resp s2 t2 (JsonText (JObj b2)) # rest
        \<and> expired b1 \<and> success b2 \<and> dget b2 (py ''data'') (JObj b2) = JObj d"
  then have t: "truthy (creds w)" by auto
  from h have st: "cache_stale w vc" by simp
  note pt = perform_try_twice[OF t st, of L]
  from h have hc: "creds w = JObj c"
    and ha: "map_of c (py ''access_token'') = Some a"
    and hr: "map_of c (py ''refresh_token'') = Some r"
    and hp: "map_of c (py ''phone_id'') = Some p"
    and hv: "vendor w = Resp s1 t1 (JsonText (JObj b1)) # Resp s2 t2 (JsonText (JObj b2)) # rest"
    and he: "expired b1" and hs: "success b2" and hd: "dget b2 (py ''data'') (JObj b2) = JObj d"
    by simp_all
  from try_twice_scenario[OF hc ha hr hp hv he hs hd, of L vc] obtain more where
    m1: "calls (fst (try_twice L w vc))
             = calls w @ [request_for L vc a p, refresh_request a p r,
                          request_for L vc (dget d (py ''access_token'') a) p] @ more"
    and m2: "list_all (\<lambda>q. endpoint q = RefreshTokenEP) more"
    and m3: "\<not> expired_next rest \<longrightarrow> more = []"
    and m4: "expired_next rest \<longrightarrow>
               (\<exists>more'. more = refresh_request (dget d (py ''access_token'') a) p
                                  (dget d (py ''refresh_token'') r) # more')
               \<and> (\<exists>e. snd (try_twice L w vc) = Inl e)"
    and m5: "\<forall>s3 t3 b3 s4 t4 b4 d4 rest'.
                 rest = Resp s3 t3 (JsonText (JObj b3)) # Resp s4 t4 (JsonText (JObj b4)) # rest'
                 \<and> expired b3 \<and> success b4 \<and> dget b4 (py ''data'') (JObj b4) = JObj d4 \<longrightarrow>
                 more = [refresh_request (dget d (py ''access_token'') a) p (dget d (py ''refresh_token'') r)]
               \<and> snd (try_twice L w vc) = Inl TokenRefreshed"
    by blast
  have "calls (fst (perform L w vc))
             = calls w @ [request_for L vc a p, refresh_request a p r,
                          request_for L vc (dget d (py ''access_token'') a) p] @ more"
    using pt m1 by simp
  moreover have "expired_next rest \<longrightarrow>
               (\<exists>more'. more = refresh_request (dget d (py ''access_token'') a) p
                                  (dget d (py ''refresh_token'') r) # more')
               \<and> snd (perform L w vc) \<noteq> None"
    using pt m4 by auto
  moreover have "\<forall>s3 t3 b3 s4 t4 b4 d4 rest'.
                 rest = Resp s3 t3 (JsonText (JObj b3)) # Resp s4 t4 (JsonText (JObj b4)) # rest'
                 \<and> expired b3 \<and> success b4 \<and> dget b4 (py ''data'') (JObj b4) = JObj d4 \<longrightarrow>
                 more = [refresh_request (dget d (py ''access_token'') a) p (dget d (py ''refresh_token'') r)]
               \<and> snd (perform L w vc) = Some TokenRefreshed"
    using pt m5 by blast
  ultimately show "\<exists>more. calls (fst (perform L w vc))
             = calls w @ [request_for L vc a p, refresh_request a p r,
                          request_for L vc (dget d (py ''access_token'') a) p] @ more
          \<and> list_all (\<lambda>q. endpoint q = RefreshTokenEP) more
          \<and> (\<not> expired_next rest \<longrightarrow> more = [])
          \<and> (expired_next rest \<longrightarrow>
               (\<exists>more'. more = refresh_request (dget d (py ''access_token'') a) p
                                  (dget d (py ''refresh_token'') r) # more')
               \<and> snd (perform L w vc) \<noteq> None)
          \<and> (\<forall>s3 t3 b3 s4 t4 b4 d4 rest'.
                 rest = Resp s3 t3 (JsonText (JObj b3)) # Resp s4 t4 (JsonText (JObj b4)) # rest'
                 \<and> expired b3 \<and> success b4 \<and> dget b4 (py ''data'') (JObj b4) = JObj d4 \<longrightarrow>
                 more = [refresh_request (dget d (py ''access_token'') a) p (dget d (py ''refresh_token'') r)]
               \<and> snd (perform L w vc) = Some TokenRefreshed)"
    using m2 m3 by blast
qed

text \<open>
  C4. When \<open>fetch_cameras\<close> raises, whatever the reason (the listing call, the refresh
  or the retry fails, or the reply cannot be normalized), the cached entries and the
  fetch time stamp are what they were before the call. And when the cache cannot answer
  and the listing call with its retry ends in an exception, \<open>fetch_cameras\<close> raises that
  exception: the caller gets no list, stale or other.
\<close>

theorem failed_refresh_keeps_cache:
  "(fetch_cameras L w now = (w', Inl e) \<longrightarrow>
      cameras w' = cameras w \<and> cameras_ts w' = cameras_ts w)
   \<and> (truthy (creds w) \<and> (cameras w = [] \<or> 120 \<le> now - cameras_ts w)
        \<and> try_twice L w (ListDevices now) = (w2, Inl e) \<longrightarrow>
      fetch_cameras L w now = (w2, Inl e))"
proof (rule conjI)
  show "fetch_cameras L w now = (w', Inl e) \<longrightarrow>
      cameras w' = cameras w \<and> cameras_ts w' = cameras_ts w"
    using fetch_cameras_failure[of L w now w' e] by blast
next
  show "truthy (creds w) \<and> (cameras w = [] \<or> 120 \<le> now - cameras_ts w)
        \<and> try_twice L w (ListDevices now) = (w2, Inl e) \<longrightarrow>
      fetch_cameras L w now = (w2, Inl e)"
  proof (rule impI)
    assume a: "truthy (creds w) \<and> (cameras w = [] \<or> 120 \<le> now - cameras_ts w)
        \<and> try_twice L w (ListDevices now) = (w2, Inl e)"
    then have s: "cache_stale w (ListDevices now)" by (simp add: CACHE_TTL_def)
    from a have t: "truthy (creds w)" by simp
    from a have r: "try_twice L w (ListDevices now) = (w2, Inl e)" by simp
    show "fetch_cameras L w now = (w2, Inl e)"
      by (simp add: fetch_cameras_try_twice[OF t s] r)
  qed
qed

subsection \<open>What a refresh changes\<close>

lemma tokens_only_refl [simp]: "tokens_only w w"
  by (simp add: tokens_only_def)

lemma tokens_only_trans:
  assumes "tokens_only w w1" and "tokens_only w1 w2"
  shows "tokens_only w w2"
proof (cases "creds w1 = creds w")
  case True
  with assms(2) show ?thesis by (simp add: tokens_only_def)
next
  case False
  with assms(1) obtain c c1 where 1: "creds w = JObj c" "creds w1 = JObj c1" "map fst c1 = map fst c"
      "\<forall>k. k \<noteq> py ''access_token'' \<and> k \<noteq> py ''refresh_token'' \<longrightarrow> map_of c1 k = map_of c k"
    by (auto simp: tokens_only_def)
  show ?thesis
  proof (cases "creds w2 = creds w1")
    case True
    with 1 show ?thesis unfolding tokens_only_def by auto
  next
    case False
    with assms(2) 1 obtain c2 where 2: "creds w2 = JObj c2" "map fst c2 = map fst c1"
      "\<forall>k. k \<noteq> py ''access_token'' \<and> k \<noteq> py ''refresh_token'' \<longrightarrow> map_of c2 k = map_of c1 k"
      by (auto simp: tokens_only_def)
    with 1 show ?thesis unfolding tokens_only_def by auto
  qed
qed

lemma tokens_only_same: "creds w' = creds w \<Longrightarrow> tokens_only w w'"
  by (simp add: tokens_only_def)

lemma validate_refresh_tokens_only:
  "(\<forall>w' r. validate w resp = (w', r) \<longrightarrow> tokens_only w w')"
  "(\<forall>w' r. refresh_token w = (w', r) \<longrightarrow> tokens_only w w')"
proof (induction w resp and w rule: validate_refresh_token.induct)
  case (1 w resp)
  show ?case
  proof (intro allI impI)
    fix w' r assume v: "validate w resp = (w', r)"
    obtain s t bd where resp: "resp = (s, t, bd)" by (cases resp)
    show "tokens_only w w'"
    proof (cases "expired_next [Resp s t bd]")
      case False
      with validate_no_refresh[OF v] resp show ?thesis by simp
    next
      case True
      then obtain b where bd: "bd = JsonText (JObj b)" and e: "expired b"
        by (auto elim: expired_next_cases)
      have "\<forall>w' r. refresh_token w = (w', r) \<longrightarrow> tokens_only w w'"
        using "1.IH"[of "JObj b" b] resp bd e by (simp add: expired_def)
      moreover obtain w'' r'' where rt: "refresh_token w = (w'', r'')" by (cases "refresh_token w")
      moreover have "w' = w''"
        using v resp bd e rt by (auto simp: validate_expired split: sum.splits)
      ultimately show ?thesis by blast
    qed
  qed
next
  case (2 w)
  show ?case
  proof (intro allI impI)
    fix w' r assume rt: "refresh_token w = (w', r)"
    show "tokens_only w w'"
    proof (cases "payload w")
      case (Inl e)
      with rt show ?thesis by (subst (asm) refresh_token.simps) simp
    next
      case (Inr tp)
      show ?thesis
      proof (cases "subscript (creds w) (py ''refresh_token'')")
        case (Inl e)
        with rt Inr show ?thesis by (subst (asm) refresh_token.simps) simp
      next
        case rtk: (Inr rtv)
        obtain w1 y where snd: "send w \<lparr>endpoint = RefreshTokenEP, access = fst tp, args = [snd tp, rtv]\<rparr> = (w1, y)"
          by (cases "send w \<lparr>endpoint = RefreshTokenEP, access = fst tp, args = [snd tp, rtv]\<rparr>")
        from send_cases[OF snd] have f1: "tokens_only w w1" by (simp add: tokens_only_def)
        show ?thesis
        proof (cases y)
          case (Inl e)
          with rt Inr rtk snd f1 show ?thesis by (subst (asm) refresh_token.simps) simp
        next
          case yr: (Inr resp)
          obtain w2 r2 where v: "validate w1 resp = (w2, r2)" by (cases "validate w1 resp")
          have "\<forall>w' r. validate w1 resp = (w', r) \<longrightarrow> tokens_only w1 w'"
            using "2.IH"[OF Inr rtk snd[symmetric] yr] .
          with v have f2: "tokens_only w1 w2" by blast
          have f3: "tokens_only w2 w'"
          proof (cases "\<exists>c a. creds w2 = JObj c \<and> map_of c (py ''access_token'') = Some a")
            case False
            then have "subscript (creds w2) (py ''access_token'') = Inl KeyError
                       \<or> subscript (creds w2) (py ''access_token'') = Inl TypeError"
              by (cases "creds w2") (auto split: option.splits)
            with rt Inr rtk snd yr v have "w' = w2"
              by (subst (asm) refresh_token.simps) (auto split: sum.splits json.splits)
            then show ?thesis by simp
          next
            case True
            then obtain c a where c: "creds w2 = JObj c" and a: "map_of c (py ''access_token'') = Some a"
              by blast
            have k1: "map fst (dict_set (py ''access_token'') x c) = map fst c" for x
              using a by (rule keys_dict_set)
            have k2: "map fst (dict_set (py ''refresh_token'') y (dict_set (py ''access_token'') x c)) = map fst c"
              if "map_of (dict_set (py ''access_token'') x c) (py ''refresh_token'') = Some z" for x y z
              using keys_dict_set[OF that] k1 by simp
            from rt Inr rtk snd yr v c a show ?thesis
              by (subst (asm) refresh_token.simps)
                 (auto simp: tokens_only_def save_tokens_def Let_def map_of_dict_set k1 k2
                       split: sum.splits json.splits option.splits)
          qed
          from f1 f2 f3 show ?thesis by (blast intro: tokens_only_trans)
        qed
      qed
    qed
  qed
qed

lemma validate_tokens_only: "validate w resp = (w', r) \<Longrightarrow> tokens_only w w'"
  using validate_refresh_tokens_only(1) by blast

lemma refresh_token_tokens_only: "refresh_token w = (w', r) \<Longrightarrow> tokens_only w w'"
  using validate_refresh_tokens_only(2) by blast

lemma tokens_only_truthy: "tokens_only w w' \<Longrightarrow> truthy (creds w) \<Longrightarrow> truthy (creds w')"
  unfolding tokens_only_def by (cases "creds w' = creds w") auto

text \<open>
  C10. Whatever \<open>_refresh_token\<close> does, the credential afterwards is the one before or a
  dictionary with the same keys in the same order that differs from it at most under
  \<open>access_token\<close> and \<open>refresh_token\<close>. When \<open>_refresh_token\<close> returns normally, the reply
  it got is a success reply whose data is a dictionary \<open>d\<close>; the \<open>access_token\<close> of the
  credential is the one of \<open>d\<close> if \<open>d\<close> has one and the stored one if \<open>d\<close> omits it, and
  likewise its \<open>refresh_token\<close>; every other field (the \<open>phone_id\<close> among them) is
  unchanged; the token file holds the credential as it is after the change; the camera
  cache is untouched.
\<close>

theorem refresh_keeps_other_fields:
  "(refresh_token w = (w', res) \<longrightarrow> tokens_only w w')
   \<and> (refresh_token w = (w', Inr u) \<longrightarrow>
       (\<exists>c c' a r st ct b rest d.
           creds w = JObj c \<and> creds w' = JObj c'
         \<and> vendor w = Resp st ct (JsonText (JObj b)) # rest
         \<and> dget b (py ''data'') (JObj b) = JObj d
         \<and> map_of c (py ''access_token'') = Some a
         \<and> map_of c (py ''refresh_token'') = Some r
         \<and> map_of c' (py ''access_token'')
              = Some (case map_of d (py ''access_token'') of None \<Rightarrow> a | Some v \<Rightarrow> v)
         \<and> map_of c' (py ''refresh_token'')
              = Some (case map_of d (py ''refresh_token'') of None \<Rightarrow> r | Some v \<Rightarrow> v)
         \<and> (\<forall>k. k \<noteq> py ''access_token'' \<and> k \<noteq> py ''refresh_token'' \<longrightarrow> map_of c' k = map_of c k)
         \<and> map fst c' = map fst c
         \<and> token_file w' = Some (JsonText (creds w'))
         \<and> cameras w' = cameras w \<and> cameras_ts w' = cameras_ts w))"
  using refresh_token_tokens_only [of w w' res] refresh_token_success_fields [of w w' u]
  by blast

subsection \<open>The states of a running server\<close>

lemma keeps_owner:
  "cache_has_owner w \<Longrightarrow> tokens_only w w' \<Longrightarrow> cameras w' = cameras w \<Longrightarrow> cache_has_owner w'"
  by (auto simp: cache_has_owner_def dest: tokens_only_truthy)

lemma attempt_keeps:
  assumes "attempt w q = (w', r)"
  shows "tokens_only w w' \<and> cameras w' = cameras w"
proof (cases q)
  case (Inl e)
  with assms show ?thesis by (simp add: attempt_def)
next
  case (Inr rq)
  obtain w1 y where sn: "send w rq = (w1, y)" by (cases "send w rq")
  note s1 = send_cases[OF sn]
  show ?thesis
  proof (cases y)
    case (Inl e)
    with assms Inr sn s1 show ?thesis by (auto simp: attempt_def tokens_only_def)
  next
    case yr: (Inr resp)
    with assms Inr sn have v: "validate w1 resp = (w', r)" by (simp add: attempt_def)
    from validate_tokens_only[OF v] validate_frame[OF v] s1 show ?thesis
      by (auto simp: tokens_only_def refreshes_only_def)
  qed
qed

lemma try_twice_keeps:
  assumes "try_twice L w vc = (w', r)"
  shows "tokens_only w w' \<and> cameras w' = cameras w"
proof -
  obtain w1 r1 where a1: "attempt w (build_request L w vc) = (w1, r1)"
    by (cases "attempt w (build_request L w vc)")
  obtain w2 r2 where a2: "attempt w1 (build_request L w1 vc) = (w2, r2)"
    by (cases "attempt w1 (build_request L w1 vc)")
  from assms a1 a2 have "w' = w1 \<or> w' = w2" by (auto simp: try_twice_def split: if_splits)
  with attempt_keeps[OF a1] attempt_keeps[OF a2] show ?thesis
    by (auto intro: tokens_only_trans)
qed

lemma try_twice_owner:
  "cache_has_owner w \<Longrightarrow> cache_has_owner (fst (try_twice L w vc))"
  using try_twice_keeps[of L w vc] keeps_owner by (cases "try_twice L w vc") auto

lemma fetch_cameras_owner:
  assumes "cache_has_owner w"
  shows "cache_has_owner (fst (fetch_cameras L w now))"
proof (cases "truthy (creds w) \<and> cache_stale w (ListDevices now)")
  case False
  then have "fst (fetch_cameras L w now) = w" by (auto simp: fetch_cameras_def)
  with assms show ?thesis by simp
next
  case True
  obtain w2 r2 where tt: "try_twice L w (ListDevices now) = (w2, r2)"
    by (cases "try_twice L w (ListDevices now)")
  from try_twice_keeps[OF tt] True have t2: "truthy (creds w2)"
    by (auto dest: tokens_only_truthy)
  have "creds (fst (fetch_cameras L w now)) = creds w2"
    using True tt by (auto simp: fetch_cameras_try_twice split: sum.splits)
  with t2 show ?thesis by (simp add: cache_has_owner_def)
qed

lemma cache_has_owner_ts [simp]: "cache_has_owner (w\<lparr>cameras_ts := t\<rparr>) = cache_has_owner w"
  by (simp add: cache_has_owner_def)

lemma find_camera_owner:
  "cache_has_owner w \<Longrightarrow> cache_has_owner (fst (find_camera L w now uri))"
  using fetch_cameras_owner[of w L now]
  by (auto simp: find_camera_def split: prod.splits sum.splits)

lemma get_thumbnail_owner:
  "cache_has_owner w \<Longrightarrow> cache_has_owner (fst (get_thumbnail w url))"
  by (auto simp: get_thumbnail_def send_def cache_has_owner_def
      split: json.splits list.splits reply.splits)

lemma run_action_owner: "cache_has_owner w \<Longrightarrow> cache_has_owner (fst (run_action w m mo act))"
  using try_twice_owner[of w sample_lib "RunAction m mo act"]
  by (simp add: run_action_try_twice[of _ _ _ _ sample_lib])

lemma set_property_owner:
  "cache_has_owner w \<Longrightarrow> cache_has_owner (fst (set_property L w m mo pid pv))"
  using try_twice_owner[of w L "SetProperty m mo pid pv"] by (simp add: set_property_try_twice)

lemma get_device_info_owner:
  "cache_has_owner w \<Longrightarrow> cache_has_owner (fst (get_device_info w m mo))"
  using try_twice_owner[of w sample_lib "GetDeviceInfo m mo"]
  by (simp add: get_device_info_try_twice[of _ _ _ sample_lib])

lemma get_webrtc_signaling_owner:
  "cache_has_owner w \<Longrightarrow> cache_has_owner (fst (get_webrtc_signaling L w m))"
  using try_twice_owner[of w L "Signaling m"]
  by (auto simp: get_webrtc_signaling_try_twice split: prod.splits sum.splits)

lemma owner_after:
  "cache_has_owner w \<Longrightarrow> run_action w m mo act = (w', r) \<Longrightarrow> cache_has_owner w'"
  "cache_has_owner w \<Longrightarrow> set_property L w m mo pid pv = (w', r) \<Longrightarrow> cache_has_owner w'"
  "cache_has_owner w \<Longrightarrow> get_device_info w m mo = (w', r) \<Longrightarrow> cache_has_owner w'"
  "cache_has_owner w \<Longrightarrow> get_webrtc_signaling L w m = (w', r) \<Longrightarrow> cache_has_owner w'"
  "cache_has_owner w \<Longrightarrow> get_thumbnail w url = (w', g) \<Longrightarrow> cache_has_owner w'"
  using run_action_owner[of w m mo act] set_property_owner[of w L m mo pid pv]
    get_device_info_owner[of w m mo] get_webrtc_signaling_owner[of w L m]
    get_thumbnail_owner[of w url]
  by simp_all

lemma api_cameras_owner: "cache_has_owner w \<Longrightarrow> cache_has_owner (fst (api_cameras L w now))"
  using fetch_cameras_owner[of w L now]
  by (auto simp: api_cameras_def split: prod.splits sum.splits)

lemma api_camera_detail_owner:
  "cache_has_owner w \<Longrightarrow> cache_has_owner (fst (api_camera_detail L w now uri))"
  using find_camera_owner[of w L now uri]
  by (auto simp: api_camera_detail_def split: prod.splits sum.splits option.splits)

lemma api_camera_info_owner:
  assumes "cache_has_owner w"
  shows "cache_has_owner (fst (api_camera_info L w now uri))"
proof -
  obtain w1 r1 where f: "find_camera L w now uri = (w1, r1)" by (cases "find_camera L w now uri")
  with find_camera_owner[OF assms, of L now uri] have o: "cache_has_owner w1" by simp
  show ?thesis
    using f o
    by (auto simp: api_camera_info_def dest: owner_after split: prod.splits sum.splits option.splits)
qed

lemma api_camera_action_owner:
  assumes "cache_has_owner w"
  shows "cache_has_owner (fst (api_camera_action L w now uri action qvalue))"
proof -
  obtain w1 r1 where f: "find_camera L w now uri = (w1, r1)" by (cases "find_camera L w now uri")
  with find_camera_owner[OF assms, of L now uri] have o: "cache_has_owner w1" by simp
  show ?thesis
    using f o
    by (auto simp: api_camera_action_def dest: owner_after split: prod.splits sum.splits option.splits)
qed

lemma api_refresh_owner: "cache_has_owner w \<Longrightarrow> cache_has_owner (fst (api_refresh L w now))"
  using fetch_cameras_owner[of "w\<lparr>cameras_ts := 0\<rparr>" L now]
  by (auto simp: api_refresh_def split: prod.splits sum.splits)

lemma api_signaling_owner:
  assumes "cache_has_owner w"
  shows "cache_has_owner (fst (api_signaling L w now uri))"
proof -
  obtain w1 r1 where f: "find_camera L w now uri = (w1, r1)" by (cases "find_camera L w now uri")
  with find_camera_owner[OF assms, of L now uri] have o: "cache_has_owner w1" by simp
  show ?thesis
    using f o
    by (auto simp: api_signaling_def dest: owner_after
        split: prod.splits sum.splits option.splits json.splits)
qed

lemma api_thumbnail_owner:
  assumes "cache_has_owner w"
  shows "cache_has_owner (fst (api_thumbnail L w now now' uri))"
proof -
  obtain w1 r1 where f: "find_camera L w now uri = (w1, r1)" by (cases "find_camera L w now uri")
  with find_camera_owner[OF assms, of L now uri] have o1: "cache_has_owner w1" by simp
  show ?thesis
  proof (cases "\<exists>cam. r1 = Inr (Some cam) \<and> truthy (thumbnail cam)")
    case False
    with f o1 show ?thesis
      by (auto simp: api_thumbnail_def split: prod.splits sum.splits option.splits)
  next
    case True
    then obtain cam where r1: "r1 = Inr (Some cam)" and tc: "truthy (thumbnail cam)" by blast
    obtain w2 g2 where g: "get_thumbnail w1 (thumbnail cam) = (w2, g2)"
      by (cases "get_thumbnail w1 (thumbnail cam)")
    with get_thumbnail_owner[OF o1, of "thumbnail cam"] have o2: "cache_has_owner w2" by simp
    obtain w3 r3 where fc: "fetch_cameras L (w2\<lparr>cameras_ts := 0\<rparr>) now' = (w3, r3)"
      by (cases "fetch_cameras L (w2\<lparr>cameras_ts := 0\<rparr>) now'")
    with fetch_cameras_owner[of "w2\<lparr>cameras_ts := 0\<rparr>" L now'] o2 have o3: "cache_has_owner w3"
      by simp
    show ?thesis
      using f r1 tc g o2 fc o3
      by (auto simp: api_thumbnail_def dest: owner_after split: prod.splits sum.splits option.splits)
  qed
qed

lemma dict_set_not_Nil: "dict_set k v d \<noteq> []"
  by (cases d) (auto split: if_splits)

lemma wyze_login_owner:
  assumes "wyze_login L w email pw ak kid pid = (w', Inr d)"
  shows "truthy (creds w')"
  using assms
  by (auto simp: wyze_login_def save_tokens_def dict_set_not_Nil
      split: sum.splits prod.splits json.splits)

lemma main_owner:
  assumes "main L env phone_id now now' (fresh_world f rs) = (w, None)"
  shows "cache_has_owner w"
proof -
  let ?w0 = "fresh_world f rs"
  obtain w1 l where lt: "load_tokens ?w0 = (w1, l)" by (cases "load_tokens ?w0")
  with assms obtain loaded where l: "l = Inr loaded"
    by (cases l) (auto simp: main_def)
  from lt have c1: "cameras w1 = []"
    by (auto simp: load_tokens_def fresh_world_def split: option.splits body.splits)
  then have o1: "cache_has_owner w1" by (simp add: cache_has_owner_def)
  define w2 where "w2 = (if loaded
                 then (case fetch_cameras L w1 now of
                         (w', Inl e) \<Rightarrow> w'\<lparr>creds := JNull\<rparr>
                       | (w', Inr cams) \<Rightarrow> w')
                 else w1)"
  have o2: "cache_has_owner w2"
  proof (cases "loaded \<and> (\<exists>w' e. fetch_cameras L w1 now = (w', Inl e))")
    case True
    then obtain w' e where fc: "fetch_cameras L w1 now = (w', Inl e)" by blast
    obtain wa ra where a1: "call_api w1 GetObjectListEP [] = (wa, ra)"
      by (cases "call_api w1 GetObjectListEP []")
    obtain wb rb where a2: "call_api wa GetObjectListEP [] = (wb, rb)"
      by (cases "call_api wa GetObjectListEP []")
    from fc a1 a2 call_api_cache[OF a1] call_api_cache[OF a2] have "cameras w' = cameras w1"
      by (auto simp: fetch_cameras_def split: if_splits sum.splits)
    with True fc c1 show ?thesis by (simp add: w2_def cache_has_owner_def)
  next
    case False
    with o1 fetch_cameras_owner[OF o1, of L now] show ?thesis
      by (auto simp: w2_def split: prod.splits sum.splits)
  qed
  show ?thesis
  proof (cases "truthy (creds w2)")
    case True
    with assms lt l have "w = w2" by (simp add: main_def w2_def)
    with o2 show ?thesis by simp
  next
    case False
    with assms lt l obtain w3 d where
      lg: "wyze_login L w2 (env_val (WYZE_EMAIL env)) (env_val (WYZE_PASSWORD env))
                           (env_val (API_KEY env)) (env_val (API_ID env)) phone_id = (w3, Inr d)"
      and fin: "fst (fetch_cameras L w3 now') = w"
      by (auto simp: main_def w2_def[symmetric] split: if_splits prod.splits sum.splits)
    from wyze_login_owner[OF lg] have "cache_has_owner w3" by (simp add: cache_has_owner_def)
    from fetch_cameras_owner[OF this, of L now'] fin show ?thesis by simp
  qed
qed

lemma reachable_owner: "reachable L w \<Longrightarrow> cache_has_owner w"
proof (induction rule: reachable.induct)
  case (started env phone_id now now' f rs w)
  then show ?case by (rule main_owner)
qed (simp_all add: api_cameras_owner api_camera_detail_owner api_camera_info_owner
       api_camera_action_owner api_refresh_owner api_signaling_owner api_thumbnail_owner)

lemma payload_truthy: "payload w = Inr tp \<Longrightarrow> truthy (creds w)"
  by (cases "creds w") (auto simp: payload_def split: option.splits sum.splits)

text \<open>
  C3. In every state that a running server reaches, if the cache has entries and is
  younger than 120 seconds, \<open>fetch_cameras\<close> returns the cached list and leaves the state
  as it is, so no request is sent. If the cache is empty or at least 120 seconds old,
  and the credential has the access token and the phone id that a request carries, the
  call sends the device-listing request; the requests after it are refresh requests and
  at most one more device-listing request, the retry, and there are none at all unless
  the first reply carries the token-expired code; when the call returns a list, that list
  is the new cache and the time of the call is the new fetch time stamp.
\<close>

theorem fetch_cameras_cache:
  "(reachable L w \<and> cameras w \<noteq> [] \<and> now - cameras_ts w < 120 \<longrightarrow>
      fetch_cameras L w now = (w, Inr (cameras w)))
   \<and> ((cameras w = [] \<or> 120 \<le> now - cameras_ts w) \<and> payload w = Inr (tok, pid) \<longrightarrow>
        (\<exists>rs. calls (fst (fetch_cameras L w now))
                 = calls w @ \<lparr>endpoint = GetObjectListEP, access = tok, args = [pid]\<rparr> # rs
             \<and> count_calls GetObjectListEP rs \<le> 1
             \<and> list_all (\<lambda>q. endpoint q = GetObjectListEP \<or> endpoint q = RefreshTokenEP) rs
             \<and> (\<not> expired_next (vendor w) \<longrightarrow> rs = []))
      \<and> (\<forall>cams. snd (fetch_cameras L w now) = Inr cams \<longrightarrow>
             cameras (fst (fetch_cameras L w now)) = cams
           \<and> cameras_ts (fst (fetch_cameras L w now)) = now))"
proof (intro conjI impI)
  assume a: "reachable L w \<and> cameras w \<noteq> [] \<and> now - cameras_ts w < 120"
  then have "cache_has_owner w" by (blast intro: reachable_owner)
  with a have "truthy (creds w)" by (simp add: cache_has_owner_def)
  with a show "fetch_cameras L w now = (w, Inr (cameras w))"
    by (simp add: fetch_cameras_def CACHE_TTL_def)
next
  assume h: "(cameras w = [] \<or> 120 \<le> now - cameras_ts w) \<and> payload w = Inr (tok, pid)"
  then have p: "payload w = Inr (tok, pid)" by simp
  then have t: "truthy (creds w)" by (rule payload_truthy)
  obtain w2 r2 where rt: "(case call_api w GetObjectListEP [] of
              (w1, r) \<Rightarrow> if r = Inl TokenRefreshed then call_api w1 GetObjectListEP [] else (w1, r)) = (w2, r2)"
    by (cases "(case call_api w GetObjectListEP [] of
              (w1, r) \<Rightarrow> if r = Inl TokenRefreshed then call_api w1 GetObjectListEP [] else (w1, r))")
  from retry_shape[OF rt p] obtain rs where
    c: "calls w2 = calls w @ \<lparr>endpoint = GetObjectListEP, access = tok, args = [pid]\<rparr> # rs"
    and rs: "count_calls GetObjectListEP rs \<le> 1"
      "list_all (\<lambda>q. endpoint q = GetObjectListEP \<or> endpoint q = RefreshTokenEP) rs"
      "\<not> expired_next (vendor w) \<longrightarrow> rs = []"
    by auto
  have "calls (fst (fetch_cameras L w now)) = calls w2"
    using t h rt
    by (auto simp: fetch_cameras_def CACHE_TTL_def split: sum.splits)
  with c rs show "\<exists>rs. calls (fst (fetch_cameras L w now))
                     = calls w @ \<lparr>endpoint = GetObjectListEP, access = tok, args = [pid]\<rparr> # rs
                 \<and> count_calls GetObjectListEP rs \<le> 1
                 \<and> list_all (\<lambda>q. endpoint q = GetObjectListEP \<or> endpoint q = RefreshTokenEP) rs
                 \<and> (\<not> expired_next (vendor w) \<longrightarrow> rs = [])"
    by auto
  show "\<forall>cams. snd (fetch_cameras L w now) = Inr cams \<longrightarrow>
                 cameras (fst (fetch_cameras L w now)) = cams
               \<and> cameras_ts (fst (fetch_cameras L w now)) = now"
    using t h
    by (auto simp: fetch_cameras_def CACHE_TTL_def split: sum.splits prod.splits)
qed

subsection \<open>Concrete runs\<close>

lemmas eval_defs = sample_world_def sample_creds_def ok_reply_def expired_reply_def error_reply_def
  call_api_def payload_def send_def validate.simps refresh_token.simps
  response_code_def response_msg_def save_tokens_def Let_def dget_def

lemma sample_device_camera: "camera_of_device L sample_device = Inr (Some sample_camera)"
  by (simp add: camera_of_device_def sample_device_def sample_camera_def dget_def front_door
      MODEL_NAMES_def PAN_CAMS_def PRO_CAMS_def)

text \<open>A process without credentials.\<close>

theorem unauthenticated_list_empty_witness:
  "\<not> truthy (creds ((sample_world [])\<lparr>creds := JNull\<rparr>))
   \<and> fetch_cameras sample_lib ((sample_world [])\<lparr>creds := JNull\<rparr>) 1000
       = ((sample_world [])\<lparr>creds := JNull\<rparr>, Inr [])
   \<and> calls (fst (fetch_cameras sample_lib ((sample_world [])\<lparr>creds := JNull\<rparr>) 1000)) = []"
proof -
  have n: "\<not> truthy (creds ((sample_world [])\<lparr>creds := JNull\<rparr>))" by simp
  from unauthenticated_list_empty [OF n, of sample_lib 1000] n show ?thesis
    by (simp add: sample_world_def)
qed

text \<open>A cache of one camera, 995 seconds old, and a vendor that answers the listing with an
  error code.\<close>

theorem failed_refresh_keeps_cache_witness:
  "fetch_cameras sample_lib ((sample_world [error_reply])\<lparr>cameras := [sample_camera], cameras_ts := 5\<rparr>) 1000
     = ((sample_world [])\<lparr>cameras := [sample_camera], cameras_ts := 5,
          calls := [\<lparr>endpoint = GetObjectListEP, access = JStr (py ''at0''), args = [JStr (py ''ph0'')]\<rparr>]\<rparr>,
        Inl (WyzeApiError (JStr (py ''1001'')) (JStr (py ''error''))))
   \<and> cameras ((sample_world [])\<lparr>cameras := [sample_camera], cameras_ts := 5,
          calls := [\<lparr>endpoint = GetObjectListEP, access = JStr (py ''at0''), args = [JStr (py ''ph0'')]\<rparr>]\<rparr>)
       = cameras ((sample_world [error_reply])\<lparr>cameras := [sample_camera], cameras_ts := 5\<rparr>)
   \<and> cameras_ts ((sample_world [])\<lparr>cameras := [sample_camera], cameras_ts := 5,
          calls := [\<lparr>endpoint = GetObjectListEP, access = JStr (py ''at0''), args = [JStr (py ''ph0'')]\<rparr>]\<rparr>)
       = cameras_ts ((sample_world [error_reply])\<lparr>cameras := [sample_camera], cameras_ts := 5\<rparr>)"
proof -
  let ?w = "(sample_world [error_reply])\<lparr>cameras := [sample_camera], cameras_ts := 5\<rparr>"
  let ?w' = "(sample_world [])\<lparr>cameras := [sample_camera], cameras_ts := 5,
          calls := [\<lparr>endpoint = GetObjectListEP, access = JStr (py ''at0''), args = [JStr (py ''ph0'')]\<rparr>]\<rparr>"
  have t: "truthy (creds ?w) \<and> (cameras ?w = [] \<or> 120 \<le> (1000::real) - cameras_ts ?w)"
    by (simp add: sample_world_def sample_creds_def)
  have a: "try_twice sample_lib ?w (ListDevices 1000)
             = (?w', Inl (WyzeApiError (JStr (py ''1001'')) (JStr (py ''error''))))"
    by (simp add: try_twice_def attempt_def eval_defs)
  note f = failed_refresh_keeps_cache
      [of sample_lib ?w 1000 ?w' "WyzeApiError (JStr (py ''1001'')) (JStr (py ''error''))" ?w']
  from f t a have e: "fetch_cameras sample_lib ?w 1000
             = (?w', Inl (WyzeApiError (JStr (py ''1001'')) (JStr (py ''error''))))"
    by blast
  with f show ?thesis by blast
qed

lemma sample_fetch:
  "fetch_cameras sample_lib (sample_world [ok_reply (JObj [(py ''device_list'', JArr [sample_device])])]) 1000
       = ((sample_world [])\<lparr>cameras := [sample_camera], cameras_ts := 1000,
            calls := [\<lparr>endpoint = GetObjectListEP, access = JStr (py ''at0''), args = [JStr (py ''ph0'')]\<rparr>]\<rparr>,
          Inr [sample_camera])"
  by (simp add: fetch_cameras_def CACHE_TTL_def eval_defs sample_device_camera)

text \<open>A fresh cache of one camera and the slug \<open>garage\<close>, which it does not have.\<close>

theorem unknown_slug_not_found_witness:
  "api_signaling sample_lib
       ((sample_world [])\<lparr>cameras := [sample_camera], cameras_ts := 1000\<rparr>) 1010 (py ''garage'')
     = ((sample_world [])\<lparr>cameras := [sample_camera], cameras_ts := 1000\<rparr>,
        Jsonify (JObj [(py ''error'', JStr (py ''Camera not found'')),
                       (py ''result'', JStr (py ''error''))]) 404)
   \<and> api_thumbnail sample_lib
       ((sample_world [])\<lparr>cameras := [sample_camera], cameras_ts := 1000\<rparr>) 1010 1011 (py ''garage'')
     = ((sample_world [])\<lparr>cameras := [sample_camera], cameras_ts := 1000\<rparr>,
        Jsonify (JObj [(py ''error'', JStr (py ''No thumbnail''))]) 404)"
proof -
  let ?w = "(sample_world [])\<lparr>cameras := [sample_camera], cameras_ts := 1000\<rparr>"
  have f: "fetch_cameras sample_lib ?w 1010 = (?w, Inr [sample_camera])"
    by (simp add: fetch_cameras_def CACHE_TTL_def sample_world_def sample_creds_def)
  have n: "list_all (\<lambda>cam. name_uri cam \<noteq> py ''garage'') [sample_camera]"
    by (simp add: sample_camera_def)
  from unknown_slug_not_found [OF f n, where action = "py ''restart''" and qvalue = None and now' = 1011]
  show ?thesis by blast
qed

text \<open>An empty cache and the slug \<open>garage\<close>: the route answers 404 after the
  device-listing request has gone to the vendor.\<close>

theorem unknown_slug_listing_counterexample:
  "api_camera_detail sample_lib
       (sample_world [ok_reply (JObj [(py ''device_list'', JArr [sample_device])])]) 1000 (py ''garage'')
     = ((sample_world [])\<lparr>cameras := [sample_camera], cameras_ts := 1000,
            calls := [\<lparr>endpoint = GetObjectListEP, access = JStr (py ''at0''), args = [JStr (py ''ph0'')]\<rparr>]\<rparr>,
        Jsonify (JObj [(py ''error'', JStr (py ''Camera not found''))]) 404)
   \<and> calls (sample_world [ok_reply (JObj [(py ''device_list'', JArr [sample_device])])]) = []"
  by (simp add: api_camera_detail_def find_camera_def sample_fetch)
     (simp add: sample_camera_def sample_world_def)

text \<open>A start without a token file, and one with a file that holds a credential.\<close>

theorem load_tokens_outcomes_witness:
  "load_tokens (fresh_world None []) = (fresh_world None [], Inr False)
   \<and> (\<exists>rs. calls (fst (main sample_lib sample_env (py ''ph1'') 1000 1001 (fresh_world None [])))
             = login_request (py ''ph1'') (py ''id'') (py ''key'') (py ''a@b.c'') (py ''abc'') # rs)
   \<and> load_tokens (fresh_world (Some (JsonText sample_creds)) [])
       = ((fresh_world (Some (JsonText sample_creds)) [])\<lparr>creds := sample_creds\<rparr>, Inr True)"
proof -
  have "token_file (fresh_world None []) = None" "creds (fresh_world None []) = JNull"
       "env_complete sample_env"
       "hash_password sample_lib (env_val (WYZE_PASSWORD sample_env)) = Inr (py ''abc'')"
       "token_file (fresh_world (Some (JsonText sample_creds)) []) = Some (JsonText sample_creds)"
    by (simp_all add: fresh_world_def env_complete_def sample_env_def env_set_def env_val_def hashed_abc)
  with load_tokens_outcomes [of "fresh_world None []" sample_lib sample_env "py ''ph1''" 1000 1001]
       load_tokens_outcomes [of "fresh_world (Some (JsonText sample_creds)) []" sample_lib sample_env "py ''ph1''" 1000 1001]
  show ?thesis
    by (simp add: sample_env_def env_val_def) (simp add: fresh_world_def)
qed

text \<open>A start with a token file whose content is the one character \<open>{\<close>: loading raises,
  the process ends, no login request is sent.\<close>

theorem load_tokens_corrupt_counterexample:
  "load_tokens (fresh_world (Some (NotJson (py ''{''))) [])
     = (fresh_world (Some (NotJson (py ''{''))) [], Inl JSONDecodeError)
   \<and> main sample_lib sample_env (py ''ph1'') 1000 1001 (fresh_world (Some (NotJson (py ''{''))) [])
     = (fresh_world (Some (NotJson (py ''{''))) [], Some JSONDecodeError)
   \<and> calls (fresh_world (Some (NotJson (py ''{''))) []) = []"
  by (simp add: load_tokens_def main_def fresh_world_def)

text \<open>A \<open>turns:\<close> URL with a path after the port, and a descriptor with the legacy
  field.\<close>

theorem relay_url_rewrite_witness:
  "rewrite_url sample_lib (py ''turns:10-0-0-7.t-ab:3478?transport=tcp'') = py ''turns:10.0.0.7:3478?transport=tcp''
   \<and> normalize_server sample_lib
        (JObj [(py ''url'', JStr (py ''turn:54-201-33-198.t-xyz.kinesisvideo.example:443'')),
               (py ''username'', JStr (py ''u''))])
       = Inr (JObj [(py ''username'', JStr (py ''u'')),
                    (py ''urls'', JStr (py ''turn:54.201.33.198:443''))])"
proof -
  have "rewrite_url sample_lib (py ''turns:'' @ py ''10'' @ [45] @ py ''0'' @ [45] @ py ''0'' @ [45] @ py ''7''
           @ py ''.t-'' @ py ''ab'' @ [58] @ py ''3478?transport=tcp'')
        = py ''turns:'' @ py ''10'' @ [46] @ py ''0'' @ [46] @ py ''0'' @ [46] @ py ''7'' @ [58] @ py ''3478?transport=tcp''"
    using relay_url_rewrite [of "py ''turns:''" "py ''10''" sample_lib "py ''0''" "py ''0''" "py ''7''"
        "py ''ab''" "py ''3478?transport=tcp''"]
    by (simp add: py_def digit_char_def)
  then have 1: "rewrite_url sample_lib (py ''turns:10-0-0-7.t-ab:3478?transport=tcp'') = py ''turns:10.0.0.7:3478?transport=tcp''"
    by (simp add: py_def)
  have 2: "normalize_server sample_lib
        (JObj [(py ''url'', JStr (py ''turn:54-201-33-198.t-xyz.kinesisvideo.example:443'')),
               (py ''username'', JStr (py ''u''))])
       = Inr (JObj [(py ''username'', JStr (py ''u'')),
                    (py ''urls'', JStr (py ''turn:54.201.33.198:443''))])"
    by (simp add: normalize_server_url rewrite_url_example)
  from 1 2 show ?thesis by blast
qed

text \<open>Two URLs whose host is four octets joined by hyphens and a suffix: one whose
  suffix does not start with \<open>t-\<close>, one with the scheme \<open>stun:\<close>. Neither is rewritten.\<close>

theorem relay_url_suffix_counterexample:
  "rewrite_url sample_lib (py ''turn:54-201-33-198.kinesisvideo.example:443'')
     = py ''turn:54-201-33-198.kinesisvideo.example:443''
   \<and> rewrite_url sample_lib (py ''stun:54-201-33-198.t-xyz.kinesisvideo.example:443'')
     = py ''stun:54-201-33-198.t-xyz.kinesisvideo.example:443''"
  by (simp add: rewrite_url_def match_turn_def turn_scheme_def startswith_def digits_then_def
      digit_char_def py_def)

lemma sample_replies:
  "expired_reply = Resp 200 None (JsonText (JObj [(py ''code'', JStr (py ''2001''))]))"
  "ok_reply d = Resp 200 None (JsonText (JObj [(py ''code'', JStr (py ''1'')), (py ''data'', d)]))"
  "expired [(py ''code'', JStr (py ''2001''))]"
  "success [(py ''code'', JStr (py ''1'')), (py ''data'', d)]"
  "dget [(py ''code'', JStr (py ''1'')), (py ''data'', d)] (py ''data'') x = d"
  by (simp_all add: expired_reply_def ok_reply_def expired_def success_def response_code_def dget_def)

text \<open>\<open>run_action\<close> with an expired token, a refresh that succeeds and a retry that
  succeeds: three requests. The signaling call when the retry is answered with the
  token-expired code and the second refresh succeeds: four requests, and
  \<open>TokenRefreshed\<close> for the caller.\<close>

theorem refresh_retry_once_witness:
  "calls (fst (perform sample_lib
            (sample_world [expired_reply, ok_reply (new_tokens ''at1'' ''rt1''), ok_reply (JObj [])])
            (RunAction (JStr (py ''AB:12'')) (JStr (py ''WYZEC1'')) (JStr (py ''restart'')))))
     = [\<lparr>endpoint = RunActionEP, access = JStr (py ''at0''),
          args = [JStr (py ''ph0''), JStr (py ''restart''), JStr (py ''AB:12''), JStr (py ''WYZEC1'')]\<rparr>,
        \<lparr>endpoint = RefreshTokenEP, access = JStr (py ''at0''),
          args = [JStr (py ''ph0''), JStr (py ''rt0'')]\<rparr>,
        \<lparr>endpoint = RunActionEP, access = JStr (py ''at1''),
          args = [JStr (py ''ph0''), JStr (py ''restart''), JStr (py ''AB:12''), JStr (py ''WYZEC1'')]\<rparr>]
   \<and> calls (fst (perform sample_lib
            (sample_world [expired_reply, ok_reply (new_tokens ''at1'' ''rt1''),
                           expired_reply, ok_reply (new_tokens ''at2'' ''rt2'')])
            (Signaling (JStr (py ''AB:12'')))))
     = [\<lparr>endpoint = SignalingEP, access = JStr (py ''at0''), args = [JStr (py ''AB:12'')]\<rparr>,
        \<lparr>endpoint = RefreshTokenEP, access = JStr (py ''at0''),
          args = [JStr (py ''ph0''), JStr (py ''rt0'')]\<rparr>,
        \<lparr>endpoint = SignalingEP, access = JStr (py ''at1''), args = [JStr (py ''AB:12'')]\<rparr>,
        \<lparr>endpoint = RefreshTokenEP, access = JStr (py ''at1''),
          args = [JStr (py ''ph0''), JStr (py ''rt1'')]\<rparr>]
   \<and> snd (perform sample_lib
            (sample_world [expired_reply, ok_reply (new_tokens ''at1'' ''rt1''),
                           expired_reply, ok_reply (new_tokens ''at2'' ''rt2'')])
            (Signaling (JStr (py ''AB:12'')))) = Some TokenRefreshed"
proof -
  let ?c = "[(py ''access_token'', JStr (py ''at0'')), (py ''refresh_token'', JStr (py ''rt0'')),
             (py ''phone_id'', JStr (py ''ph0''))]"
  let ?b1 = "[(py ''code'', JStr (py ''2001''))]"
  let ?b2 = "[(py ''code'', JStr (py ''1'')), (py ''data'', new_tokens ''at1'' ''rt1'')]"
  let ?b4 = "[(py ''code'', JStr (py ''1'')), (py ''data'', new_tokens ''at2'' ''rt2'')]"
  let ?d = "[(py ''access_token'', JStr (py ''at1'')), (py ''refresh_token'', JStr (py ''rt1''))]"
  let ?d4 = "[(py ''access_token'', JStr (py ''at2'')), (py ''refresh_token'', JStr (py ''rt2''))]"
  let ?w = "sample_world [expired_reply, ok_reply (new_tokens ''at1'' ''rt1''), ok_reply (JObj [])]"
  let ?w4 = "sample_world [expired_reply, ok_reply (new_tokens ''at1'' ''rt1''),
                           expired_reply, ok_reply (new_tokens ''at2'' ''rt2'')]"
  have c: "map_of ?c (py ''access_token'') = Some (JStr (py ''at0''))"
    "map_of ?c (py ''refresh_token'') = Some (JStr (py ''rt0''))"
    "map_of ?c (py ''phone_id'') = Some (JStr (py ''ph0''))"
    "expired ?b1" "success ?b2" "success ?b4"
    "dget ?b2 (py ''data'') (JObj ?b2) = JObj ?d"
    "dget ?b4 (py ''data'') (JObj ?b4) = JObj ?d4"
    by (simp_all add: sample_replies new_tokens_def)
  have h: "creds ?w = JObj ?c"
    "vendor ?w = Resp 200 None (JsonText (JObj ?b1)) # Resp 200 None (JsonText (JObj ?b2))
                 # [ok_reply (JObj [])]"
    "\<not> expired_next [ok_reply (JObj [])]"
    by (simp_all add: sample_world_def sample_creds_def sample_replies expired_def response_code_def)
  have h4: "creds ?w4 = JObj ?c"
    "vendor ?w4 = Resp 200 None (JsonText (JObj ?b1)) # Resp 200 None (JsonText (JObj ?b2))
                 # [Resp 200 None (JsonText (JObj ?b1)), Resp 200 None (JsonText (JObj ?b4))]"
    by (simp_all add: sample_world_def sample_creds_def sample_replies)
  from refresh_retry_once [of "RunAction (JStr (py ''AB:12'')) (JStr (py ''WYZEC1'')) (JStr (py ''restart''))"
      sample_lib ?w ?c "JStr (py ''at0'')" "JStr (py ''rt0'')" "JStr (py ''ph0'')"
      200 None ?b1 200 None ?b2 "[ok_reply (JObj [])]" ?d] h c
  have 1: "calls (fst (perform sample_lib ?w
            (RunAction (JStr (py ''AB:12'')) (JStr (py ''WYZEC1'')) (JStr (py ''restart'')))))
     = [\<lparr>endpoint = RunActionEP, access = JStr (py ''at0''),
          args = [JStr (py ''ph0''), JStr (py ''restart''), JStr (py ''AB:12''), JStr (py ''WYZEC1'')]\<rparr>,
        \<lparr>endpoint = RefreshTokenEP, access = JStr (py ''at0''),
          args = [JStr (py ''ph0''), JStr (py ''rt0'')]\<rparr>,
        \<lparr>endpoint = RunActionEP, access = JStr (py ''at1''),
          args = [JStr (py ''ph0''), JStr (py ''restart''), JStr (py ''AB:12''), JStr (py ''WYZEC1'')]\<rparr>]"
    by (auto simp: refresh_request_def dget_def sample_world_def)
  from refresh_retry_once [of "Signaling (JStr (py ''AB:12''))"
      sample_lib ?w4 ?c "JStr (py ''at0'')" "JStr (py ''rt0'')" "JStr (py ''ph0'')"
      200 None ?b1 200 None ?b2
      "[Resp 200 None (JsonText (JObj ?b1)), Resp 200 None (JsonText (JObj ?b4))]" ?d] h4 c
  obtain more where
    m: "calls (fst (perform sample_lib ?w4 (Signaling (JStr (py ''AB:12'')))))
          = calls ?w4 @ [request_for sample_lib (Signaling (JStr (py ''AB:12''))) (JStr (py ''at0'')) (JStr (py ''ph0'')),
                         refresh_request (JStr (py ''at0'')) (JStr (py ''ph0'')) (JStr (py ''rt0'')),
                         request_for sample_lib (Signaling (JStr (py ''AB:12'')))
                           (dget ?d (py ''access_token'') (JStr (py ''at0''))) (JStr (py ''ph0''))] @ more"
    and x: "\<forall>s3 t3 b3 s4 t4 b4 d4 rest'.
              [Resp 200 None (JsonText (JObj ?b1)), Resp 200 None (JsonText (JObj ?b4))]
                = Resp s3 t3 (JsonText (JObj b3)) # Resp s4 t4 (JsonText (JObj b4)) # rest'
              \<and> expired b3 \<and> success b4 \<and> dget b4 (py ''data'') (JObj b4) = JObj d4 \<longrightarrow>
              more = [refresh_request (dget ?d (py ''access_token'') (JStr (py ''at0''))) (JStr (py ''ph0''))
                        (dget ?d (py ''refresh_token'') (JStr (py ''rt0'')))]
            \<and> snd (perform sample_lib ?w4 (Signaling (JStr (py ''AB:12'')))) = Some TokenRefreshed"
    by auto
  from x c have "more = [refresh_request (dget ?d (py ''access_token'') (JStr (py ''at0''))) (JStr (py ''ph0''))
                        (dget ?d (py ''refresh_token'') (JStr (py ''rt0'')))]
            \<and> snd (perform sample_lib ?w4 (Signaling (JStr (py ''AB:12'')))) = Some TokenRefreshed"
    by blast
  with m have 2: "calls (fst (perform sample_lib ?w4 (Signaling (JStr (py ''AB:12'')))))
     = [\<lparr>endpoint = SignalingEP, access = JStr (py ''at0''), args = [JStr (py ''AB:12'')]\<rparr>,
        \<lparr>endpoint = RefreshTokenEP, access = JStr (py ''at0''),
          args = [JStr (py ''ph0''), JStr (py ''rt0'')]\<rparr>,
        \<lparr>endpoint = SignalingEP, access = JStr (py ''at1''), args = [JStr (py ''AB:12'')]\<rparr>,
        \<lparr>endpoint = RefreshTokenEP, access = JStr (py ''at1''),
          args = [JStr (py ''ph0''), JStr (py ''rt1'')]\<rparr>]"
    and 3: "snd (perform sample_lib ?w4 (Signaling (JStr (py ''AB:12'')))) = Some TokenRefreshed"
    by (simp_all add: refresh_request_def dget_def sample_world_def)
  from 1 2 3 show ?thesis by blast
qed

text \<open>\<open>run_action\<close> when the retry is answered with the token-expired code again: the
  trace has two refresh requests, not one, and \<open>TokenRefreshed\<close> reaches the caller.\<close>

theorem second_refresh_counterexample:
  "perform sample_lib
     (sample_world [expired_reply, ok_reply (new_tokens ''at1'' ''rt1''),
                    expired_reply, ok_reply (new_tokens ''at2'' ''rt2'')])
     (RunAction (JStr (py ''AB:12'')) (JStr (py ''WYZEC1'')) (JStr (py ''restart'')))
   = ((sample_world [])\<lparr>
        creds := JObj [(py ''access_token'', JStr (py ''at2'')), (py ''refresh_token'', JStr (py ''rt2'')),
                       (py ''phone_id'', JStr (py ''ph0''))],
        token_file := Some (JsonText (JObj [(py ''access_token'', JStr (py ''at2'')),
                       (py ''refresh_token'', JStr (py ''rt2'')), (py ''phone_id'', JStr (py ''ph0''))])),
        calls :=
          [\<lparr>endpoint = RunActionEP, access = JStr (py ''at0''),
             args = [JStr (py ''ph0''), JStr (py ''restart''), JStr (py ''AB:12''), JStr (py ''WYZEC1'')]\<rparr>,
           \<lparr>endpoint = RefreshTokenEP, access = JStr (py ''at0''),
             args = [JStr (py ''ph0''), JStr (py ''rt0'')]\<rparr>,
           \<lparr>endpoint = RunActionEP, access = JStr (py ''at1''),
             args = [JStr (py ''ph0''), JStr (py ''restart''), JStr (py ''AB:12''), JStr (py ''WYZEC1'')]\<rparr>,
           \<lparr>endpoint = RefreshTokenEP, access = JStr (py ''at1''),
             args = [JStr (py ''ph0''), JStr (py ''rt1'')]\<rparr>]\<rparr>,
      Some TokenRefreshed)
   \<and> count_calls RefreshTokenEP
        (calls (fst (perform sample_lib
           (sample_world [expired_reply, ok_reply (new_tokens ''at1'' ''rt1''),
                          expired_reply, ok_reply (new_tokens ''at2'' ''rt2'')])
           (RunAction (JStr (py ''AB:12'')) (JStr (py ''WYZEC1'')) (JStr (py ''restart'')))))) = 2"
  by (simp add: run_action_def eval_defs new_tokens_def raised_def)

text \<open>A refresh whose reply has a new access token and no refresh token.\<close>

theorem refresh_keeps_other_fields_witness:
  "refresh_token (sample_world [ok_reply (JObj [(py ''access_token'', JStr (py ''at1''))])])
     = ((sample_world [])\<lparr>
          creds := JObj [(py ''access_token'', JStr (py ''at1'')), (py ''refresh_token'', JStr (py ''rt0'')),
                         (py ''phone_id'', JStr (py ''ph0''))],
          token_file := Some (JsonText (JObj [(py ''access_token'', JStr (py ''at1'')),
                         (py ''refresh_token'', JStr (py ''rt0'')), (py ''phone_id'', JStr (py ''ph0''))])),
          calls := [refresh_request (JStr (py ''at0'')) (JStr (py ''ph0'')) (JStr (py ''rt0''))]\<rparr>, Inr ())
   \<and> tokens_only (sample_world [ok_reply (JObj [(py ''access_token'', JStr (py ''at1''))])])
        ((sample_world [])\<lparr>
          creds := JObj [(py ''access_token'', JStr (py ''at1'')), (py ''refresh_token'', JStr (py ''rt0'')),
                         (py ''phone_id'', JStr (py ''ph0''))],
          token_file := Some (JsonText (JObj [(py ''access_token'', JStr (py ''at1'')),
                         (py ''refresh_token'', JStr (py ''rt0'')), (py ''phone_id'', JStr (py ''ph0''))])),
          calls := [refresh_request (JStr (py ''at0'')) (JStr (py ''ph0'')) (JStr (py ''rt0''))]\<rparr>)
   \<and> (\<exists>c'. creds ((sample_world [])\<lparr>
          creds := JObj [(py ''access_token'', JStr (py ''at1'')), (py ''refresh_token'', JStr (py ''rt0'')),
                         (py ''phone_id'', JStr (py ''ph0''))],
          token_file := Some (JsonText (JObj [(py ''access_token'', JStr (py ''at1'')),
                         (py ''refresh_token'', JStr (py ''rt0'')), (py ''phone_id'', JStr (py ''ph0''))])),
          calls := [refresh_request (JStr (py ''at0'')) (JStr (py ''ph0'')) (JStr (py ''rt0''))]\<rparr>) = JObj c'
        \<and> map_of c' (py ''refresh_token'') = Some (JStr (py ''rt0''))
        \<and> map_of c' (py ''phone_id'') = Some (JStr (py ''ph0'')))"
proof -
  let ?w = "sample_world [ok_reply (JObj [(py ''access_token'', JStr (py ''at1''))])]"
  let ?w' = "(sample_world [])\<lparr>
          creds := JObj [(py ''access_token'', JStr (py ''at1'')), (py ''refresh_token'', JStr (py ''rt0'')),
                         (py ''phone_id'', JStr (py ''ph0''))],
          token_file := Some (JsonText (JObj [(py ''access_token'', JStr (py ''at1'')),
                         (py ''refresh_token'', JStr (py ''rt0'')), (py ''phone_id'', JStr (py ''ph0''))])),
          calls := [refresh_request (JStr (py ''at0'')) (JStr (py ''ph0'')) (JStr (py ''rt0''))]\<rparr>"
  have e: "refresh_token ?w = (?w', Inr ())"
    by (simp add: eval_defs refresh_request_def)
  note t = refresh_keeps_other_fields [of ?w ?w' "Inr ()" "()"]
  from t e have 1: "tokens_only ?w ?w'" by blast
  from t e obtain c c' a r st ct b rest d where
    "creds ?w = JObj c" "creds ?w' = JObj c'"
    "vendor ?w = Resp st ct (JsonText (JObj b)) # rest"
    "dget b (py ''data'') (JObj b) = JObj d"
    "map_of c (py ''refresh_token'') = Some r"
    "map_of c' (py ''refresh_token'') = Some (case map_of d (py ''refresh_token'') of None \<Rightarrow> r | Some v \<Rightarrow> v)"
    "\<forall>k. k \<noteq> py ''access_token'' \<and> k \<noteq> py ''refresh_token'' \<longrightarrow> map_of c' k = map_of c k"
    by blast
  then have "map_of c' (py ''refresh_token'') = Some (JStr (py ''rt0''))
        \<and> map_of c' (py ''phone_id'') = Some (JStr (py ''ph0''))"
    by (auto simp: sample_world_def sample_creds_def ok_reply_def dget_def)
  with e 1 \<open>creds ?w' = JObj c'\<close> show ?thesis by blast
qed

lemma strip_email: "strip (py ''a@b.c'') = py ''a@b.c''"
  by (simp add: strip_def isspace_def py_def)

lemma served_world_started:
  "main sample_lib sample_env (py ''ph0'') 1000 1001
     (fresh_world None [ok_reply (new_tokens ''at0'' ''rt0''),
                        ok_reply (JObj [(py ''device_list'', JArr [sample_device])])])
   = (served_world, None)"
  by (simp add: main_def load_tokens_def fresh_world_def sample_env_def env_set_def env_val_def
      wyze_login_def hashed_abc fetch_cameras_def CACHE_TTL_def eval_defs new_tokens_def
      sample_device_camera served_world_def login_request_def)

text \<open>A server that started without a token file, logged in and listed one camera: 119
  seconds after that the list comes from the cache; a second later a listing request
  is sent, once, and its empty list replaces the cache.\<close>

theorem fetch_cameras_cache_witness:
  "reachable sample_lib served_world
   \<and> fetch_cameras sample_lib served_world 1120 = (served_world, Inr [sample_camera])
   \<and> payload (served_world\<lparr>vendor := [ok_reply (JObj [])]\<rparr>) = Inr (JStr (py ''at0''), JStr (py ''ph0''))
   \<and> fetch_cameras sample_lib (served_world\<lparr>vendor := [ok_reply (JObj [])]\<rparr>) 1121
       = (served_world\<lparr>cameras := [], cameras_ts := 1121,
            calls := calls served_world
              @ [\<lparr>endpoint = GetObjectListEP, access = JStr (py ''at0''), args = [JStr (py ''ph0'')]\<rparr>]\<rparr>,
          Inr [])"
proof -
  have r: "reachable sample_lib served_world"
    using served_world_started by (rule reachable.started)
  have c: "cameras served_world \<noteq> [] \<and> (1120::real) - cameras_ts served_world < 120"
    by (simp add: served_world_def)
  have 1: "fetch_cameras sample_lib served_world 1120 = (served_world, Inr [sample_camera])"
    using fetch_cameras_cache [of sample_lib served_world 1120] r c
    by (simp add: served_world_def)
  let ?w = "served_world\<lparr>vendor := [ok_reply (JObj [])]\<rparr>"
  have p: "payload ?w = Inr (JStr (py ''at0''), JStr (py ''ph0''))"
    by (simp add: served_world_def eval_defs)
  have s: "(cameras ?w = [] \<or> 120 \<le> (1121::real) - cameras_ts ?w)" "\<not> expired_next (vendor ?w)"
    by (simp_all add: served_world_def ok_reply_def expired_def response_code_def)
  have e: "snd (fetch_cameras sample_lib ?w 1121) = Inr []"
    by (simp add: fetch_cameras_def CACHE_TTL_def served_world_def eval_defs)
  from fetch_cameras_cache [of sample_lib ?w 1121 "JStr (py ''at0'')" "JStr (py ''ph0'')"] p s e
  have "calls (fst (fetch_cameras sample_lib ?w 1121))
          = calls served_world @ [\<lparr>endpoint = GetObjectListEP, access = JStr (py ''at0''), args = [JStr (py ''ph0'')]\<rparr>]"
       "cameras (fst (fetch_cameras sample_lib ?w 1121)) = []"
       "cameras_ts (fst (fetch_cameras sample_lib ?w 1121)) = 1121"
    by auto
  moreover have "fetch_cameras sample_lib ?w 1121
       = (served_world\<lparr>cameras := [], cameras_ts := 1121,
            calls := calls served_world
              @ [\<lparr>endpoint = GetObjectListEP, access = JStr (py ''at0''), args = [JStr (py ''ph0'')]\<rparr>]\<rparr>,
          Inr [])"
    by (simp add: fetch_cameras_def CACHE_TTL_def served_world_def eval_defs)
  ultimately show ?thesis using r 1 p by blast
qed

end
